theory Spec2Isabelle
  imports Complex_Main "HOL-Library.Word" "HOL-Library.Signed_Division"
begin

unbundle bit_operations_syntax

text \<open>
  A model of the HID filter driver of \<^verbatim>\<open>src/HidFilterDriver/trace.h\<close>: the device context,
  the filter engine (\<open>ProcessMouseInput\<close> and its three algorithms), the control-surface
  handler \<open>HidFilterDriverIoDeviceControl\<close> and the report-path handler
  \<open>HidFilterDriverIoInternalDeviceControl\<close>.  A handler is a function from the context and
  the request to the new context and the list of what it did; integers are machine words;
  the framework's answers and the single-precision arithmetic are parameters.
\<close>

section \<open>Machine types of the driver\<close>

text \<open>
  The driver is C for Windows: \<open>CHAR\<close> (here \<open>CHAR_t\<close>) is a signed 8-bit integer, \<open>UCHAR\<close> and
  \<open>BOOLEAN\<close> are unsigned 8-bit integers, \<open>LONG\<close> is a signed and \<open>ULONG\<close> an
  unsigned 32-bit integer, \<open>NTSTATUS\<close> is a \<open>LONG\<close>.  All of them are words here; a
  signed type is read with \<open>sint\<close> and compared with \<open><s\<close>, an unsigned one with
  \<open>unat\<close> and \<open><\<close>.
\<close>

type_synonym UCHAR = "8 word"
type_synonym CHAR_t = "8 word"
type_synonym BOOLEAN = "8 word"
type_synonym LONG = "32 word"
type_synonym ULONG = "32 word"
type_synonym NTSTATUS = "32 word"

definition NT_SUCCESS :: "NTSTATUS \<Rightarrow> bool" where
  "NT_SUCCESS status = (0 \<le>s status)"

definition STATUS_SUCCESS :: NTSTATUS where
  "STATUS_SUCCESS = 0"

definition STATUS_BUFFER_TOO_SMALL :: NTSTATUS where
  "STATUS_BUFFER_TOO_SMALL = 0xC0000023"

definition STATUS_INVALID_PARAMETER :: NTSTATUS where
  "STATUS_INVALID_PARAMETER = 0xC000000D"

definition STATUS_NO_MORE_ENTRIES :: NTSTATUS where
  "STATUS_NO_MORE_ENTRIES = 0x8000001A"

text \<open>Integer conversions of C: \<open>CHAR\<close> to \<open>LONG\<close> extends the sign, \<open>(CHAR)\<close> of a
  \<open>LONG\<close> keeps the low byte.\<close>

definition LONG_of_CHAR :: "CHAR_t \<Rightarrow> LONG" where
  "LONG_of_CHAR c = scast c"

definition CHAR_of_LONG :: "LONG \<Rightarrow> CHAR_t" where
  "CHAR_of_LONG n = ucast n"

text \<open>The \<open>min\<close> and \<open>max\<close> macros, \<open>((a) < (b)) ? (a) : (b)\<close> and
  \<open>((a) > (b)) ? (a) : (b)\<close>, on signed operands.\<close>

definition min_LONG :: "LONG \<Rightarrow> LONG \<Rightarrow> LONG" where
  "min_LONG a b = (if a <s b then a else b)"

definition max_LONG :: "LONG \<Rightarrow> LONG \<Rightarrow> LONG" where
  "max_LONG a b = (if b <s a then a else b)"

text \<open>The same \<open>min\<close> macro on unsigned operands.\<close>

definition min_ULONG :: "ULONG \<Rightarrow> ULONG \<Rightarrow> ULONG" where
  "min_ULONG a b = (if a < b then a else b)"

text \<open>Division of two \<open>LONG\<close>s truncates towards zero.\<close>

definition sdiv_LONG :: "LONG \<Rightarrow> LONG \<Rightarrow> LONG" where
  "sdiv_LONG a b = word_of_int (sint a sdiv sint b)"

definition abs_LONG :: "LONG \<Rightarrow> LONG" where
  "abs_LONG n = (if n <s 0 then - n else n)"

section \<open>Single-precision arithmetic\<close>

text \<open>
  The smoothing algorithms compute in \<open>FLOAT\<close>.  What a \<open>FLOAT\<close> operation returns is
  fixed by the compiler and the processor, not by the driver's source, so the arithmetic
  is a parameter of the model: a record of the operations the source uses.  The theorems
  on the control surface, the selection and the history hold for every arithmetic; those on
  the values of the two smoothing algorithms are about the instance \<open>binary32\<close> of the
  next section.
  \<open>FLOAT_of_LONG\<close> is the conversion \<open>(FLOAT)n\<close> (also the implicit one of an integer
  operand), \<open>LONG_of_FLOAT\<close> the cast \<open>(LONG)x\<close>, \<open>FLOAT_literal\<close> the value of a literal
  such as \<open>0.01f\<close>, given by the rational it denotes before rounding.
\<close>

record 'f FLOAT_ops =
  FLOAT_of_LONG :: "LONG \<Rightarrow> 'f"
  LONG_of_FLOAT :: "'f \<Rightarrow> LONG"
  FLOAT_literal :: "rat \<Rightarrow> 'f"
  FLOAT_add :: "'f \<Rightarrow> 'f \<Rightarrow> 'f"
  FLOAT_sub :: "'f \<Rightarrow> 'f \<Rightarrow> 'f"
  FLOAT_mul :: "'f \<Rightarrow> 'f \<Rightarrow> 'f"
  FLOAT_div :: "'f \<Rightarrow> 'f \<Rightarrow> 'f"
  FLOAT_less :: "'f \<Rightarrow> 'f \<Rightarrow> bool"

definition min_FLOAT :: "'f FLOAT_ops \<Rightarrow> 'f \<Rightarrow> 'f \<Rightarrow> 'f" where
  "min_FLOAT fl a b = (if FLOAT_less fl a b then a else b)"

definition max_FLOAT :: "'f FLOAT_ops \<Rightarrow> 'f \<Rightarrow> 'f \<Rightarrow> 'f" where
  "max_FLOAT fl a b = (if FLOAT_less fl b a then a else b)"

section \<open>IEEE single precision\<close>

text \<open>
  On the processors that Windows runs on, a \<open>FLOAT\<close> is an IEEE 754 binary32 number, and
  an operation returns the exact result rounded to the nearest binary32 number, a tie
  going to the even mantissa.  The instance \<open>binary32\<close> is that arithmetic, on the
  rationals.  A binary32 number is 0 or \<open>m \<sqdot> 2 ^ (e - 23)\<close> with \<open>\<bar>m\<bar> < 2 ^ 24\<close> and
  \<open>- 126 \<le> e \<le> 127\<close>.  For \<open>a > 0\<close>, \<open>floor_exp 127 a\<close> is the exponent of \<open>a\<close>: the
  largest \<open>e\<close>, searched from 127 downwards, with \<open>2 ^ e \<le> a\<close>, and \<open>- 126\<close> for the
  subnormal numbers.  \<open>binary32_round q\<close> is the multiple of the unit in the last place
  \<open>2 ^ (e - 23)\<close> that is nearest to \<open>q\<close>.

  Every conversion, literal and operation of the source is rounded on its own, in the
  order of the source: no intermediate result is kept in a wider format and no
  multiplication is fused with an addition.  Infinities and NaN are left out, and
  \<open>(LONG)x\<close> of a value outside \<open>LONG\<close> wraps; the values that the driver computes from
  a report and a context it can reach stay below 1024 in magnitude.  \<open>(LONG)x\<close>
  truncates towards zero.
\<close>

function floor_exp :: "int \<Rightarrow> rat \<Rightarrow> int" where
  "floor_exp e a = (if e \<le> - 126 \<or> 2 powi e \<le> a then e else floor_exp (e - 1) a)"
  by pat_completeness auto
termination
  by (relation "measure (\<lambda>(e, a). nat (e + 126))") auto

declare floor_exp.simps [simp del]

definition round_to_even :: "rat \<Rightarrow> int" where
  "round_to_even q =
    (let n = \<lfloor>q\<rfloor>; r = q - of_int n
     in if r < 1 / 2 then n else if 1 / 2 < r then n + 1 else if even n then n else n + 1)"

definition binary32_round :: "rat \<Rightarrow> rat" where
  "binary32_round q =
    (if q = 0 then 0
     else let ulp = 2 powi (floor_exp 127 \<bar>q\<bar> - 23)
          in of_int (round_to_even (q / ulp)) * ulp)"

definition toward_zero :: "rat \<Rightarrow> int" where
  "toward_zero q = (if 0 \<le> q then \<lfloor>q\<rfloor> else \<lceil>q\<rceil>)"

definition binary32 :: "rat FLOAT_ops" where
  "binary32 =
    \<lparr>FLOAT_of_LONG = (\<lambda>n. binary32_round (of_int (sint n))),
     LONG_of_FLOAT = (\<lambda>q. word_of_int (toward_zero q)),
     FLOAT_literal = binary32_round,
     FLOAT_add = (\<lambda>a b. binary32_round (a + b)),
     FLOAT_sub = (\<lambda>a b. binary32_round (a - b)),
     FLOAT_mul = (\<lambda>a b. binary32_round (a * b)),
     FLOAT_div = (\<lambda>a b. binary32_round (a / b)),
     FLOAT_less = (<)\<rparr>"

section \<open>Data model\<close>

definition HISTORY_SIZE :: nat where
  "HISTORY_SIZE = 10"

text \<open>\<open>MOUSE_REPORT\<close>, packed: four bytes.\<close>

record MOUSE_REPORT =
  Buttons :: UCHAR
  X :: CHAR_t
  Y :: CHAR_t
  Wheel :: CHAR_t

definition sizeof_MOUSE_REPORT :: nat where
  "sizeof_MOUSE_REPORT = 4"

text \<open>\<open>HIDFILTER_PARAMETERS\<close>, the answer to Get-Parameters: a \<open>BOOLEAN\<close> and three
  \<open>LONG\<close>s, 16 bytes with the padding of natural alignment.  The fields carry the suffix
  \<open>_out\<close> to tell them from those of the context.\<close>

record HIDFILTER_PARAMETERS =
  FilterActive_out :: BOOLEAN
  SmoothingFactor_out :: LONG
  ResponseSpeed_out :: LONG
  FilteringStrength_out :: LONG

definition sizeof_HIDFILTER_PARAMETERS :: nat where
  "sizeof_HIDFILTER_PARAMETERS = 16"

text \<open>A request of the framework: its handle, its input buffer, the length of its output
  buffer, and what the driver has written to the output buffer and to the information
  field.\<close>

record WDFREQUEST =
  Handle :: nat
  InputBuffer :: "UCHAR list"
  OutputLength :: nat
  OutputBuffer :: "HIDFILTER_PARAMETERS option"
  Information :: nat

text \<open>\<open>FILTER_EXTENSION\<close>, the context of one device.  The handles \<open>Device\<close>, \<open>Queue\<close>
  and \<open>Target\<close> carry no data; \<open>PendingQueue\<close> is the content of the manual queue, in
  arrival order.\<close>

record FILTER_EXTENSION =
  PendingQueue :: "WDFREQUEST list"
  FilterActive :: BOOLEAN
  SmoothingFactor :: LONG
  ResponseSpeed :: LONG
  FilteringStrength :: LONG
  LastXPosition :: LONG
  LastYPosition :: LONG
  LastXOutput :: LONG
  LastYOutput :: LONG
  XHistory :: "LONG list"
  YHistory :: "LONG list"
  HistoryIndex :: ULONG
  HistoryInitialized :: bool

text \<open>What a handler does besides changing the context: the functions of the filter
  engine it calls, the requests it sends to the lower device, the requests it completes.\<close>

datatype event =
    Call_ProcessMouseInput
  | Call_ApplyExponentialSmoothing
  | Call_ApplyMovingAverage
  | Call_ApplyAdaptiveFiltering
  | SentToIoTarget WDFREQUEST
  | RequestCompleted WDFREQUEST NTSTATUS

section \<open>The filter engine\<close>

definition ApplyExponentialSmoothing ::
  "'f FLOAT_ops \<Rightarrow> FILTER_EXTENSION \<Rightarrow> CHAR_t \<Rightarrow> CHAR_t \<Rightarrow> FILTER_EXTENSION \<times> CHAR_t \<times> CHAR_t" where
  "ApplyExponentialSmoothing fl FilterExt x y =
    (let alpha = FLOAT_div fl (FLOAT_of_LONG fl (100 - SmoothingFactor FilterExt))
                   (FLOAT_literal fl 100);
         alpha = max_FLOAT fl (FLOAT_literal fl (1 / 100))
                   (min_FLOAT fl (FLOAT_literal fl 1) alpha);
         newX = LONG_of_FLOAT fl
                  (FLOAT_add fl
                    (FLOAT_mul fl (FLOAT_of_LONG fl (LONG_of_CHAR x)) alpha)
                    (FLOAT_mul fl (FLOAT_of_LONG fl (LastXOutput FilterExt))
                       (FLOAT_sub fl (FLOAT_literal fl 1) alpha)));
         newY = LONG_of_FLOAT fl
                  (FLOAT_add fl
                    (FLOAT_mul fl (FLOAT_of_LONG fl (LONG_of_CHAR y)) alpha)
                    (FLOAT_mul fl (FLOAT_of_LONG fl (LastYOutput FilterExt))
                       (FLOAT_sub fl (FLOAT_literal fl 1) alpha)));
         newX = max_LONG (- 128) (min_LONG 127 newX);
         newY = max_LONG (- 128) (min_LONG 127 newY)
     in (FilterExt\<lparr>LastXOutput := newX, LastYOutput := newY\<rparr>,
         CHAR_of_LONG newX, CHAR_of_LONG newY))"

text \<open>The loop of \<open>ApplyMovingAverage\<close>: \<open>i\<close> runs from 0 to \<open>windowSize - 1\<close>, the slot
  read is \<open>(HistoryIndex + HISTORY_SIZE - 1 - i) % HISTORY_SIZE\<close> in \<open>ULONG\<close> arithmetic.\<close>

definition history_slot :: "ULONG \<Rightarrow> nat \<Rightarrow> nat" where
  "history_slot idx i = unat ((idx + of_nat HISTORY_SIZE - 1 - of_nat i) mod of_nat HISTORY_SIZE)"

definition window_sum :: "LONG list \<Rightarrow> ULONG \<Rightarrow> ULONG \<Rightarrow> LONG" where
  "window_sum history idx windowSize =
     fold (\<lambda>i s. s + history ! history_slot idx i) [0..<unat windowSize] 0"

text \<open>In \<open>sumX / windowSize\<close> the left operand is a \<open>LONG\<close> and the right one a
  \<open>ULONG\<close>: C converts both to \<open>unsigned long\<close> and divides there, which is the division
  of words; the quotient is then stored in a \<open>LONG\<close>.\<close>

definition ApplyMovingAverage ::
  "FILTER_EXTENSION \<Rightarrow> CHAR_t \<Rightarrow> CHAR_t \<Rightarrow> FILTER_EXTENSION \<times> CHAR_t \<times> CHAR_t" where
  "ApplyMovingAverage FilterExt x y =
    (let windowSize = 3 + sdiv_LONG (FilteringStrength FilterExt * 7) 100;
         windowSize = min_ULONG windowSize (of_nat HISTORY_SIZE);
         sumX = window_sum (XHistory FilterExt) (HistoryIndex FilterExt) windowSize;
         sumY = window_sum (YHistory FilterExt) (HistoryIndex FilterExt) windowSize;
         avgX = sumX div windowSize;
         avgY = sumY div windowSize;
         avgX = max_LONG (- 128) (min_LONG 127 avgX);
         avgY = max_LONG (- 128) (min_LONG 127 avgY)
     in (FilterExt\<lparr>LastXOutput := avgX, LastYOutput := avgY\<rparr>,
         CHAR_of_LONG avgX, CHAR_of_LONG avgY))"

definition ApplyAdaptiveFiltering ::
  "'f FLOAT_ops \<Rightarrow> FILTER_EXTENSION \<Rightarrow> CHAR_t \<Rightarrow> CHAR_t \<Rightarrow> FILTER_EXTENSION \<times> CHAR_t \<times> CHAR_t" where
  "ApplyAdaptiveFiltering fl FilterExt x y =
    (let dX = abs_LONG (LONG_of_CHAR x);
         dY = abs_LONG (LONG_of_CHAR y);
         velocity = dX + dY;
         baseAlpha = FLOAT_div fl (FLOAT_of_LONG fl (ResponseSpeed FilterExt))
                       (FLOAT_literal fl 100);
         velocityFactor = min_FLOAT fl (FLOAT_literal fl 1)
                            (FLOAT_div fl (FLOAT_of_LONG fl velocity) (FLOAT_literal fl 20));
         alpha = FLOAT_add fl baseAlpha
                   (FLOAT_mul fl (FLOAT_sub fl (FLOAT_literal fl 1) baseAlpha) velocityFactor);
         alpha = max_FLOAT fl (FLOAT_literal fl (1 / 10))
                   (min_FLOAT fl (FLOAT_literal fl (9 / 10)) alpha);
         newX = LONG_of_FLOAT fl
                  (FLOAT_add fl
                    (FLOAT_mul fl (FLOAT_of_LONG fl (LONG_of_CHAR x)) alpha)
                    (FLOAT_mul fl (FLOAT_of_LONG fl (LastXOutput FilterExt))
                       (FLOAT_sub fl (FLOAT_literal fl 1) alpha)));
         newY = LONG_of_FLOAT fl
                  (FLOAT_add fl
                    (FLOAT_mul fl (FLOAT_of_LONG fl (LONG_of_CHAR y)) alpha)
                    (FLOAT_mul fl (FLOAT_of_LONG fl (LastYOutput FilterExt))
                       (FLOAT_sub fl (FLOAT_literal fl 1) alpha)));
         newX = max_LONG (- 128) (min_LONG 127 newX);
         newY = max_LONG (- 128) (min_LONG 127 newY)
     in (FilterExt\<lparr>LastXOutput := newX, LastYOutput := newY\<rparr>,
         CHAR_of_LONG newX, CHAR_of_LONG newY))"

text \<open>The first steps of \<open>ProcessMouseInput\<close>: the zero-fill on first use (a loop over
  the ten slots), the store of the raw sample, the advance of the index.\<close>

definition zero_fill :: "LONG list \<Rightarrow> LONG list" where
  "zero_fill history = fold (\<lambda>i h. h[i := 0]) [0..<HISTORY_SIZE] history"

definition store_history :: "MOUSE_REPORT \<Rightarrow> FILTER_EXTENSION \<Rightarrow> FILTER_EXTENSION" where
  "store_history Report FilterExt =
    (let FilterExt =
           (if \<not> HistoryInitialized FilterExt
            then FilterExt\<lparr>XHistory := zero_fill (XHistory FilterExt),
                           YHistory := zero_fill (YHistory FilterExt),
                           HistoryInitialized := True\<rparr>
            else FilterExt);
         FilterExt = FilterExt\<lparr>XHistory :=
                        (XHistory FilterExt)[unat (HistoryIndex FilterExt) := LONG_of_CHAR (X Report)]\<rparr>;
         FilterExt = FilterExt\<lparr>YHistory :=
                        (YHistory FilterExt)[unat (HistoryIndex FilterExt) := LONG_of_CHAR (Y Report)]\<rparr>
     in FilterExt\<lparr>HistoryIndex := (HistoryIndex FilterExt + 1) mod of_nat HISTORY_SIZE\<rparr>)"

text \<open>The choice of the algorithm and the call, with the call recorded.\<close>

definition apply_filter ::
  "'f FLOAT_ops \<Rightarrow> FILTER_EXTENSION \<Rightarrow> CHAR_t \<Rightarrow> CHAR_t \<Rightarrow> (FILTER_EXTENSION \<times> CHAR_t \<times> CHAR_t) \<times> event list" where
  "apply_filter fl FilterExt x y =
    (if 75 <s SmoothingFactor FilterExt
     then (ApplyExponentialSmoothing fl FilterExt x y, [Call_ApplyExponentialSmoothing])
     else if 25 <s SmoothingFactor FilterExt
     then (ApplyMovingAverage FilterExt x y, [Call_ApplyMovingAverage])
     else (ApplyAdaptiveFiltering fl FilterExt x y, [Call_ApplyAdaptiveFiltering]))"

definition ProcessMouseInput ::
  "'f FLOAT_ops \<Rightarrow> MOUSE_REPORT \<Rightarrow> FILTER_EXTENSION \<Rightarrow> MOUSE_REPORT \<times> FILTER_EXTENSION \<times> event list" where
  "ProcessMouseInput fl Report FilterExt =
    (if FilterActive FilterExt = 0 then (Report, FilterExt, [])
     else
       let FilterExt = store_history Report FilterExt;
           ((FilterExt, x, y), calls) = apply_filter fl FilterExt (X Report) (Y Report);
           Report = Report\<lparr>X := x, Y := y\<rparr>;
           FilterExt = FilterExt\<lparr>LastXPosition := LONG_of_CHAR (X Report),
                                  LastYPosition := LONG_of_CHAR (Y Report)\<rparr>
       in (Report, FilterExt, calls))"

section \<open>The framework\<close>

text \<open>
  The driver calls the Windows Driver Framework and checks the status of every call.
  The framework is not part of the driver: the statuses it returns during one callback
  are inputs of the model, and the branches of the source that test them are branches
  of the model.
\<close>

record WDF_STATUSES =
  RetrieveBufferStatus :: NTSTATUS
  ForwardToIoQueueStatus :: NTSTATUS
  RetrieveNextRequestStatus :: NTSTATUS
  ForwardToIoTargetStatus :: NTSTATUS

text \<open>\<open>WdfRequestRetrieveInputBuffer\<close>: fails with \<open>STATUS_BUFFER_TOO_SMALL\<close> on a buffer
  shorter than the minimum asked for, otherwise returns the framework's status and the
  buffer.\<close>

definition WdfRequestRetrieveInputBuffer ::
  "WDF_STATUSES \<Rightarrow> WDFREQUEST \<Rightarrow> nat \<Rightarrow> NTSTATUS \<times> UCHAR list" where
  "WdfRequestRetrieveInputBuffer wdf Request MinimumRequiredSize =
    (if length (InputBuffer Request) < MinimumRequiredSize
     then (STATUS_BUFFER_TOO_SMALL, [])
     else (RetrieveBufferStatus wdf, InputBuffer Request))"

text \<open>\<open>WdfRequestRetrieveOutputBuffer\<close>, the same for the output buffer, whose length
  the request carries.\<close>

definition WdfRequestRetrieveOutputBuffer ::
  "WDF_STATUSES \<Rightarrow> WDFREQUEST \<Rightarrow> nat \<Rightarrow> NTSTATUS" where
  "WdfRequestRetrieveOutputBuffer wdf Request MinimumRequiredSize =
    (if OutputLength Request < MinimumRequiredSize
     then STATUS_BUFFER_TOO_SMALL
     else RetrieveBufferStatus wdf)"

text \<open>\<open>WdfRequestRetrieveInputMemory\<close> followed by \<open>WdfMemoryGetBuffer\<close>: an empty
  input buffer is \<open>STATUS_BUFFER_TOO_SMALL\<close>.\<close>

definition WdfRequestRetrieveInputMemory ::
  "WDF_STATUSES \<Rightarrow> WDFREQUEST \<Rightarrow> NTSTATUS \<times> UCHAR list" where
  "WdfRequestRetrieveInputMemory wdf Request =
    (if InputBuffer Request = []
     then (STATUS_BUFFER_TOO_SMALL, [])
     else (RetrieveBufferStatus wdf, InputBuffer Request))"

text \<open>\<open>WdfRequestForwardToIoTarget\<close>: on success the request, as it is now, is with the
  lower device.\<close>

definition WdfRequestForwardToIoTarget ::
  "WDF_STATUSES \<Rightarrow> WDFREQUEST \<Rightarrow> NTSTATUS \<times> event list" where
  "WdfRequestForwardToIoTarget wdf Request =
    (ForwardToIoTargetStatus wdf,
     if NT_SUCCESS (ForwardToIoTargetStatus wdf) then [SentToIoTarget Request] else [])"

text \<open>\<open>WdfRequestForwardToIoQueue\<close>: on success the request is the last of the queue.\<close>

definition WdfRequestForwardToIoQueue ::
  "WDF_STATUSES \<Rightarrow> WDFREQUEST \<Rightarrow> WDFREQUEST list \<Rightarrow> NTSTATUS \<times> WDFREQUEST list" where
  "WdfRequestForwardToIoQueue wdf Request queue =
    (ForwardToIoQueueStatus wdf,
     if NT_SUCCESS (ForwardToIoQueueStatus wdf) then queue @ [Request] else queue)"

text \<open>\<open>WdfIoQueueRetrieveNextRequest\<close>: \<open>STATUS_NO_MORE_ENTRIES\<close> on an empty queue;
  otherwise, on success, the first request leaves the queue.\<close>

definition WdfIoQueueRetrieveNextRequest ::
  "WDF_STATUSES \<Rightarrow> WDFREQUEST list \<Rightarrow> NTSTATUS \<times> WDFREQUEST option \<times> WDFREQUEST list" where
  "WdfIoQueueRetrieveNextRequest wdf queue =
    (case queue of
       [] \<Rightarrow> (STATUS_NO_MORE_ENTRIES, None, [])
     | nextRequest # rest \<Rightarrow>
         if NT_SUCCESS (RetrieveNextRequestStatus wdf)
         then (RetrieveNextRequestStatus wdf, Some nextRequest, rest)
         else (RetrieveNextRequestStatus wdf, None, queue))"

definition WdfRequestComplete :: "WDFREQUEST \<Rightarrow> NTSTATUS \<Rightarrow> event list" where
  "WdfRequestComplete Request status = [RequestCompleted Request status]"

section \<open>Control codes\<close>

definition CTL_CODE :: "ULONG \<Rightarrow> ULONG \<Rightarrow> ULONG \<Rightarrow> ULONG \<Rightarrow> ULONG" where
  "CTL_CODE DeviceType Function Method Access =
     push_bit 16 DeviceType OR push_bit 14 Access OR push_bit 2 Function OR Method"

definition FILE_DEVICE_UNKNOWN :: ULONG where "FILE_DEVICE_UNKNOWN = 0x22"
definition FILE_DEVICE_KEYBOARD :: ULONG where "FILE_DEVICE_KEYBOARD = 0x0b"
definition METHOD_BUFFERED :: ULONG where "METHOD_BUFFERED = 0"
definition METHOD_NEITHER :: ULONG where "METHOD_NEITHER = 3"
definition FILE_ANY_ACCESS :: ULONG where "FILE_ANY_ACCESS = 0"
definition FILE_READ_ACCESS :: ULONG where "FILE_READ_ACCESS = 1"
definition FILE_WRITE_ACCESS :: ULONG where "FILE_WRITE_ACCESS = 2"

definition IOCTL_HIDFILTER_SET_ACTIVE :: ULONG where
  "IOCTL_HIDFILTER_SET_ACTIVE = CTL_CODE FILE_DEVICE_UNKNOWN 0x800 METHOD_BUFFERED FILE_WRITE_ACCESS"

definition IOCTL_HIDFILTER_SET_SMOOTHING :: ULONG where
  "IOCTL_HIDFILTER_SET_SMOOTHING = CTL_CODE FILE_DEVICE_UNKNOWN 0x801 METHOD_BUFFERED FILE_WRITE_ACCESS"

definition IOCTL_HIDFILTER_SET_RESPONSE :: ULONG where
  "IOCTL_HIDFILTER_SET_RESPONSE = CTL_CODE FILE_DEVICE_UNKNOWN 0x802 METHOD_BUFFERED FILE_WRITE_ACCESS"

definition IOCTL_HIDFILTER_SET_FILTERING :: ULONG where
  "IOCTL_HIDFILTER_SET_FILTERING = CTL_CODE FILE_DEVICE_UNKNOWN 0x803 METHOD_BUFFERED FILE_WRITE_ACCESS"

definition IOCTL_HIDFILTER_GET_PARAMETERS :: ULONG where
  "IOCTL_HIDFILTER_GET_PARAMETERS = CTL_CODE FILE_DEVICE_UNKNOWN 0x804 METHOD_BUFFERED FILE_READ_ACCESS"

text \<open>The two codes of the HID class driver, \<open>HID_CTL_CODE(2)\<close> and \<open>HID_CTL_CODE(3)\<close>.\<close>

definition IOCTL_HID_READ_REPORT :: ULONG where
  "IOCTL_HID_READ_REPORT = CTL_CODE FILE_DEVICE_KEYBOARD 2 METHOD_NEITHER FILE_ANY_ACCESS"

definition IOCTL_HID_WRITE_REPORT :: ULONG where
  "IOCTL_HID_WRITE_REPORT = CTL_CODE FILE_DEVICE_KEYBOARD 3 METHOD_NEITHER FILE_ANY_ACCESS"

section \<open>Device add\<close>

text \<open>The framework hands out the context zero-filled; \<open>HidFilterDriverDeviceAdd\<close>, when it
  succeeds, sets the defaults and creates the two queues, both empty.\<close>

definition zeroed_context :: FILTER_EXTENSION where
  "zeroed_context =
    \<lparr>PendingQueue = [], FilterActive = 0, SmoothingFactor = 0, ResponseSpeed = 0,
     FilteringStrength = 0, LastXPosition = 0, LastYPosition = 0, LastXOutput = 0,
     LastYOutput = 0, XHistory = replicate HISTORY_SIZE 0, YHistory = replicate HISTORY_SIZE 0,
     HistoryIndex = 0, HistoryInitialized = False\<rparr>"

definition HidFilterDriverDeviceAdd :: "FILTER_EXTENSION \<Rightarrow> FILTER_EXTENSION" where
  "HidFilterDriverDeviceAdd filterExt =
    filterExt\<lparr>FilterActive := 0, SmoothingFactor := 50, ResponseSpeed := 50,
              FilteringStrength := 50, HistoryInitialized := False, HistoryIndex := 0,
              PendingQueue := []\<rparr>"

section \<open>The control-surface handler\<close>

definition sizeof_BOOLEAN :: nat where
  "sizeof_BOOLEAN = 1"

definition sizeof_LONG :: nat where
  "sizeof_LONG = 4"

text \<open>\<open>*((PLONG)inputBuffer)\<close>: the four first bytes, the low byte first.\<close>

definition read_LONG :: "UCHAR list \<Rightarrow> LONG" where
  "read_LONG buf =
     ucast (buf ! 0) OR push_bit 8 (ucast (buf ! 1)) OR
     push_bit 16 (ucast (buf ! 2)) OR push_bit 24 (ucast (buf ! 3))"

text \<open>The three branches that set a tunable are the same code up to the field they
  assign: the length check, the retrieval of the buffer, the range check.  The result is
  the status of the request and the value to store, if any.\<close>

definition retrieve_tunable :: "WDF_STATUSES \<Rightarrow> WDFREQUEST \<Rightarrow> nat \<Rightarrow> NTSTATUS \<times> LONG option" where
  "retrieve_tunable wdf Request InputBufferLength =
    (if InputBufferLength < sizeof_LONG then (STATUS_BUFFER_TOO_SMALL, None)
     else
       let (status, inputBuffer) = WdfRequestRetrieveInputBuffer wdf Request sizeof_LONG
       in if NT_SUCCESS status
          then let value = read_LONG inputBuffer
               in if 0 \<le>s value \<and> value \<le>s 100 then (status, Some value)
                  else (STATUS_INVALID_PARAMETER, None)
          else (status, None))"

text \<open>The pattern the source repeats after each \<open>WdfRequestForwardToIoTarget\<close>: a request
  the lower device did not take is completed with the failing status.\<close>

definition forward_to_target :: "WDF_STATUSES \<Rightarrow> WDFREQUEST \<Rightarrow> event list" where
  "forward_to_target wdf Request =
    (let (status, sent) = WdfRequestForwardToIoTarget wdf Request
     in sent @ (if \<not> NT_SUCCESS status then WdfRequestComplete Request status else []))"

definition HidFilterDriverIoDeviceControl ::
  "WDF_STATUSES \<Rightarrow> FILTER_EXTENSION \<Rightarrow> WDFREQUEST \<Rightarrow> nat \<Rightarrow> nat \<Rightarrow> ULONG
     \<Rightarrow> FILTER_EXTENSION \<times> event list" where
  "HidFilterDriverIoDeviceControl wdf filterExt Request OutputBufferLength InputBufferLength
       IoControlCode =
    (if IoControlCode = IOCTL_HIDFILTER_SET_ACTIVE then
       if InputBufferLength < sizeof_BOOLEAN
       then (filterExt, WdfRequestComplete Request STATUS_BUFFER_TOO_SMALL)
       else
         let (status, inputBuffer) = WdfRequestRetrieveInputBuffer wdf Request sizeof_BOOLEAN
         in (if NT_SUCCESS status then filterExt\<lparr>FilterActive := inputBuffer ! 0\<rparr> else filterExt,
             WdfRequestComplete Request status)
     else if IoControlCode = IOCTL_HIDFILTER_SET_SMOOTHING then
       let (status, stored) = retrieve_tunable wdf Request InputBufferLength
       in (case stored of None \<Rightarrow> filterExt
                        | Some value \<Rightarrow> filterExt\<lparr>SmoothingFactor := value\<rparr>,
           WdfRequestComplete Request status)
     else if IoControlCode = IOCTL_HIDFILTER_SET_RESPONSE then
       let (status, stored) = retrieve_tunable wdf Request InputBufferLength
       in (case stored of None \<Rightarrow> filterExt
                        | Some value \<Rightarrow> filterExt\<lparr>ResponseSpeed := value\<rparr>,
           WdfRequestComplete Request status)
     else if IoControlCode = IOCTL_HIDFILTER_SET_FILTERING then
       let (status, stored) = retrieve_tunable wdf Request InputBufferLength
       in (case stored of None \<Rightarrow> filterExt
                        | Some value \<Rightarrow> filterExt\<lparr>FilteringStrength := value\<rparr>,
           WdfRequestComplete Request status)
     else if IoControlCode = IOCTL_HIDFILTER_GET_PARAMETERS then
       if OutputBufferLength < sizeof_HIDFILTER_PARAMETERS
       then (filterExt, WdfRequestComplete Request STATUS_BUFFER_TOO_SMALL)
       else
         let status = WdfRequestRetrieveOutputBuffer wdf Request sizeof_HIDFILTER_PARAMETERS;
             Request =
               (if NT_SUCCESS status
                then Request\<lparr>OutputBuffer :=
                               Some \<lparr>FilterActive_out = FilterActive filterExt,
                                     SmoothingFactor_out = SmoothingFactor filterExt,
                                     ResponseSpeed_out = ResponseSpeed filterExt,
                                     FilteringStrength_out = FilteringStrength filterExt\<rparr>,
                             Information := sizeof_HIDFILTER_PARAMETERS\<rparr>
                else Request)
         in (filterExt, WdfRequestComplete Request status)
     else
       let (status, queue) = WdfRequestForwardToIoQueue wdf Request (PendingQueue filterExt);
           filterExt = filterExt\<lparr>PendingQueue := queue\<rparr>
       in if NT_SUCCESS status
          then
            let (status, nextRequest, queue) =
                  WdfIoQueueRetrieveNextRequest wdf (PendingQueue filterExt);
                filterExt = filterExt\<lparr>PendingQueue := queue\<rparr>
            in if NT_SUCCESS status
               then (case nextRequest of
                       None \<Rightarrow> (filterExt, [])
                     | Some nextRequest \<Rightarrow> (filterExt, forward_to_target wdf nextRequest))
               else (filterExt, [])
          else (filterExt, WdfRequestComplete Request status))"

section \<open>The report-path handler\<close>

text \<open>The cast of the buffer to \<open>PMOUSE_REPORT\<close>, and the buffer after the engine has
  written through that pointer.\<close>

definition report_of_buffer :: "UCHAR list \<Rightarrow> MOUSE_REPORT" where
  "report_of_buffer buffer =
     \<lparr>Buttons = buffer ! 0, X = buffer ! 1, Y = buffer ! 2, Wheel = buffer ! 3\<rparr>"

definition buffer_with_report :: "MOUSE_REPORT \<Rightarrow> UCHAR list \<Rightarrow> UCHAR list" where
  "buffer_with_report report buffer =
     [Buttons report, X report, Y report, Wheel report] @ drop sizeof_MOUSE_REPORT buffer"

definition HidFilterDriverIoInternalDeviceControl ::
  "'f FLOAT_ops \<Rightarrow> WDF_STATUSES \<Rightarrow> FILTER_EXTENSION \<Rightarrow> WDFREQUEST \<Rightarrow> ULONG
     \<Rightarrow> FILTER_EXTENSION \<times> event list" where
  "HidFilterDriverIoInternalDeviceControl fl wdf filterExt Request IoControlCode =
    (if IoControlCode = IOCTL_HID_READ_REPORT
     then (filterExt, forward_to_target wdf Request)
     else
       let (Request, filterExt, calls) =
             (if IoControlCode = IOCTL_HID_WRITE_REPORT \<and> FilterActive filterExt \<noteq> 0
              then
                let (status, buffer) = WdfRequestRetrieveInputMemory wdf Request
                in if NT_SUCCESS status \<and> sizeof_MOUSE_REPORT \<le> length buffer
                   then
                     let (report, filterExt, calls) =
                           ProcessMouseInput fl (report_of_buffer buffer) filterExt
                     in (Request\<lparr>InputBuffer := buffer_with_report report buffer\<rparr>,
                         filterExt, Call_ProcessMouseInput # calls)
                   else (Request, filterExt, [])
              else (Request, filterExt, []))
       in (filterExt, calls @ forward_to_target wdf Request))"

definition HidFilterQueueDefault ::
  "WDF_STATUSES \<Rightarrow> FILTER_EXTENSION \<Rightarrow> WDFREQUEST \<Rightarrow> FILTER_EXTENSION \<times> event list" where
  "HidFilterQueueDefault wdf filterExt Request = (filterExt, forward_to_target wdf Request)"

section \<open>Runs of the driver\<close>

text \<open>The default queue is sequential: the framework delivers one request at a time, with
  the lengths of the request's own buffers.  A run starts from the context that
  \<open>HidFilterDriverDeviceAdd\<close> leaves.\<close>

datatype delivery =
    DeviceControl WDF_STATUSES WDFREQUEST ULONG
  | InternalDeviceControl WDF_STATUSES WDFREQUEST ULONG
  | Other WDF_STATUSES WDFREQUEST

fun deliver :: "'f FLOAT_ops \<Rightarrow> FILTER_EXTENSION \<Rightarrow> delivery \<Rightarrow> FILTER_EXTENSION \<times> event list" where
  "deliver fl filterExt (DeviceControl wdf Request IoControlCode) =
     HidFilterDriverIoDeviceControl wdf filterExt Request (OutputLength Request)
       (length (InputBuffer Request)) IoControlCode"
| "deliver fl filterExt (InternalDeviceControl wdf Request IoControlCode) =
     HidFilterDriverIoInternalDeviceControl fl wdf filterExt Request IoControlCode"
| "deliver fl filterExt (Other wdf Request) = HidFilterQueueDefault wdf filterExt Request"

fun run :: "'f FLOAT_ops \<Rightarrow> FILTER_EXTENSION \<Rightarrow> delivery list \<Rightarrow> FILTER_EXTENSION \<times> event list" where
  "run fl filterExt [] = (filterExt, [])"
| "run fl filterExt (d # ds) =
     (let (filterExt, events) = deliver fl filterExt d;
          (filterExt, more) = run fl filterExt ds
      in (filterExt, events @ more))"

section \<open>Notions of the specification\<close>

text \<open>The three algorithms, and the selection rule in the words of the specification:
  above 75 Exponential, above 25 and at most 75 Windowed average, at most 25 Adaptive.\<close>

datatype algorithm = Exponential | Windowed_average | Adaptive

definition selected :: "int \<Rightarrow> algorithm" where
  "selected smoothingFactor =
    (if smoothingFactor > 75 then Exponential
     else if 25 < smoothingFactor \<and> smoothingFactor \<le> 75 then Windowed_average
     else Adaptive)"

fun call_of :: "algorithm \<Rightarrow> event" where
  "call_of Exponential = Call_ApplyExponentialSmoothing"
| "call_of Windowed_average = Call_ApplyMovingAverage"
| "call_of Adaptive = Call_ApplyAdaptiveFiltering"

fun run_algorithm ::
  "'f FLOAT_ops \<Rightarrow> algorithm \<Rightarrow> FILTER_EXTENSION \<Rightarrow> CHAR_t \<Rightarrow> CHAR_t
     \<Rightarrow> FILTER_EXTENSION \<times> CHAR_t \<times> CHAR_t" where
  "run_algorithm fl Exponential FilterExt x y = ApplyExponentialSmoothing fl FilterExt x y"
| "run_algorithm fl Windowed_average FilterExt x y = ApplyMovingAverage FilterExt x y"
| "run_algorithm fl Adaptive FilterExt x y = ApplyAdaptiveFiltering fl FilterExt x y"

text \<open>The tunable that a Set operation writes; the same field of the context with a new
  value; the same field in the answer of Get-Parameters.\<close>

definition tunable :: "ULONG \<Rightarrow> FILTER_EXTENSION \<Rightarrow> LONG" where
  "tunable IoControlCode filterExt =
    (if IoControlCode = IOCTL_HIDFILTER_SET_SMOOTHING then SmoothingFactor filterExt
     else if IoControlCode = IOCTL_HIDFILTER_SET_RESPONSE then ResponseSpeed filterExt
     else FilteringStrength filterExt)"

definition with_tunable :: "ULONG \<Rightarrow> LONG \<Rightarrow> FILTER_EXTENSION \<Rightarrow> FILTER_EXTENSION" where
  "with_tunable IoControlCode value filterExt =
    (if IoControlCode = IOCTL_HIDFILTER_SET_SMOOTHING then filterExt\<lparr>SmoothingFactor := value\<rparr>
     else if IoControlCode = IOCTL_HIDFILTER_SET_RESPONSE then filterExt\<lparr>ResponseSpeed := value\<rparr>
     else filterExt\<lparr>FilteringStrength := value\<rparr>)"

definition reported_tunable :: "ULONG \<Rightarrow> HIDFILTER_PARAMETERS \<Rightarrow> LONG" where
  "reported_tunable IoControlCode params =
    (if IoControlCode = IOCTL_HIDFILTER_SET_SMOOTHING then SmoothingFactor_out params
     else if IoControlCode = IOCTL_HIDFILTER_SET_RESPONSE then ResponseSpeed_out params
     else FilteringStrength_out params)"

definition in_range :: "LONG \<Rightarrow> bool" where
  "in_range value = (0 \<le> sint value \<and> sint value \<le> 100)"

text \<open>Get-Parameters as its caller sees it: what the handler has written to the output
  buffer of the request it completed with success.\<close>

definition Get_Parameters ::
  "WDF_STATUSES \<Rightarrow> FILTER_EXTENSION \<Rightarrow> WDFREQUEST \<Rightarrow> HIDFILTER_PARAMETERS option" where
  "Get_Parameters wdf filterExt Request =
    (case snd (HidFilterDriverIoDeviceControl wdf filterExt Request (OutputLength Request)
                 (length (InputBuffer Request)) IOCTL_HIDFILTER_GET_PARAMETERS) of
       [RequestCompleted Request' status] \<Rightarrow>
          if NT_SUCCESS status then OutputBuffer Request' else None
     | _ \<Rightarrow> None)"

text \<open>The history ring is well formed: ten slots per axis and an index below ten.\<close>

definition ring_ok :: "FILTER_EXTENSION \<Rightarrow> bool" where
  "ring_ok filterExt =
    (length (XHistory filterExt) = HISTORY_SIZE \<and> length (YHistory filterExt) = HISTORY_SIZE \<and>
     unat (HistoryIndex filterExt) < HISTORY_SIZE)"

text \<open>The invariant of the context: a well-formed ring and tunables within 0 and 100.\<close>

definition extension_ok :: "FILTER_EXTENSION \<Rightarrow> bool" where
  "extension_ok filterExt =
    (ring_ok filterExt \<and> in_range (SmoothingFactor filterExt) \<and>
     in_range (ResponseSpeed filterExt) \<and> in_range (FilteringStrength filterExt))"

text \<open>A sequence of reports through the filter engine, one after the other.\<close>

fun process_reports ::
  "'f FLOAT_ops \<Rightarrow> FILTER_EXTENSION \<Rightarrow> MOUSE_REPORT list \<Rightarrow> FILTER_EXTENSION" where
  "process_reports fl FilterExt [] = FilterExt"
| "process_reports fl FilterExt (Report # Reports) =
     process_reports fl (fst (snd (ProcessMouseInput fl Report FilterExt))) Reports"

text \<open>The formulas of the specification for the Exponential and the Adaptive algorithm,
  in exact arithmetic, on the integers that a report and the context hold: \<open>clamp\<close>, the
  two alphas, and the blend \<open>alpha \<sqdot> input + (1 - alpha) \<sqdot> lastOutput\<close>, rounded toward
  zero and clamped to \<open>- 128\<close> .. 127.\<close>

definition clamp :: "'a::linorder \<Rightarrow> 'a \<Rightarrow> 'a \<Rightarrow> 'a" where
  "clamp x lo hi = max lo (min hi x)"

definition exponential_alpha :: "int \<Rightarrow> rat" where
  "exponential_alpha smoothingFactor = clamp (of_int (100 - smoothingFactor) / 100) (1 / 100) 1"

definition adaptive_alpha :: "int \<Rightarrow> int \<Rightarrow> int \<Rightarrow> rat" where
  "adaptive_alpha responseSpeed rawX rawY =
    (let velocity = \<bar>rawX\<bar> + \<bar>rawY\<bar>;
         velocityFactor = clamp (of_int velocity / 20) 0 1;
         baseAlpha = of_int responseSpeed / 100
     in clamp (baseAlpha + (1 - baseAlpha) * velocityFactor) (1 / 10) (9 / 10))"

definition blend_value :: "rat \<Rightarrow> int \<Rightarrow> int \<Rightarrow> rat" where
  "blend_value alpha input lastOutput = alpha * of_int input + (1 - alpha) * of_int lastOutput"

definition blend :: "rat \<Rightarrow> int \<Rightarrow> int \<Rightarrow> int" where
  "blend alpha input lastOutput = clamp (toward_zero (blend_value alpha input lastOutput)) (- 128) 127"

text \<open>The same formulas in single precision: each literal and each operation is rounded,
  in the order in which \<open>ApplyExponentialSmoothing\<close> and \<open>ApplyAdaptiveFiltering\<close>
  compute them (\<open>*X * alpha + LastXOutput * (1.0f - alpha)\<close>).  The velocity is not
  negative, so the lower clamp of the velocity factor, which the source does not have,
  changes nothing.  That the code computes these values is proved below, from the model of
  the code.\<close>

definition single_exponential_alpha :: "int \<Rightarrow> rat" where
  "single_exponential_alpha smoothingFactor =
     clamp (binary32_round (of_int (100 - smoothingFactor) / 100)) (binary32_round (1 / 100)) 1"

definition single_adaptive_alpha :: "int \<Rightarrow> int \<Rightarrow> int \<Rightarrow> rat" where
  "single_adaptive_alpha responseSpeed rawX rawY =
    (let velocity = \<bar>rawX\<bar> + \<bar>rawY\<bar>;
         velocityFactor = clamp (binary32_round (of_int velocity / 20)) 0 1;
         baseAlpha = binary32_round (of_int responseSpeed / 100)
     in clamp (binary32_round
                 (baseAlpha + binary32_round (binary32_round (1 - baseAlpha) * velocityFactor)))
          (binary32_round (1 / 10)) (binary32_round (9 / 10)))"

definition single_blend_value :: "rat \<Rightarrow> int \<Rightarrow> int \<Rightarrow> rat" where
  "single_blend_value alpha input lastOutput =
     binary32_round
       (binary32_round (of_int input * alpha) +
        binary32_round (of_int lastOutput * binary32_round (1 - alpha)))"

definition single_blend :: "rat \<Rightarrow> int \<Rightarrow> int \<Rightarrow> int" where
  "single_blend alpha input lastOutput =
     clamp (toward_zero (single_blend_value alpha input lastOutput)) (- 128) 127"

text \<open>The last outputs are within the range of an axis of a report.\<close>

definition outputs_ok :: "FILTER_EXTENSION \<Rightarrow> bool" where
  "outputs_ok filterExt =
    (- 128 \<le> sint (LastXOutput filterExt) \<and> sint (LastXOutput filterExt) \<le> 127 \<and>
     - 128 \<le> sint (LastYOutput filterExt) \<and> sint (LastYOutput filterExt) \<le> 127)"

section \<open>Concrete inputs\<close>

text \<open>An instance of the arithmetic to run the model on concrete inputs: the rationals,
  with no rounding.  No theorem below depends on it; single precision differs from it
  by the rounding of each operation.\<close>

definition exact_arithmetic :: "rat FLOAT_ops" where
  "exact_arithmetic =
    \<lparr>FLOAT_of_LONG = (\<lambda>n. of_int (sint n)),
     LONG_of_FLOAT = (\<lambda>q. word_of_int (if 0 \<le> q then \<lfloor>q\<rfloor> else \<lceil>q\<rceil>)),
     FLOAT_literal = (\<lambda>q. q),
     FLOAT_add = (+), FLOAT_sub = (-), FLOAT_mul = (*), FLOAT_div = (/),
     FLOAT_less = (<)\<rparr>"

definition all_succeed :: WDF_STATUSES where
  "all_succeed =
    \<lparr>RetrieveBufferStatus = STATUS_SUCCESS, ForwardToIoQueueStatus = STATUS_SUCCESS,
     RetrieveNextRequestStatus = STATUS_SUCCESS, ForwardToIoTargetStatus = STATUS_SUCCESS\<rparr>"

definition request_with :: "nat \<Rightarrow> UCHAR list \<Rightarrow> WDFREQUEST" where
  "request_with h buffer =
    \<lparr>Handle = h, InputBuffer = buffer, OutputLength = sizeof_HIDFILTER_PARAMETERS,
     OutputBuffer = None, Information = 0\<rparr>"

definition added_device :: FILTER_EXTENSION where
  "added_device = HidFilterDriverDeviceAdd zeroed_context"

definition active_device :: FILTER_EXTENSION where
  "active_device = added_device\<lparr>FilterActive := 1\<rparr>"

text \<open>A report that moves by \<open>x\<close> and \<open>- x\<close>.\<close>

definition sample :: "CHAR_t \<Rightarrow> MOUSE_REPORT" where
  "sample x = \<lparr>Buttons = 0, X = x, Y = - x, Wheel = 0\<rparr>"

text \<open>A control code the driver does not know, and a framework whose
  \<open>WdfIoQueueRetrieveNextRequest\<close> fails with \<open>STATUS_INVALID_DEVICE_STATE\<close>.\<close>

definition unrecognized_code :: ULONG where
  "unrecognized_code = CTL_CODE FILE_DEVICE_UNKNOWN 0x805 METHOD_BUFFERED FILE_WRITE_ACCESS"

definition STATUS_INVALID_DEVICE_STATE :: NTSTATUS where
  "STATUS_INVALID_DEVICE_STATE = 0xC0000184"

definition retrieval_fails :: WDF_STATUSES where
  "retrieval_fails = all_succeed\<lparr>RetrieveNextRequestStatus := STATUS_INVALID_DEVICE_STATE\<rparr>"

text \<open>A report that moves by \<open>x\<close> and \<open>y\<close>; a device with the filter on and
  \<open>SmoothingFactor\<close> 90, which selects the Exponential algorithm; devices with
  \<open>SmoothingFactor\<close> 10, which selects the Adaptive algorithm, with the default
  \<open>ResponseSpeed\<close> 50 and with \<open>ResponseSpeed\<close> 100.\<close>

definition move :: "CHAR_t \<Rightarrow> CHAR_t \<Rightarrow> MOUSE_REPORT" where
  "move x y = \<lparr>Buttons = 0, X = x, Y = y, Wheel = 0\<rparr>"

definition exponential_device :: FILTER_EXTENSION where
  "exponential_device = active_device\<lparr>SmoothingFactor := 90\<rparr>"

definition adaptive_device :: FILTER_EXTENSION where
  "adaptive_device = active_device\<lparr>SmoothingFactor := 10\<rparr>"

definition fastest_adaptive_device :: FILTER_EXTENSION where
  "fastest_adaptive_device = active_device\<lparr>SmoothingFactor := 10, ResponseSpeed := 100\<rparr>"

section \<open>Constants and the framework\<close>

lemma control_codes:
  "IOCTL_HIDFILTER_SET_ACTIVE = 0x22A000"
  "IOCTL_HIDFILTER_SET_SMOOTHING = 0x22A004"
  "IOCTL_HIDFILTER_SET_RESPONSE = 0x22A008"
  "IOCTL_HIDFILTER_SET_FILTERING = 0x22A00C"
  "IOCTL_HIDFILTER_GET_PARAMETERS = 0x226010"
  "IOCTL_HID_READ_REPORT = 0xB000B"
  "IOCTL_HID_WRITE_REPORT = 0xB000F"
  by (simp_all add: IOCTL_HIDFILTER_SET_ACTIVE_def IOCTL_HIDFILTER_SET_SMOOTHING_def
      IOCTL_HIDFILTER_SET_RESPONSE_def IOCTL_HIDFILTER_SET_FILTERING_def
      IOCTL_HIDFILTER_GET_PARAMETERS_def IOCTL_HID_READ_REPORT_def IOCTL_HID_WRITE_REPORT_def
      CTL_CODE_def FILE_DEVICE_UNKNOWN_def FILE_DEVICE_KEYBOARD_def METHOD_BUFFERED_def
      METHOD_NEITHER_def FILE_ANY_ACCESS_def FILE_READ_ACCESS_def FILE_WRITE_ACCESS_def)

lemma status_success:
  "NT_SUCCESS STATUS_SUCCESS"
  "\<not> NT_SUCCESS STATUS_BUFFER_TOO_SMALL"
  "\<not> NT_SUCCESS STATUS_INVALID_PARAMETER"
  "\<not> NT_SUCCESS STATUS_NO_MORE_ENTRIES"
  by (simp_all add: NT_SUCCESS_def STATUS_SUCCESS_def STATUS_BUFFER_TOO_SMALL_def
      STATUS_INVALID_PARAMETER_def STATUS_NO_MORE_ENTRIES_def word_sle_eq)

lemma all_succeed_simps:
  "NT_SUCCESS (RetrieveBufferStatus all_succeed)"
  "NT_SUCCESS (ForwardToIoQueueStatus all_succeed)"
  "NT_SUCCESS (RetrieveNextRequestStatus all_succeed)"
  "NT_SUCCESS (ForwardToIoTargetStatus all_succeed)"
  by (simp_all add: all_succeed_def status_success)

lemma forward_to_target_eq:
  "forward_to_target wdf Request =
    (if NT_SUCCESS (ForwardToIoTargetStatus wdf) then [SentToIoTarget Request]
     else [RequestCompleted Request (ForwardToIoTargetStatus wdf)])"
  by (simp add: forward_to_target_def WdfRequestForwardToIoTarget_def WdfRequestComplete_def)

text \<open>Set-Active with the byte 1, on a device just added, gives the context called
  \<open>active_device\<close>.\<close>

lemma set_active_gives_active_device:
  "HidFilterDriverIoDeviceControl all_succeed added_device (request_with 7 [1])
      (OutputLength (request_with 7 [1])) (length (InputBuffer (request_with 7 [1])))
      IOCTL_HIDFILTER_SET_ACTIVE =
    (active_device, [RequestCompleted (request_with 7 [1]) STATUS_SUCCESS])"
  by (simp add: HidFilterDriverIoDeviceControl_def WdfRequestRetrieveInputBuffer_def
      WdfRequestComplete_def request_with_def sizeof_BOOLEAN_def all_succeed_def status_success
      active_device_def)

section \<open>Pass-through of write reports\<close>

text \<open>
  Claim C1.  A write-report request handled while \<open>FilterActive\<close> is false passes through
  unmodified: the context is unchanged, no function of the filter engine is called, and
  the request, with the buffer it came with, is sent to the lower device (or, when the
  lower device does not take it, completed with the status of that failure).  Were the
  engine called all the same, its own guard would return the report and the context as
  they are.
\<close>

theorem inactive_write_report_untouched:
  assumes "FilterActive filterExt = 0"
  shows "HidFilterDriverIoInternalDeviceControl fl wdf filterExt Request IOCTL_HID_WRITE_REPORT =
           (filterExt,
            if NT_SUCCESS (ForwardToIoTargetStatus wdf) then [SentToIoTarget Request]
            else [RequestCompleted Request (ForwardToIoTargetStatus wdf)])
         \<and> ProcessMouseInput fl Report filterExt = (Report, filterExt, [])"
  using assms
  by (simp add: HidFilterDriverIoInternalDeviceControl_def control_codes forward_to_target_eq
      ProcessMouseInput_def)

theorem inactive_write_report_untouched_witness:
  "FilterActive added_device = 0 \<and>
   HidFilterDriverIoInternalDeviceControl exact_arithmetic all_succeed added_device
       (request_with 1 [1, 5, 251, 0]) IOCTL_HID_WRITE_REPORT =
     (added_device, [SentToIoTarget (request_with 1 [1, 5, 251, 0])])"
proof -
  have inactive: "FilterActive added_device = 0"
    by (simp add: added_device_def HidFilterDriverDeviceAdd_def)
  from inactive_write_report_untouched [OF inactive, of exact_arithmetic all_succeed
      "request_with 1 [1, 5, 251, 0]"]
  show ?thesis using inactive by (simp add: all_succeed_simps)
qed

text \<open>
  Claim C8.  With \<open>FilterActive\<close> true, a write-report request whose input buffer is
  shorter than a \<open>MOUSE_REPORT\<close> (four bytes) is not filtered: the context is unchanged,
  the engine is not called, the request is sent to the lower device with its buffer as it
  came, and the handler completes it with no status of its own; the one status the caller
  can see is that of a lower device that did not take the request.
\<close>

theorem short_write_report_forwarded_unfiltered:
  assumes "FilterActive filterExt \<noteq> 0"
    and "length (InputBuffer Request) < sizeof_MOUSE_REPORT"
  shows "HidFilterDriverIoInternalDeviceControl fl wdf filterExt Request IOCTL_HID_WRITE_REPORT =
           (filterExt,
            if NT_SUCCESS (ForwardToIoTargetStatus wdf) then [SentToIoTarget Request]
            else [RequestCompleted Request (ForwardToIoTargetStatus wdf)])"
  using assms
  by (simp add: HidFilterDriverIoInternalDeviceControl_def control_codes forward_to_target_eq
      WdfRequestRetrieveInputMemory_def status_success)

theorem short_write_report_forwarded_unfiltered_witness:
  "FilterActive active_device \<noteq> 0 \<and>
   length (InputBuffer (request_with 1 [1, 5, 251])) < sizeof_MOUSE_REPORT \<and>
   HidFilterDriverIoInternalDeviceControl exact_arithmetic all_succeed active_device
       (request_with 1 [1, 5, 251]) IOCTL_HID_WRITE_REPORT =
     (active_device, [SentToIoTarget (request_with 1 [1, 5, 251])])"
proof -
  have active: "FilterActive active_device \<noteq> 0"
    by (simp add: active_device_def)
  have short: "length (InputBuffer (request_with 1 [1, 5, 251])) < sizeof_MOUSE_REPORT"
    by (simp add: request_with_def sizeof_MOUSE_REPORT_def)
  from short_write_report_forwarded_unfiltered [OF active short, of exact_arithmetic all_succeed]
  show ?thesis using active short by (simp add: all_succeed_simps)
qed


section \<open>Writes of the tunables\<close>

lemma retrieve_tunable_eq:
  assumes "sizeof_LONG \<le> length (InputBuffer Request)" "NT_SUCCESS (RetrieveBufferStatus wdf)"
  shows "retrieve_tunable wdf Request (length (InputBuffer Request)) =
    (if in_range (read_LONG (InputBuffer Request))
     then (RetrieveBufferStatus wdf, Some (read_LONG (InputBuffer Request)))
     else (STATUS_INVALID_PARAMETER, None))"
  using assms
  by (simp add: retrieve_tunable_def WdfRequestRetrieveInputBuffer_def word_sle_eq Let_def
      in_range_def)

lemma Get_Parameters_eq:
  assumes "sizeof_HIDFILTER_PARAMETERS \<le> OutputLength Request"
    and "NT_SUCCESS (RetrieveBufferStatus wdf)"
  shows "Get_Parameters wdf filterExt Request =
     Some \<lparr>FilterActive_out = FilterActive filterExt,
           SmoothingFactor_out = SmoothingFactor filterExt,
           ResponseSpeed_out = ResponseSpeed filterExt,
           FilteringStrength_out = FilteringStrength filterExt\<rparr>"
  using assms
  by (simp add: Get_Parameters_def HidFilterDriverIoDeviceControl_def control_codes
       WdfRequestRetrieveOutputBuffer_def WdfRequestComplete_def)

lemma set_tunable_eq:
  assumes code: "IoControlCode \<in> {IOCTL_HIDFILTER_SET_SMOOTHING, IOCTL_HIDFILTER_SET_RESPONSE,
                     IOCTL_HIDFILTER_SET_FILTERING}"
    and len: "sizeof_LONG \<le> length (InputBuffer Request)"
    and ok: "NT_SUCCESS (RetrieveBufferStatus wdf)"
  shows "HidFilterDriverIoDeviceControl wdf filterExt Request (OutputLength Request)
             (length (InputBuffer Request)) IoControlCode =
           (if in_range (read_LONG (InputBuffer Request))
            then (with_tunable IoControlCode (read_LONG (InputBuffer Request)) filterExt,
                  [RequestCompleted Request (RetrieveBufferStatus wdf)])
            else (filterExt, [RequestCompleted Request STATUS_INVALID_PARAMETER]))"
  using code
  by (auto simp add: HidFilterDriverIoDeviceControl_def control_codes WdfRequestComplete_def
      with_tunable_def retrieve_tunable_eq [OF len ok])

text \<open>
  Claim C2.  For Set-Smoothing, Set-Response and Set-Filtering alike, with an input
  buffer of at least four bytes that the framework hands over, and \<open>v\<close> the \<open>LONG\<close> it
  holds: if \<open>v < 0\<close> or \<open>v > 100\<close> the request is completed with
  \<open>STATUS_INVALID_PARAMETER\<close> and the context is unchanged; otherwise the request is
  completed with success and the context differs by that tunable alone, which is \<open>v\<close>,
  and a following Get-Parameters, with a large enough output buffer, reports \<open>v\<close> for it.
\<close>

theorem tunable_write_validated:
  assumes code: "IoControlCode \<in> {IOCTL_HIDFILTER_SET_SMOOTHING, IOCTL_HIDFILTER_SET_RESPONSE,
                     IOCTL_HIDFILTER_SET_FILTERING}"
    and len: "sizeof_LONG \<le> length (InputBuffer Request)"
    and ok: "NT_SUCCESS (RetrieveBufferStatus wdf)"
    and v: "v = read_LONG (InputBuffer Request)"
    and get: "sizeof_HIDFILTER_PARAMETERS \<le> OutputLength Request2"
             "NT_SUCCESS (RetrieveBufferStatus wdf2)"
  shows "HidFilterDriverIoDeviceControl wdf filterExt Request (OutputLength Request)
             (length (InputBuffer Request)) IoControlCode =
           (if sint v < 0 \<or> 100 < sint v
            then (filterExt, [RequestCompleted Request STATUS_INVALID_PARAMETER])
            else (with_tunable IoControlCode v filterExt,
                  [RequestCompleted Request (RetrieveBufferStatus wdf)]))
         \<and> tunable IoControlCode (with_tunable IoControlCode v filterExt) = v
         \<and> map_option (reported_tunable IoControlCode)
             (Get_Parameters wdf2 (with_tunable IoControlCode v filterExt) Request2) = Some v"
proof -
  have "in_range v \<longleftrightarrow> \<not> (sint v < 0 \<or> 100 < sint v)"
    by (auto simp add: in_range_def)
  then have first: "HidFilterDriverIoDeviceControl wdf filterExt Request (OutputLength Request)
             (length (InputBuffer Request)) IoControlCode =
           (if sint v < 0 \<or> 100 < sint v
            then (filterExt, [RequestCompleted Request STATUS_INVALID_PARAMETER])
            else (with_tunable IoControlCode v filterExt,
                  [RequestCompleted Request (RetrieveBufferStatus wdf)]))"
    using set_tunable_eq [OF code len ok, of filterExt] v by simp
  have second: "tunable IoControlCode (with_tunable IoControlCode v filterExt) = v"
    by (simp add: tunable_def with_tunable_def)
  have third: "map_option (reported_tunable IoControlCode)
             (Get_Parameters wdf2 (with_tunable IoControlCode v filterExt) Request2) = Some v"
    by (simp add: Get_Parameters_eq [OF get] reported_tunable_def with_tunable_def)
  from first second third show ?thesis by blast
qed

theorem tunable_write_validated_witness:
  "HidFilterDriverIoDeviceControl all_succeed added_device (request_with 1 [75, 0, 0, 0])
       (OutputLength (request_with 1 [75, 0, 0, 0]))
       (length (InputBuffer (request_with 1 [75, 0, 0, 0]))) IOCTL_HIDFILTER_SET_SMOOTHING =
     (with_tunable IOCTL_HIDFILTER_SET_SMOOTHING 75 added_device,
      [RequestCompleted (request_with 1 [75, 0, 0, 0]) STATUS_SUCCESS]) \<and>
   map_option (reported_tunable IOCTL_HIDFILTER_SET_SMOOTHING)
     (Get_Parameters all_succeed (with_tunable IOCTL_HIDFILTER_SET_SMOOTHING 75 added_device)
        (request_with 2 [])) = Some 75 \<and>
   HidFilterDriverIoDeviceControl all_succeed added_device (request_with 3 [44, 1, 0, 0])
       (OutputLength (request_with 3 [44, 1, 0, 0]))
       (length (InputBuffer (request_with 3 [44, 1, 0, 0]))) IOCTL_HIDFILTER_SET_SMOOTHING =
     (added_device, [RequestCompleted (request_with 3 [44, 1, 0, 0]) STATUS_INVALID_PARAMETER])"
proof -
  have code: "IOCTL_HIDFILTER_SET_SMOOTHING \<in> {IOCTL_HIDFILTER_SET_SMOOTHING,
      IOCTL_HIDFILTER_SET_RESPONSE, IOCTL_HIDFILTER_SET_FILTERING}"
    by simp
  have len: "sizeof_LONG \<le> length (InputBuffer (request_with 1 [75, 0, 0, 0]))"
       "sizeof_LONG \<le> length (InputBuffer (request_with 3 [44, 1, 0, 0]))"
    by (simp_all add: request_with_def sizeof_LONG_def)
  have inside: "75 = read_LONG (InputBuffer (request_with 1 [75, 0, 0, 0]))"
    by (simp add: request_with_def read_LONG_def)
  have outside: "300 = read_LONG (InputBuffer (request_with 3 [44, 1, 0, 0]))"
    by (simp add: request_with_def read_LONG_def)
  have get: "sizeof_HIDFILTER_PARAMETERS \<le> OutputLength (request_with 2 [])"
    by (simp add: request_with_def)
  note ok = all_succeed_simps(1)
  from tunable_write_validated [OF code len(1) ok inside get ok, of added_device]
       tunable_write_validated [OF code len(2) ok outside get ok, of added_device]
  show ?thesis by (simp add: all_succeed_def)
qed


section \<open>Selection of the algorithm\<close>

lemma store_history_keeps:
  "SmoothingFactor (store_history Report FilterExt) = SmoothingFactor FilterExt"
  "ResponseSpeed (store_history Report FilterExt) = ResponseSpeed FilterExt"
  "FilteringStrength (store_history Report FilterExt) = FilteringStrength FilterExt"
  "FilterActive (store_history Report FilterExt) = FilterActive FilterExt"
  "PendingQueue (store_history Report FilterExt) = PendingQueue FilterExt"
  "LastXOutput (store_history Report FilterExt) = LastXOutput FilterExt"
  "LastYOutput (store_history Report FilterExt) = LastYOutput FilterExt"
  by (simp_all add: store_history_def Let_def)

lemma apply_filter_selected:
  "apply_filter fl FilterExt x y =
     (run_algorithm fl (selected (sint (SmoothingFactor FilterExt))) FilterExt x y,
      [call_of (selected (sint (SmoothingFactor FilterExt)))])"
  by (simp add: apply_filter_def selected_def word_sless_alt)

text \<open>
  Claim C3.  A report processed while \<open>FilterActive\<close> is true goes through exactly one
  algorithm, the one the specification's rule selects from \<open>SmoothingFactor\<close> alone
  (Exponential above 75, Windowed average above 25 and up to 75, Adaptive up to 25):
  the engine's result is that algorithm's result on the context with the sample stored,
  and the calls it makes are that single call.
\<close>

theorem one_algorithm_by_smoothing_factor:
  assumes "FilterActive FilterExt \<noteq> 0"
  shows "ProcessMouseInput fl Report FilterExt =
    (let alg = selected (sint (SmoothingFactor FilterExt));
         (FilterExt', x, y) = run_algorithm fl alg (store_history Report FilterExt)
                                (X Report) (Y Report)
     in (Report\<lparr>X := x, Y := y\<rparr>,
         FilterExt'\<lparr>LastXPosition := LONG_of_CHAR x, LastYPosition := LONG_of_CHAR y\<rparr>,
         [call_of alg]))"
  using assms
  by (simp add: ProcessMouseInput_def apply_filter_selected store_history_keeps Let_def
      split: prod.split)

theorem one_algorithm_by_smoothing_factor_witness:
  "FilterActive active_device \<noteq> 0 \<and>
   snd (snd (ProcessMouseInput exact_arithmetic \<lparr>Buttons = 0, X = 5, Y = 251, Wheel = 0\<rparr>
     active_device)) = [Call_ApplyMovingAverage] \<and>
   snd (snd (ProcessMouseInput exact_arithmetic \<lparr>Buttons = 0, X = 5, Y = 251, Wheel = 0\<rparr>
     (active_device\<lparr>SmoothingFactor := 76\<rparr>))) = [Call_ApplyExponentialSmoothing] \<and>
   snd (snd (ProcessMouseInput exact_arithmetic \<lparr>Buttons = 0, X = 5, Y = 251, Wheel = 0\<rparr>
     (active_device\<lparr>SmoothingFactor := 25\<rparr>))) = [Call_ApplyAdaptiveFiltering]"
proof -
  have active: "FilterActive active_device \<noteq> 0"
    "FilterActive (active_device\<lparr>SmoothingFactor := 76\<rparr>) \<noteq> 0"
    "FilterActive (active_device\<lparr>SmoothingFactor := 25\<rparr>) \<noteq> 0"
    by (simp_all add: active_device_def)
  have sf: "SmoothingFactor active_device = 50"
    by (simp add: active_device_def added_device_def HidFilterDriverDeviceAdd_def)
  from one_algorithm_by_smoothing_factor [OF active(1), of exact_arithmetic
         "\<lparr>Buttons = 0, X = 5, Y = 251, Wheel = 0\<rparr>"]
       one_algorithm_by_smoothing_factor [OF active(2), of exact_arithmetic
         "\<lparr>Buttons = 0, X = 5, Y = 251, Wheel = 0\<rparr>"]
       one_algorithm_by_smoothing_factor [OF active(3), of exact_arithmetic
         "\<lparr>Buttons = 0, X = 5, Y = 251, Wheel = 0\<rparr>"]
  show ?thesis using active(1)
    by (simp add: sf selected_def Let_def split: prod.split)
qed

section \<open>The bytes the filter engine writes\<close>

lemma ProcessMouseInput_frame:
  "Buttons (fst (ProcessMouseInput fl Report FilterExt)) = Buttons Report"
  "Wheel (fst (ProcessMouseInput fl Report FilterExt)) = Wheel Report"
  by (simp_all add: ProcessMouseInput_def Let_def split: prod.split)

lemma four_bytes:
  assumes "sizeof_MOUSE_REPORT \<le> length buffer"
  obtains b0 b1 b2 b3 rest where "buffer = b0 # b1 # b2 # b3 # rest"
proof -
  from assms have "Suc (Suc (Suc (Suc 0))) \<le> length buffer"
    by (simp add: sizeof_MOUSE_REPORT_def)
  then obtain b0 b1 b2 b3 rest where "buffer = b0 # b1 # b2 # b3 # rest"
    by (auto simp add: Suc_le_length_iff)
  then show thesis by (rule that)
qed

lemma buffer_with_report_eq:
  assumes "sizeof_MOUSE_REPORT \<le> length buffer"
    and "Buttons report = buffer ! 0" "Wheel report = buffer ! 3"
  shows "buffer_with_report report buffer = buffer[1 := X report, 2 := Y report]"
proof -
  from assms(1) obtain b0 b1 b2 b3 rest where "buffer = b0 # b1 # b2 # b3 # rest"
    by (rule four_bytes)
  with assms(2,3) show ?thesis
    by (simp add: buffer_with_report_def sizeof_MOUSE_REPORT_def)
qed

text \<open>
  Claim C10.  For a write report that is decoded and filtered (\<open>FilterActive\<close> true, the
  buffer retrieved, at least four bytes long), the report the engine returns has the
  \<open>Buttons\<close> and \<open>Wheel\<close> bytes of the buffer, and the request sent on is the request
  received with bytes 1 and 2 (\<open>X\<close> and \<open>Y\<close>) replaced and every other byte as it was.
\<close>

theorem filter_changes_only_X_and_Y:
  assumes active: "FilterActive filterExt \<noteq> 0"
    and retrieved: "NT_SUCCESS (RetrieveBufferStatus wdf)"
    and decoded: "sizeof_MOUSE_REPORT \<le> length (InputBuffer Request)"
  shows "(let buffer = InputBuffer Request;
              (report, filterExt', calls) = ProcessMouseInput fl (report_of_buffer buffer) filterExt
          in Buttons report = buffer ! 0 \<and> Wheel report = buffer ! 3 \<and>
             HidFilterDriverIoInternalDeviceControl fl wdf filterExt Request IOCTL_HID_WRITE_REPORT =
               (filterExt',
                Call_ProcessMouseInput # calls @
                forward_to_target wdf (Request\<lparr>InputBuffer := buffer[1 := X report, 2 := Y report]\<rparr>)))"
proof -
  obtain report filterExt' calls where
    pmi: "ProcessMouseInput fl (report_of_buffer (InputBuffer Request)) filterExt =
            (report, filterExt', calls)"
    by (cases "ProcessMouseInput fl (report_of_buffer (InputBuffer Request)) filterExt")
  have "Buttons report = Buttons (report_of_buffer (InputBuffer Request))"
    using ProcessMouseInput_frame(1) [of fl "report_of_buffer (InputBuffer Request)" filterExt]
    by (simp add: pmi)
  then have buttons: "Buttons report = InputBuffer Request ! 0"
    by (simp add: report_of_buffer_def)
  have "Wheel report = Wheel (report_of_buffer (InputBuffer Request))"
    using ProcessMouseInput_frame(2) [of fl "report_of_buffer (InputBuffer Request)" filterExt]
    by (simp add: pmi)
  then have wheel: "Wheel report = InputBuffer Request ! 3"
    by (simp add: report_of_buffer_def)
  have nonempty: "InputBuffer Request \<noteq> []"
    using decoded by (auto simp add: sizeof_MOUSE_REPORT_def)
  have "HidFilterDriverIoInternalDeviceControl fl wdf filterExt Request IOCTL_HID_WRITE_REPORT =
      (filterExt', Call_ProcessMouseInput # calls @
         forward_to_target wdf
           (Request\<lparr>InputBuffer := buffer_with_report report (InputBuffer Request)\<rparr>))"
    using active retrieved decoded nonempty
    by (simp add: HidFilterDriverIoInternalDeviceControl_def control_codes
        WdfRequestRetrieveInputMemory_def pmi)
  with buttons wheel show ?thesis
    by (simp add: pmi buffer_with_report_eq [OF decoded buttons wheel])
qed

theorem filter_changes_only_X_and_Y_witness:
  "FilterActive active_device \<noteq> 0 \<and> NT_SUCCESS (RetrieveBufferStatus all_succeed) \<and>
   sizeof_MOUSE_REPORT \<le> length (InputBuffer (request_with 7 [1, 5, 251, 2])) \<and>
   (let buffer = InputBuffer (request_with 7 [1, 5, 251, 2]);
        (report, filterExt', calls) =
           ProcessMouseInput exact_arithmetic (report_of_buffer buffer) active_device
    in Buttons report = 1 \<and> Wheel report = 2 \<and>
       HidFilterDriverIoInternalDeviceControl exact_arithmetic all_succeed active_device
           (request_with 7 [1, 5, 251, 2]) IOCTL_HID_WRITE_REPORT =
         (filterExt',
          Call_ProcessMouseInput # calls @
          forward_to_target all_succeed
            (request_with 7 [1, 5, 251, 2]\<lparr>InputBuffer := buffer[1 := X report, 2 := Y report]\<rparr>)))"
proof -
  have active: "FilterActive active_device \<noteq> 0"
    by (simp add: active_device_def)
  have decoded: "sizeof_MOUSE_REPORT \<le> length (InputBuffer (request_with 7 [1, 5, 251, 2]))"
    by (simp add: request_with_def sizeof_MOUSE_REPORT_def)
  have bytes: "InputBuffer (request_with 7 [1, 5, 251, 2]) ! 0 = 1"
    "InputBuffer (request_with 7 [1, 5, 251, 2]) ! 3 = 2"
    by (simp_all add: request_with_def)
  from filter_changes_only_X_and_Y [OF active all_succeed_simps(1) decoded, of exact_arithmetic]
  show ?thesis using active all_succeed_simps(1) decoded
    by (simp add: Let_def bytes split: prod.splits)
qed


section \<open>The history ring\<close>

lemma fold_zero:
  "n \<le> length h \<Longrightarrow> fold (\<lambda>i h. h[i := 0::LONG]) [0..<n] h = replicate n 0 @ drop n h"
proof (induction n)
  case 0
  then show ?case by simp
next
  case (Suc n)
  then have n: "n < length h" by simp
  have "(replicate n (0::LONG) @ drop n h)[n := 0] = replicate n 0 @ (drop n h)[0 := 0]"
    by (simp add: list_update_append)
  also have "(drop n h)[0 := 0] = 0 # drop (Suc n) h"
    using n by (simp add: Cons_nth_drop_Suc [symmetric])
  also have "replicate n (0::LONG) @ 0 # drop (Suc n) h = replicate (Suc n) 0 @ drop (Suc n) h"
    by (simp add: replicate_append_same)
  finally show ?case using Suc by simp
qed

lemma zero_fill_eq:
  "length h = HISTORY_SIZE \<Longrightarrow> zero_fill h = replicate HISTORY_SIZE 0"
  by (simp add: zero_fill_def fold_zero)

lemma algorithms_keep_ring:
  "XHistory (fst (run_algorithm fl alg FilterExt x y)) = XHistory FilterExt"
  "YHistory (fst (run_algorithm fl alg FilterExt x y)) = YHistory FilterExt"
  "HistoryIndex (fst (run_algorithm fl alg FilterExt x y)) = HistoryIndex FilterExt"
  "HistoryInitialized (fst (run_algorithm fl alg FilterExt x y)) = HistoryInitialized FilterExt"
  "FilterActive (fst (run_algorithm fl alg FilterExt x y)) = FilterActive FilterExt"
  "SmoothingFactor (fst (run_algorithm fl alg FilterExt x y)) = SmoothingFactor FilterExt"
  "ResponseSpeed (fst (run_algorithm fl alg FilterExt x y)) = ResponseSpeed FilterExt"
  "FilteringStrength (fst (run_algorithm fl alg FilterExt x y)) = FilteringStrength FilterExt"
  "PendingQueue (fst (run_algorithm fl alg FilterExt x y)) = PendingQueue FilterExt"
  by (cases alg; simp add: ApplyExponentialSmoothing_def ApplyMovingAverage_def
      ApplyAdaptiveFiltering_def Let_def)+

lemma index_advance:
  assumes "unat (idx :: ULONG) < HISTORY_SIZE"
  shows "unat ((idx + 1) mod of_nat HISTORY_SIZE) = (unat idx + 1) mod HISTORY_SIZE"
proof -
  from assms have "unat idx < 10" by (simp add: HISTORY_SIZE_def)
  then have "unat (idx + 1) = unat idx + 1"
    by (simp add: unat_word_ariths)
  then show ?thesis
    by (simp add: HISTORY_SIZE_def unat_mod)
qed

lemma store_history_ring:
  assumes "ring_ok FilterExt"
  shows "XHistory (store_history Report FilterExt) =
           (if HistoryInitialized FilterExt then XHistory FilterExt else replicate HISTORY_SIZE 0)
             [unat (HistoryIndex FilterExt) := LONG_of_CHAR (X Report)]"
    and "YHistory (store_history Report FilterExt) =
           (if HistoryInitialized FilterExt then YHistory FilterExt else replicate HISTORY_SIZE 0)
             [unat (HistoryIndex FilterExt) := LONG_of_CHAR (Y Report)]"
    and "unat (HistoryIndex (store_history Report FilterExt)) =
           (unat (HistoryIndex FilterExt) + 1) mod HISTORY_SIZE"
    and "HistoryInitialized (store_history Report FilterExt)"
  using assms
  by (simp_all add: store_history_def Let_def ring_ok_def zero_fill_eq index_advance)


lemma ProcessMouseInput_context:
  assumes "FilterActive FilterExt \<noteq> 0"
  shows "XHistory (fst (snd (ProcessMouseInput fl Report FilterExt))) =
           XHistory (store_history Report FilterExt)"
    and "YHistory (fst (snd (ProcessMouseInput fl Report FilterExt))) =
           YHistory (store_history Report FilterExt)"
    and "HistoryIndex (fst (snd (ProcessMouseInput fl Report FilterExt))) =
           HistoryIndex (store_history Report FilterExt)"
    and "HistoryInitialized (fst (snd (ProcessMouseInput fl Report FilterExt)))"
    and "FilterActive (fst (snd (ProcessMouseInput fl Report FilterExt))) = FilterActive FilterExt"
    and "SmoothingFactor (fst (snd (ProcessMouseInput fl Report FilterExt))) =
           SmoothingFactor FilterExt"
    and "ResponseSpeed (fst (snd (ProcessMouseInput fl Report FilterExt))) =
           ResponseSpeed FilterExt"
    and "FilteringStrength (fst (snd (ProcessMouseInput fl Report FilterExt))) =
           FilteringStrength FilterExt"
    and "PendingQueue (fst (snd (ProcessMouseInput fl Report FilterExt))) =
           PendingQueue FilterExt"
proof -
  obtain FilterExt' x y where alg:
    "run_algorithm fl (selected (sint (SmoothingFactor FilterExt)))
       (store_history Report FilterExt) (X Report) (Y Report) = (FilterExt', x, y)"
    by (metis prod_cases3)
  have pmi: "fst (snd (ProcessMouseInput fl Report FilterExt)) =
      FilterExt'\<lparr>LastXPosition := LONG_of_CHAR x, LastYPosition := LONG_of_CHAR y\<rparr>"
    using assms
    by (simp add: ProcessMouseInput_def apply_filter_selected store_history_keeps alg)
  have ext': "FilterExt' = fst (run_algorithm fl (selected (sint (SmoothingFactor FilterExt)))
       (store_history Report FilterExt) (X Report) (Y Report))"
    by (simp add: alg)
  show "XHistory (fst (snd (ProcessMouseInput fl Report FilterExt))) =
           XHistory (store_history Report FilterExt)"
    by (simp add: pmi) (simp add: ext' algorithms_keep_ring)
  show "YHistory (fst (snd (ProcessMouseInput fl Report FilterExt))) =
           YHistory (store_history Report FilterExt)"
    by (simp add: pmi) (simp add: ext' algorithms_keep_ring)
  show "HistoryIndex (fst (snd (ProcessMouseInput fl Report FilterExt))) =
           HistoryIndex (store_history Report FilterExt)"
    by (simp add: pmi) (simp add: ext' algorithms_keep_ring)
  show "HistoryInitialized (fst (snd (ProcessMouseInput fl Report FilterExt)))"
    by (simp add: pmi) (simp add: ext' algorithms_keep_ring store_history_def Let_def)
  show "FilterActive (fst (snd (ProcessMouseInput fl Report FilterExt))) = FilterActive FilterExt"
    by (simp add: pmi) (simp add: ext' algorithms_keep_ring store_history_keeps)
  show "SmoothingFactor (fst (snd (ProcessMouseInput fl Report FilterExt))) =
           SmoothingFactor FilterExt"
    by (simp add: pmi) (simp add: ext' algorithms_keep_ring store_history_keeps)
  show "ResponseSpeed (fst (snd (ProcessMouseInput fl Report FilterExt))) =
           ResponseSpeed FilterExt"
    by (simp add: pmi) (simp add: ext' algorithms_keep_ring store_history_keeps)
  show "FilteringStrength (fst (snd (ProcessMouseInput fl Report FilterExt))) =
           FilteringStrength FilterExt"
    by (simp add: pmi) (simp add: ext' algorithms_keep_ring store_history_keeps)
  show "PendingQueue (fst (snd (ProcessMouseInput fl Report FilterExt))) =
           PendingQueue FilterExt"
    by (simp add: pmi) (simp add: ext' algorithms_keep_ring store_history_keeps)
qed

text \<open>One report, seen from the ring: slot, index, flag.\<close>

lemma ProcessMouseInput_ring:
  assumes "FilterActive FilterExt \<noteq> 0" "ring_ok FilterExt"
  shows "XHistory (fst (snd (ProcessMouseInput fl Report FilterExt))) =
           (if HistoryInitialized FilterExt then XHistory FilterExt else replicate HISTORY_SIZE 0)
             [unat (HistoryIndex FilterExt) := LONG_of_CHAR (X Report)]"
    and "YHistory (fst (snd (ProcessMouseInput fl Report FilterExt))) =
           (if HistoryInitialized FilterExt then YHistory FilterExt else replicate HISTORY_SIZE 0)
             [unat (HistoryIndex FilterExt) := LONG_of_CHAR (Y Report)]"
    and "unat (HistoryIndex (fst (snd (ProcessMouseInput fl Report FilterExt)))) =
           (unat (HistoryIndex FilterExt) + 1) mod HISTORY_SIZE"
    and "ring_ok (fst (snd (ProcessMouseInput fl Report FilterExt)))"
proof -
  note ctx = ProcessMouseInput_context [OF assms(1), of fl Report]
  note ring = store_history_ring [OF assms(2), of Report]
  show x: "XHistory (fst (snd (ProcessMouseInput fl Report FilterExt))) =
           (if HistoryInitialized FilterExt then XHistory FilterExt else replicate HISTORY_SIZE 0)
             [unat (HistoryIndex FilterExt) := LONG_of_CHAR (X Report)]"
    by (simp only: ctx(1) ring(1))
  show y: "YHistory (fst (snd (ProcessMouseInput fl Report FilterExt))) =
           (if HistoryInitialized FilterExt then YHistory FilterExt else replicate HISTORY_SIZE 0)
             [unat (HistoryIndex FilterExt) := LONG_of_CHAR (Y Report)]"
    by (simp only: ctx(2) ring(2))
  show i: "unat (HistoryIndex (fst (snd (ProcessMouseInput fl Report FilterExt)))) =
           (unat (HistoryIndex FilterExt) + 1) mod HISTORY_SIZE"
    by (simp only: ctx(3) ring(3))
  from assms(2) show "ring_ok (fst (snd (ProcessMouseInput fl Report FilterExt)))"
    unfolding ring_ok_def x y i by (simp add: HISTORY_SIZE_def)
qed


lemma process_reports_ring:
  assumes "FilterActive FilterExt \<noteq> 0" "ring_ok FilterExt" "HistoryInitialized FilterExt"
  shows "(XHistory (process_reports fl FilterExt Reports),
          unat (HistoryIndex (process_reports fl FilterExt Reports))) =
         fold (\<lambda>Report (h, i). (h[i := LONG_of_CHAR (X Report)], (i + 1) mod HISTORY_SIZE))
           Reports (XHistory FilterExt, unat (HistoryIndex FilterExt))
       \<and> (YHistory (process_reports fl FilterExt Reports),
          unat (HistoryIndex (process_reports fl FilterExt Reports))) =
         fold (\<lambda>Report (h, i). (h[i := LONG_of_CHAR (Y Report)], (i + 1) mod HISTORY_SIZE))
           Reports (YHistory FilterExt, unat (HistoryIndex FilterExt))"
  using assms
proof (induction Reports arbitrary: FilterExt)
  case Nil
  show ?case by simp
next
  case (Cons Report Reports)
  let ?next = "fst (snd (ProcessMouseInput fl Report FilterExt))"
  have active: "FilterActive ?next \<noteq> 0"
    using Cons.prems(1) by (simp add: ProcessMouseInput_context)
  have ring: "ring_ok ?next"
    using Cons.prems(1,2) by (rule ProcessMouseInput_ring)
  have init: "HistoryInitialized ?next"
    using Cons.prems(1) by (rule ProcessMouseInput_context)
  note step = ProcessMouseInput_ring [OF Cons.prems(1,2), of fl Report]
  show ?case
    using Cons.IH [OF active ring init] Cons.prems(3) by (simp add: step)
qed

lemma eleven_writes:
  assumes active: "FilterActive FilterExt \<noteq> 0" and ring: "ring_ok FilterExt"
    and first: "HistoryIndex FilterExt = 0" "\<not> HistoryInitialized FilterExt"
  shows "XHistory (process_reports fl FilterExt [r0, r1, r2, r3, r4, r5, r6, r7, r8, r9, r10]) =
           map (\<lambda>r. LONG_of_CHAR (X r)) [r10, r1, r2, r3, r4, r5, r6, r7, r8, r9]"
    and "YHistory (process_reports fl FilterExt [r0, r1, r2, r3, r4, r5, r6, r7, r8, r9, r10]) =
           map (\<lambda>r. LONG_of_CHAR (Y r)) [r10, r1, r2, r3, r4, r5, r6, r7, r8, r9]"
    and "HistoryIndex (process_reports fl FilterExt [r0, r1, r2, r3, r4, r5, r6, r7, r8, r9, r10]) = 1"
proof -
  let ?next = "fst (snd (ProcessMouseInput fl r0 FilterExt))"
  have active': "FilterActive ?next \<noteq> 0"
    using active by (simp add: ProcessMouseInput_context)
  have ring': "ring_ok ?next"
    using active ring by (rule ProcessMouseInput_ring)
  have init': "HistoryInitialized ?next"
    using active by (rule ProcessMouseInput_context)
  note step = ProcessMouseInput_ring [OF active ring, of fl r0]
  have zeros: "replicate HISTORY_SIZE (0::LONG) = [0, 0, 0, 0, 0, 0, 0, 0, 0, 0]"
    by (simp add: HISTORY_SIZE_def numeral_eq_Suc)
  have x1: "XHistory ?next = [LONG_of_CHAR (X r0), 0, 0, 0, 0, 0, 0, 0, 0, 0]"
    and y1: "YHistory ?next = [LONG_of_CHAR (Y r0), 0, 0, 0, 0, 0, 0, 0, 0, 0]"
    and i1: "unat (HistoryIndex ?next) = 1"
    using first by (simp_all add: step zeros) (simp add: HISTORY_SIZE_def)
  note rest = process_reports_ring [OF active' ring' init', of fl
      "[r1, r2, r3, r4, r5, r6, r7, r8, r9, r10]"]
  have x: "XHistory (process_reports fl FilterExt [r0, r1, r2, r3, r4, r5, r6, r7, r8, r9, r10]) =
           map (\<lambda>r. LONG_of_CHAR (X r)) [r10, r1, r2, r3, r4, r5, r6, r7, r8, r9]"
    and ix: "unat (HistoryIndex (process_reports fl FilterExt
                [r0, r1, r2, r3, r4, r5, r6, r7, r8, r9, r10])) = 1"
    using rest [THEN conjunct1] by (simp_all add: x1 i1 HISTORY_SIZE_def)
  have y: "YHistory (process_reports fl FilterExt [r0, r1, r2, r3, r4, r5, r6, r7, r8, r9, r10]) =
           map (\<lambda>r. LONG_of_CHAR (Y r)) [r10, r1, r2, r3, r4, r5, r6, r7, r8, r9]"
    using rest [THEN conjunct2] by (simp add: y1 i1 HISTORY_SIZE_def)
  show "XHistory (process_reports fl FilterExt [r0, r1, r2, r3, r4, r5, r6, r7, r8, r9, r10]) =
           map (\<lambda>r. LONG_of_CHAR (X r)) [r10, r1, r2, r3, r4, r5, r6, r7, r8, r9]"
    by (rule x)
  show "YHistory (process_reports fl FilterExt [r0, r1, r2, r3, r4, r5, r6, r7, r8, r9, r10]) =
           map (\<lambda>r. LONG_of_CHAR (Y r)) [r10, r1, r2, r3, r4, r5, r6, r7, r8, r9]"
    by (rule y)
  from ix show "HistoryIndex (process_reports fl FilterExt
      [r0, r1, r2, r3, r4, r5, r6, r7, r8, r9, r10]) = 1"
    by (simp add: word_unat_eq_iff)
qed


text \<open>
  Claim C7.  On a report filtered with a well-formed ring, the raw \<open>X\<close> and \<open>Y\<close> are
  written into the slot at \<open>HistoryIndex\<close> of a ring that is first zero-filled if it has
  never been used, and the index advances by one modulo 10; the algorithm is then called
  on the context that holds the sample, and leaves the ring and the index as they are.
  Hence, from a first use at index 0, eleven reports leave in slot 0 the sample of the
  eleventh report, in slots 1 to 9 those of the second to the tenth, and the index at 1.
\<close>

theorem raw_sample_stored_before_filtering:
  assumes active: "FilterActive FilterExt \<noteq> 0" and ring: "ring_ok FilterExt"
  shows "(let stored = store_history Report FilterExt;
              slot = unat (HistoryIndex FilterExt);
              ((FilterExt', x, y), calls) = apply_filter fl stored (X Report) (Y Report)
          in XHistory stored =
               (if HistoryInitialized FilterExt then XHistory FilterExt
                else replicate HISTORY_SIZE 0)[slot := LONG_of_CHAR (X Report)] \<and>
             YHistory stored =
               (if HistoryInitialized FilterExt then YHistory FilterExt
                else replicate HISTORY_SIZE 0)[slot := LONG_of_CHAR (Y Report)] \<and>
             unat (HistoryIndex stored) = (slot + 1) mod HISTORY_SIZE \<and>
             HistoryInitialized stored \<and>
             ProcessMouseInput fl Report FilterExt =
               (Report\<lparr>X := x, Y := y\<rparr>,
                FilterExt'\<lparr>LastXPosition := LONG_of_CHAR x, LastYPosition := LONG_of_CHAR y\<rparr>,
                calls) \<and>
             XHistory FilterExt' = XHistory stored \<and> YHistory FilterExt' = YHistory stored \<and>
             HistoryIndex FilterExt' = HistoryIndex stored)
       \<and> (HistoryIndex FilterExt = 0 \<and> \<not> HistoryInitialized FilterExt \<longrightarrow>
            XHistory (process_reports fl FilterExt [r0, r1, r2, r3, r4, r5, r6, r7, r8, r9, r10]) =
              map (\<lambda>r. LONG_of_CHAR (X r)) [r10, r1, r2, r3, r4, r5, r6, r7, r8, r9] \<and>
            YHistory (process_reports fl FilterExt [r0, r1, r2, r3, r4, r5, r6, r7, r8, r9, r10]) =
              map (\<lambda>r. LONG_of_CHAR (Y r)) [r10, r1, r2, r3, r4, r5, r6, r7, r8, r9] \<and>
            HistoryIndex (process_reports fl FilterExt
              [r0, r1, r2, r3, r4, r5, r6, r7, r8, r9, r10]) = 1)"
proof (intro conjI impI)
  note sel = apply_filter_selected [of fl "store_history Report FilterExt" "X Report" "Y Report"]
  note keep = algorithms_keep_ring [of fl "selected (sint (SmoothingFactor FilterExt))"
      "store_history Report FilterExt" "X Report" "Y Report"]
  show "let stored = store_history Report FilterExt;
              slot = unat (HistoryIndex FilterExt);
              ((FilterExt', x, y), calls) = apply_filter fl stored (X Report) (Y Report)
          in XHistory stored =
               (if HistoryInitialized FilterExt then XHistory FilterExt
                else replicate HISTORY_SIZE 0)[slot := LONG_of_CHAR (X Report)] \<and>
             YHistory stored =
               (if HistoryInitialized FilterExt then YHistory FilterExt
                else replicate HISTORY_SIZE 0)[slot := LONG_of_CHAR (Y Report)] \<and>
             unat (HistoryIndex stored) = (slot + 1) mod HISTORY_SIZE \<and>
             HistoryInitialized stored \<and>
             ProcessMouseInput fl Report FilterExt =
               (Report\<lparr>X := x, Y := y\<rparr>,
                FilterExt'\<lparr>LastXPosition := LONG_of_CHAR x, LastYPosition := LONG_of_CHAR y\<rparr>,
                calls) \<and>
             XHistory FilterExt' = XHistory stored \<and> YHistory FilterExt' = YHistory stored \<and>
             HistoryIndex FilterExt' = HistoryIndex stored"
  proof -
    obtain FilterExt' x y where alg:
      "run_algorithm fl (selected (sint (SmoothingFactor FilterExt)))
         (store_history Report FilterExt) (X Report) (Y Report) = (FilterExt', x, y)"
      by (metis prod_cases3)
    from keep(1,2,3) have kept: "XHistory FilterExt' = XHistory (store_history Report FilterExt)"
      "YHistory FilterExt' = YHistory (store_history Report FilterExt)"
      "HistoryIndex FilterExt' = HistoryIndex (store_history Report FilterExt)"
      by (simp_all add: alg)
    have pmi: "ProcessMouseInput fl Report FilterExt =
        (Report\<lparr>X := x, Y := y\<rparr>,
         FilterExt'\<lparr>LastXPosition := LONG_of_CHAR x, LastYPosition := LONG_of_CHAR y\<rparr>,
         [call_of (selected (sint (SmoothingFactor FilterExt)))])"
      using active by (simp add: ProcessMouseInput_def sel store_history_keeps alg)
    show ?thesis
      using store_history_ring [OF ring, of Report]
      by (simp add: Let_def sel store_history_keeps alg kept pmi)
  qed
next
  assume "HistoryIndex FilterExt = 0 \<and> \<not> HistoryInitialized FilterExt"
  then have first: "HistoryIndex FilterExt = 0" "\<not> HistoryInitialized FilterExt"
    by simp_all
  note eleven = eleven_writes [OF active ring first, of fl r0 r1 r2 r3 r4 r5 r6 r7 r8 r9 r10]
  show "XHistory (process_reports fl FilterExt [r0, r1, r2, r3, r4, r5, r6, r7, r8, r9, r10]) =
          map (\<lambda>r. LONG_of_CHAR (X r)) [r10, r1, r2, r3, r4, r5, r6, r7, r8, r9]"
    by (rule eleven(1))
  show "YHistory (process_reports fl FilterExt [r0, r1, r2, r3, r4, r5, r6, r7, r8, r9, r10]) =
          map (\<lambda>r. LONG_of_CHAR (Y r)) [r10, r1, r2, r3, r4, r5, r6, r7, r8, r9]"
    by (rule eleven(2))
  show "HistoryIndex (process_reports fl FilterExt
          [r0, r1, r2, r3, r4, r5, r6, r7, r8, r9, r10]) = 1"
    by (rule eleven(3))
qed


theorem raw_sample_stored_before_filtering_witness:
  "FilterActive active_device \<noteq> 0 \<and> ring_ok active_device \<and>
   HistoryIndex active_device = 0 \<and> \<not> HistoryInitialized active_device \<and>
   XHistory (process_reports exact_arithmetic active_device
     [sample 1, sample 2, sample 3, sample 4, sample 5, sample 6, sample 7, sample 8,
      sample 9, sample 10, sample 11]) = [11, 2, 3, 4, 5, 6, 7, 8, 9, 10] \<and>
   YHistory (process_reports exact_arithmetic active_device
     [sample 1, sample 2, sample 3, sample 4, sample 5, sample 6, sample 7, sample 8,
      sample 9, sample 10, sample 11]) = [- 11, - 2, - 3, - 4, - 5, - 6, - 7, - 8, - 9, - 10]"
proof -
  have active: "FilterActive active_device \<noteq> 0"
    by (simp add: active_device_def)
  have ring: "ring_ok active_device"
    by (simp add: active_device_def added_device_def HidFilterDriverDeviceAdd_def
        zeroed_context_def ring_ok_def HISTORY_SIZE_def)
  have first: "HistoryIndex active_device = 0 \<and> \<not> HistoryInitialized active_device"
    by (simp add: active_device_def added_device_def HidFilterDriverDeviceAdd_def)
  from raw_sample_stored_before_filtering [OF active ring, THEN conjunct2, rule_format, OF first,
      of exact_arithmetic "sample 1" "sample 2" "sample 3" "sample 4" "sample 5" "sample 6"
        "sample 7" "sample 8" "sample 9" "sample 10" "sample 11"]
  show ?thesis using active ring first
    by (simp add: sample_def LONG_of_CHAR_def)
qed


section \<open>The moving average\<close>

lemma process_reports_context:
  assumes "FilterActive FilterExt \<noteq> 0" "ring_ok FilterExt"
  shows "FilterActive (process_reports fl FilterExt Reports) = FilterActive FilterExt \<and>
         ring_ok (process_reports fl FilterExt Reports) \<and>
         SmoothingFactor (process_reports fl FilterExt Reports) = SmoothingFactor FilterExt \<and>
         ResponseSpeed (process_reports fl FilterExt Reports) = ResponseSpeed FilterExt \<and>
         FilteringStrength (process_reports fl FilterExt Reports) = FilteringStrength FilterExt"
  using assms
proof (induction Reports arbitrary: FilterExt)
  case Nil
  then show ?case by simp
next
  case (Cons Report Reports)
  let ?next = "fst (snd (ProcessMouseInput fl Report FilterExt))"
  note ctx = ProcessMouseInput_context [OF Cons.prems(1), of fl Report]
  have active: "FilterActive ?next \<noteq> 0"
    using Cons.prems(1) by (simp add: ctx)
  have ring: "ring_ok ?next"
    using Cons.prems by (rule ProcessMouseInput_ring)
  from Cons.IH [OF active ring] show ?case
    by (simp add: ctx)
qed

lemma process_reports_initialized:
  assumes "FilterActive FilterExt \<noteq> 0" "HistoryInitialized FilterExt \<or> Reports \<noteq> []"
  shows "HistoryInitialized (process_reports fl FilterExt Reports)"
  using assms
proof (induction Reports arbitrary: FilterExt)
  case Nil
  then show ?case by simp
next
  case (Cons Report Reports)
  note ctx = ProcessMouseInput_context [OF Cons.prems(1), of fl Report]
  have "FilterActive (fst (snd (ProcessMouseInput fl Report FilterExt))) \<noteq> 0"
    using Cons.prems(1) by (simp add: ctx)
  moreover have "HistoryInitialized (fst (snd (ProcessMouseInput fl Report FilterExt)))
      \<or> Reports \<noteq> []"
    by (simp add: ctx)
  ultimately show ?case
    using Cons.IH by simp
qed

text \<open>The \<open>X\<close> and \<open>Y\<close> that \<open>ApplyMovingAverage\<close> writes, from the ring alone.\<close>

lemma ApplyMovingAverage_output:
  "snd (ApplyMovingAverage FilterExt x y) =
    (let windowSize = min_ULONG (3 + sdiv_LONG (FilteringStrength FilterExt * 7) 100)
                        (of_nat HISTORY_SIZE)
     in (CHAR_of_LONG (max_LONG (- 128) (min_LONG 127
           (window_sum (XHistory FilterExt) (HistoryIndex FilterExt) windowSize div windowSize))),
         CHAR_of_LONG (max_LONG (- 128) (min_LONG 127
           (window_sum (YHistory FilterExt) (HistoryIndex FilterExt) windowSize div windowSize)))))"
  by (simp add: ApplyMovingAverage_def Let_def)

lemma ProcessMouseInput_moving_average:
  assumes "FilterActive FilterExt \<noteq> 0"
    and "selected (sint (SmoothingFactor FilterExt)) = Windowed_average"
  shows "X (fst (ProcessMouseInput fl Report FilterExt)) =
           fst (snd (ApplyMovingAverage (store_history Report FilterExt) (X Report) (Y Report)))"
    and "Y (fst (ProcessMouseInput fl Report FilterExt)) =
           snd (snd (ApplyMovingAverage (store_history Report FilterExt) (X Report) (Y Report)))"
  using assms
  by (simp_all add: ProcessMouseInput_def apply_filter_selected store_history_keeps
      split: prod.split)

lemma default_window: "min_ULONG (3 + sdiv_LONG (50 * 7) 100) (of_nat HISTORY_SIZE) = 6"
  by (simp add: sdiv_LONG_def signed_divide_int_def min_ULONG_def HISTORY_SIZE_def)

lemma sample_simps:
  "Buttons (sample x) = 0" "X (sample x) = x" "Y (sample x) = - x" "Wheel (sample x) = 0"
  by (simp_all add: sample_def)

lemma LONG_of_CHAR_20: "LONG_of_CHAR (- 20) = - 20" "LONG_of_CHAR 20 = 20"
  by (simp_all add: LONG_of_CHAR_def)

lemma five_negative_samples:
  defines "five \<equiv> [sample (- 20), sample (- 20), sample (- 20), sample (- 20), sample (- 20)]"
  shows "FilterActive (process_reports fl active_device five) \<noteq> 0"
    and "ring_ok (process_reports fl active_device five)"
    and "HistoryInitialized (process_reports fl active_device five)"
    and "SmoothingFactor (process_reports fl active_device five) = 50"
    and "FilteringStrength (process_reports fl active_device five) = 50"
    and "XHistory (process_reports fl active_device five) =
           [- 20, - 20, - 20, - 20, - 20, 0, 0, 0, 0, 0]"
    and "YHistory (process_reports fl active_device five) = [20, 20, 20, 20, 20, 0, 0, 0, 0, 0]"
    and "unat (HistoryIndex (process_reports fl active_device five)) = 5"
proof -
  let ?first = "fst (snd (ProcessMouseInput fl (sample (- 20)) active_device))"
  have active: "FilterActive active_device \<noteq> 0"
    by (simp add: active_device_def)
  have ring: "ring_ok active_device"
    by (simp add: active_device_def added_device_def HidFilterDriverDeviceAdd_def
        zeroed_context_def ring_ok_def HISTORY_SIZE_def)
  have fresh: "HistoryIndex active_device = 0" "\<not> HistoryInitialized active_device"
    "SmoothingFactor active_device = 50" "FilteringStrength active_device = 50"
    by (simp_all add: active_device_def added_device_def HidFilterDriverDeviceAdd_def)
  have zeros: "replicate HISTORY_SIZE (0::LONG) = [0, 0, 0, 0, 0, 0, 0, 0, 0, 0]"
    by (simp add: HISTORY_SIZE_def numeral_eq_Suc)
  note step = ProcessMouseInput_ring [OF active ring, of fl "sample (- 20)"]
  note ctx = ProcessMouseInput_context [OF active, of fl "sample (- 20)"]
  have active1: "FilterActive ?first \<noteq> 0" using active by (simp add: ctx)
  have ring1: "ring_ok ?first" by (rule step)
  have init1: "HistoryInitialized ?first" by (rule ctx)
  have first: "XHistory ?first = [- 20, 0, 0, 0, 0, 0, 0, 0, 0, 0]"
    "YHistory ?first = [20, 0, 0, 0, 0, 0, 0, 0, 0, 0]"
    "unat (HistoryIndex ?first) = 1"
    using fresh(1,2)
    by (simp_all add: step zeros sample_simps LONG_of_CHAR_20) (simp add: HISTORY_SIZE_def)
  note rest = process_reports_ring [OF active1 ring1 init1, of fl
      "[sample (- 20), sample (- 20), sample (- 20), sample (- 20)]"]
  show "XHistory (process_reports fl active_device five) =
           [- 20, - 20, - 20, - 20, - 20, 0, 0, 0, 0, 0]"
    and "unat (HistoryIndex (process_reports fl active_device five)) = 5"
    using rest [THEN conjunct1]
    by (simp_all add: five_def first HISTORY_SIZE_def sample_simps LONG_of_CHAR_20)
  show "YHistory (process_reports fl active_device five) = [20, 20, 20, 20, 20, 0, 0, 0, 0, 0]"
    using rest [THEN conjunct2]
    by (simp add: five_def first HISTORY_SIZE_def sample_simps LONG_of_CHAR_20)
  note kept = process_reports_context [OF active ring, of fl five]
  show "FilterActive (process_reports fl active_device five) \<noteq> 0"
    using kept active by simp
  show "ring_ok (process_reports fl active_device five)"
    using kept by simp
  show "HistoryInitialized (process_reports fl active_device five)"
    using active by (rule process_reports_initialized) (simp add: five_def)
  show "SmoothingFactor (process_reports fl active_device five) = 50"
    and "FilteringStrength (process_reports fl active_device five) = 50"
    using kept by (simp_all only: fresh)
qed

text \<open>
  Claim C5, at a failing input.  With the defaults (\<open>SmoothingFactor\<close> 50,
  \<open>FilteringStrength\<close> 50, hence a window of 6) and the filter active, six reports with
  \<open>X = - 20\<close> and \<open>Y = 20\<close> fill the window with six identical samples per axis.  The
  sixth report comes out with \<open>Y = 20\<close>, the mean, but with \<open>X = 127\<close>, not \<open>- 20\<close>: the
  sum \<open>- 120\<close> is divided as an \<open>unsigned long\<close>, which gives 715827862, and the clamp
  cuts that to 127.
\<close>

theorem moving_average_of_negative_samples:
  "fst (ProcessMouseInput fl (sample (- 20))
         (process_reports fl active_device
            [sample (- 20), sample (- 20), sample (- 20), sample (- 20), sample (- 20)])) =
     \<lparr>Buttons = 0, X = 127, Y = 20, Wheel = 0\<rparr>"
proof -
  define before where "before = process_reports fl active_device
      [sample (- 20), sample (- 20), sample (- 20), sample (- 20), sample (- 20)]"
  note five = five_negative_samples [of fl, folded before_def]
  define stored where "stored = store_history (sample (- 20)) before"
  have windowed: "selected (sint (SmoothingFactor before)) = Windowed_average"
    by (simp add: five(4) selected_def)
  note ring = store_history_ring [OF five(2), of "sample (- 20)", folded stored_def]
  have ringX: "XHistory stored = [- 20, - 20, - 20, - 20, - 20, - 20, 0, 0, 0, 0]"
    and ringY: "YHistory stored = [20, 20, 20, 20, 20, 20, 0, 0, 0, 0]"
    by (simp_all add: ring five sample_simps LONG_of_CHAR_20)
  have "unat (HistoryIndex stored) = 6"
    by (simp add: ring five HISTORY_SIZE_def)
  then have index: "HistoryIndex stored = 6"
    by (simp add: word_unat_eq_iff)
  have strength: "FilteringStrength stored = 50"
    by (simp add: stored_def store_history_keeps five)
  have sums: "window_sum [- 20, - 20, - 20, - 20, - 20, - 20, 0, 0, 0, 0] 6 6 = - 120"
    "window_sum [20, 20, 20, 20, 20, 20, 0, 0, 0, 0] 6 6 = 120"
    by (simp_all add: window_sum_def upt_rec history_slot_def HISTORY_SIZE_def)
  have clampX: "max_LONG (- 128) (min_LONG 127 (- 120 div 6)) = 127"
    by (simp add: max_LONG_def min_LONG_def word_sless_alt)
  have clampY: "max_LONG (- 128) (min_LONG 127 (120 div 6)) = 20"
    by (simp add: max_LONG_def min_LONG_def word_sless_alt)
  have out: "snd (ApplyMovingAverage stored (X (sample (- 20))) (Y (sample (- 20)))) = (127, 20)"
    unfolding ApplyMovingAverage_output strength default_window ringX ringY index Let_def
      sums clampX clampY
    by (simp add: CHAR_of_LONG_def)
  note pmi = ProcessMouseInput_moving_average [OF five(1) windowed, of fl "sample (- 20)",
      folded stored_def]
  have "X (fst (ProcessMouseInput fl (sample (- 20)) before)) = 127"
    and "Y (fst (ProcessMouseInput fl (sample (- 20)) before)) = 20"
    by (simp_all add: pmi out)
  moreover have "Buttons (fst (ProcessMouseInput fl (sample (- 20)) before)) = 0"
    and "Wheel (fst (ProcessMouseInput fl (sample (- 20)) before)) = 0"
    by (simp_all add: ProcessMouseInput_frame sample_simps)
  ultimately have "fst (ProcessMouseInput fl (sample (- 20)) before) =
      \<lparr>Buttons = 0, X = 127, Y = 20, Wheel = 0\<rparr>"
    by (intro MOUSE_REPORT.equality) simp_all
  then show ?thesis by (simp only: before_def)
qed


section \<open>Completion of control requests\<close>

lemma unrecognized_code_value: "unrecognized_code = 0x22A014"
  by (simp add: unrecognized_code_def CTL_CODE_def FILE_DEVICE_UNKNOWN_def METHOD_BUFFERED_def
      FILE_WRITE_ACCESS_def)

text \<open>A request with one of the five codes of the driver is completed, once, by the
  handler itself.\<close>

lemma recognized_code_completed_once:
  assumes "IoControlCode \<in> {IOCTL_HIDFILTER_SET_ACTIVE, IOCTL_HIDFILTER_SET_SMOOTHING,
      IOCTL_HIDFILTER_SET_RESPONSE, IOCTL_HIDFILTER_SET_FILTERING, IOCTL_HIDFILTER_GET_PARAMETERS}"
  shows "\<exists>Request' status.
      snd (HidFilterDriverIoDeviceControl wdf filterExt Request OutputBufferLength
             InputBufferLength IoControlCode) = [RequestCompleted Request' status] \<and>
      Handle Request' = Handle Request"
  using assms
  by (auto simp add: HidFilterDriverIoDeviceControl_def control_codes WdfRequestComplete_def
      Let_def split: prod.split)

text \<open>The branch of the other codes, by the statuses of the framework.\<close>

lemma unrecognized_code_branch:
  assumes "IoControlCode \<notin> {IOCTL_HIDFILTER_SET_ACTIVE, IOCTL_HIDFILTER_SET_SMOOTHING,
      IOCTL_HIDFILTER_SET_RESPONSE, IOCTL_HIDFILTER_SET_FILTERING, IOCTL_HIDFILTER_GET_PARAMETERS}"
  shows "HidFilterDriverIoDeviceControl wdf filterExt Request OutputBufferLength
             InputBufferLength IoControlCode =
    (if \<not> NT_SUCCESS (ForwardToIoQueueStatus wdf)
     then (filterExt, [RequestCompleted Request (ForwardToIoQueueStatus wdf)])
     else if \<not> NT_SUCCESS (RetrieveNextRequestStatus wdf)
     then (filterExt\<lparr>PendingQueue := PendingQueue filterExt @ [Request]\<rparr>, [])
     else (filterExt\<lparr>PendingQueue := tl (PendingQueue filterExt @ [Request])\<rparr>,
           forward_to_target wdf (hd (PendingQueue filterExt @ [Request]))))"
  using assms
  by (cases "PendingQueue filterExt")
     (simp_all add: HidFilterDriverIoDeviceControl_def WdfRequestForwardToIoQueue_def
      WdfIoQueueRetrieveNextRequest_def WdfRequestComplete_def Let_def)

text \<open>
  Claim C9, at a failing input.  On a device just added, a request with a code the driver
  does not know is put on the pending queue; when \<open>WdfIoQueueRetrieveNextRequest\<close> then
  fails, the handler returns: the request is neither completed nor sent on, the status is
  dropped, and the request stays on the queue.  The next such request, with a framework
  that succeeds, sends the earlier request to the lower device and stays on the queue
  itself.
\<close>

theorem unrecognized_request_left_pending:
  "HidFilterDriverIoDeviceControl retrieval_fails added_device (request_with 7 [])
       (OutputLength (request_with 7 [])) (length (InputBuffer (request_with 7 [])))
       unrecognized_code =
     (added_device\<lparr>PendingQueue := [request_with 7 []]\<rparr>, []) \<and>
   HidFilterDriverIoDeviceControl all_succeed (added_device\<lparr>PendingQueue := [request_with 7 []]\<rparr>)
       (request_with 8 []) (OutputLength (request_with 8 []))
       (length (InputBuffer (request_with 8 []))) unrecognized_code =
     (added_device\<lparr>PendingQueue := [request_with 8 []]\<rparr>, [SentToIoTarget (request_with 7 [])])"
proof -
  have other: "unrecognized_code \<notin> {IOCTL_HIDFILTER_SET_ACTIVE, IOCTL_HIDFILTER_SET_SMOOTHING,
      IOCTL_HIDFILTER_SET_RESPONSE, IOCTL_HIDFILTER_SET_FILTERING, IOCTL_HIDFILTER_GET_PARAMETERS}"
    by (simp add: unrecognized_code_value control_codes)
  have fails: "NT_SUCCESS (ForwardToIoQueueStatus retrieval_fails)"
    "\<not> NT_SUCCESS (RetrieveNextRequestStatus retrieval_fails)"
    by (simp_all add: retrieval_fails_def all_succeed_def STATUS_INVALID_DEVICE_STATE_def
        STATUS_SUCCESS_def NT_SUCCESS_def word_sle_eq)
  have empty: "PendingQueue added_device = []"
    by (simp add: added_device_def HidFilterDriverDeviceAdd_def)
  show ?thesis
    by (simp add: unrecognized_code_branch [OF other] fails all_succeed_simps empty
        forward_to_target_eq)
qed


section \<open>The invariant of the context\<close>

lemma added_device_ok: "extension_ok added_device"
  by (simp add: extension_ok_def ring_ok_def in_range_def added_device_def
      HidFilterDriverDeviceAdd_def zeroed_context_def HISTORY_SIZE_def)

lemma ProcessMouseInput_ok:
  assumes "extension_ok FilterExt"
  shows "extension_ok (fst (snd (ProcessMouseInput fl Report FilterExt)))"
proof (cases "FilterActive FilterExt = 0")
  case True
  with assms show ?thesis by (simp add: ProcessMouseInput_def)
next
  case False
  from assms have "ring_ok FilterExt" by (simp add: extension_ok_def)
  with False have "ring_ok (fst (snd (ProcessMouseInput fl Report FilterExt)))"
    by (rule ProcessMouseInput_ring)
  with assms show ?thesis
    by (simp add: extension_ok_def ProcessMouseInput_context [OF False])
qed

lemma retrieve_tunable_in_range:
  "retrieve_tunable wdf Request InputBufferLength = (status, Some value) \<Longrightarrow> in_range value"
  by (auto simp add: retrieve_tunable_def in_range_def word_sle_eq Let_def
      split: if_splits prod.splits)

lemma HidFilterDriverIoDeviceControl_ok:
  assumes "extension_ok filterExt"
  shows "extension_ok (fst (HidFilterDriverIoDeviceControl wdf filterExt Request
           OutputBufferLength InputBufferLength IoControlCode))"
  using assms
  by (auto simp add: HidFilterDriverIoDeviceControl_def Let_def extension_ok_def ring_ok_def
      dest: retrieve_tunable_in_range split: prod.splits option.splits)

lemma HidFilterDriverIoInternalDeviceControl_ok:
  assumes "extension_ok filterExt"
  shows "extension_ok (fst (HidFilterDriverIoInternalDeviceControl fl wdf filterExt Request
           IoControlCode))"
proof -
  have "extension_ok (fst (snd (ProcessMouseInput fl
          (report_of_buffer (snd (WdfRequestRetrieveInputMemory wdf Request))) filterExt)))"
    using assms by (rule ProcessMouseInput_ok)
  with assms show ?thesis
    by (auto simp add: HidFilterDriverIoInternalDeviceControl_def Let_def split: prod.splits)
qed

lemma deliver_ok:
  "extension_ok filterExt \<Longrightarrow> extension_ok (fst (deliver fl filterExt d))"
  by (cases d)
     (simp_all add: HidFilterDriverIoDeviceControl_ok HidFilterDriverIoInternalDeviceControl_ok
      HidFilterQueueDefault_def)

text \<open>Every context that a run of the driver reaches from a device just added has a
  well-formed ring and tunables within 0 and 100.\<close>

lemma run_ok:
  "extension_ok filterExt \<Longrightarrow> extension_ok (fst (run fl filterExt ds))"
proof (induction ds arbitrary: filterExt)
  case Nil
  then show ?case by simp
next
  case (Cons d ds)
  from Cons.prems have "extension_ok (fst (deliver fl filterExt d))"
    by (rule deliver_ok)
  then have "extension_ok (fst (run fl (fst (deliver fl filterExt d)) ds))"
    by (rule Cons.IH)
  then show ?case
    by (simp add: split_beta)
qed

lemma reachable_ok: "extension_ok (fst (run fl added_device ds))"
  using added_device_ok by (rule run_ok)


section \<open>The window of the moving average\<close>

text \<open>With \<open>FilteringStrength\<close> within 0 and 100 the window is
  \<open>3 + \<lfloor>7 \<sqdot> FilteringStrength / 100\<rfloor>\<close>, from 3 to 10: the divisor of the average is
  never zero in a context that the driver reaches.\<close>

lemma window_size:
  assumes "in_range (fs :: LONG)"
  shows "unat (min_ULONG (3 + sdiv_LONG (fs * 7) 100) (of_nat HISTORY_SIZE)) =
           3 + nat (sint fs * 7 div 100)"
    and "3 \<le> unat (min_ULONG (3 + sdiv_LONG (fs * 7) 100) (of_nat HISTORY_SIZE))"
    and "unat (min_ULONG (3 + sdiv_LONG (fs * 7) 100) (of_nat HISTORY_SIZE)) \<le> HISTORY_SIZE"
proof -
  from assms have range: "0 \<le> sint fs" "sint fs \<le> 100"
    by (simp_all add: in_range_def)
  have "sint (fs * 7) = signed_take_bit 31 (sint fs * 7)"
    by (simp add: sint_word_ariths)
  also have "\<dots> = sint fs * 7"
  proof (rule signed_take_bit_int_eq_self)
    from range have "- 2147483648 \<le> sint fs * 7" "sint fs * 7 < 2147483648"
      by simp_all
    then show "- (2 ^ 31) \<le> sint fs * 7" "sint fs * 7 < 2 ^ 31"
      by simp_all
  qed
  finally have prod: "sint (fs * 7) = sint fs * 7" .
  have "sint fs * 7 sdiv 100 = sint fs * 7 div 100"
    using range by (simp add: signed_divide_int_def sgn_if)
  then have q: "sdiv_LONG (fs * 7) 100 = word_of_int (sint fs * 7 div 100)"
    by (simp add: sdiv_LONG_def prod)
  define q where "q = sint fs * 7 div 100"
  have qr: "0 \<le> q" "q \<le> 7"
    using range by (simp_all add: q_def)
  have "(3 + word_of_int q :: ULONG) = word_of_int (3 + q)"
    by simp
  moreover have "uint (word_of_int (3 + q) :: ULONG) = 3 + q"
  proof -
    from qr have "0 \<le> 3 + q" "3 + q < 4294967296" by simp_all
    then have "take_bit 32 (3 + q) = 3 + q"
      by (intro take_bit_int_eq_self) simp_all
    moreover have "uint (word_of_int (3 + q) :: ULONG) = take_bit LENGTH(32) (3 + q)"
      by (rule uint_word_of_int_eq)
    ultimately show ?thesis by (simp only: len_bit0 len_num1) simp
  qed
  ultimately have "unat (3 + word_of_int q :: ULONG) = nat (3 + q)"
    by (simp only: unat_eq_nat_uint)
  then have "unat (3 + word_of_int q :: ULONG) = 3 + nat q"
    using qr by (simp add: nat_add_distrib)
  then show "unat (min_ULONG (3 + sdiv_LONG (fs * 7) 100) (of_nat HISTORY_SIZE)) =
           3 + nat (sint fs * 7 div 100)"
    using qr unfolding q q_def [symmetric]
    by (auto simp add: min_ULONG_def HISTORY_SIZE_def word_less_nat_alt)
  then show "3 \<le> unat (min_ULONG (3 + sdiv_LONG (fs * 7) 100) (of_nat HISTORY_SIZE))"
    and "unat (min_ULONG (3 + sdiv_LONG (fs * 7) 100) (of_nat HISTORY_SIZE)) \<le> HISTORY_SIZE"
    using qr unfolding q_def by (simp_all add: HISTORY_SIZE_def)
qed


section \<open>The clamp of the outputs\<close>

lemma clamp_range:
  "- 128 \<le> sint (max_LONG (- 128) (min_LONG 127 n))"
  "sint (max_LONG (- 128) (min_LONG 127 n)) \<le> 127"
  by (auto simp add: max_LONG_def min_LONG_def word_sless_alt)

lemma CHAR_round_trip:
  assumes "- 128 \<le> sint (n :: LONG)" "sint n \<le> 127"
  shows "LONG_of_CHAR (CHAR_of_LONG n) = n"
proof -
  have "sint (ucast n :: 8 word) = signed_take_bit 7 (uint n)"
    using signed_ucast_eq [of n, where ?'a = int and ?'c = 8] by simp
  also have "\<dots> = signed_take_bit 7 (signed_take_bit 31 (uint n))"
    by (simp add: signed_take_bit_signed_take_bit)
  also have "signed_take_bit 31 (uint n) = sint n"
    by (simp add: sint_uint)
  also have "signed_take_bit 7 (sint n) = sint n"
    using assms by (intro signed_take_bit_int_eq_self) simp_all
  finally have narrow: "sint (ucast n :: 8 word) = sint n" .
  have "sint (scast (ucast n :: 8 word) :: LONG) = sint (ucast n :: 8 word)"
    by (rule sint_up_scast) (simp add: is_up)
  with narrow have "sint (LONG_of_CHAR (CHAR_of_LONG n)) = sint n"
    by (simp add: LONG_of_CHAR_def CHAR_of_LONG_def)
  then show ?thesis
    by (rule signed_word_eqI)
qed

text \<open>Whatever the arithmetic, each algorithm leaves in \<open>LastXOutput\<close> and \<open>LastYOutput\<close>
  values of the range of a \<open>CHAR\<close>, and writes those values to the report.\<close>

lemma algorithm_output_clamped:
  assumes "run_algorithm fl alg FilterExt x y = (FilterExt', x', y')"
  shows "- 128 \<le> sint (LastXOutput FilterExt') \<and> sint (LastXOutput FilterExt') \<le> 127 \<and>
         - 128 \<le> sint (LastYOutput FilterExt') \<and> sint (LastYOutput FilterExt') \<le> 127 \<and>
         LONG_of_CHAR x' = LastXOutput FilterExt' \<and> LONG_of_CHAR y' = LastYOutput FilterExt'"
  using assms
  by (cases alg)
     (auto simp add: ApplyExponentialSmoothing_def ApplyMovingAverage_def
        ApplyAdaptiveFiltering_def Let_def clamp_range CHAR_round_trip)


section \<open>Rounding to single precision\<close>

lemma powi_less_imp_less: "(2::rat) powi a < 2 powi b \<Longrightarrow> a < b"
proof (rule ccontr)
  assume less: "(2::rat) powi a < 2 powi b" and "\<not> a < b"
  then have "b \<le> a" by simp
  then have "(2::rat) powi b \<le> 2 powi a" by (rule power_int_increasing) simp
  with less show False by simp
qed

lemma floor_exp_eq:
  "2 powi e \<le> a \<Longrightarrow> a < 2 powi (e + 1) \<Longrightarrow> - 126 \<le> e \<Longrightarrow> e \<le> e0 \<Longrightarrow> floor_exp e0 a = e"
proof (induction e0 a rule: floor_exp.induct)
  case (1 e0 a)
  show ?case
  proof (cases "e0 \<le> - 126 \<or> 2 powi e0 \<le> a")
    case True
    then have "floor_exp e0 a = e0" by (simp add: floor_exp.simps)
    moreover have "e0 = e"
    proof (cases "e0 \<le> - 126")
      case True with 1 show ?thesis by simp
    next
      case False
      with True have "2 powi e0 \<le> a" by simp
      with 1(3) have "(2::rat) powi e0 < 2 powi (e + 1)" by simp
      then have "e0 < e + 1" by (rule powi_less_imp_less)
      with 1(5) show ?thesis by simp
    qed
    ultimately show ?thesis by simp
  next
    case False
    then have rec: "floor_exp e0 a = floor_exp (e0 - 1) a" by (subst floor_exp.simps) simp
    from False 1(2) have "e \<noteq> e0" by auto
    with 1(5) have "e \<le> e0 - 1" by simp
    with 1 False show ?thesis by (simp add: rec)
  qed
qed

lemma floor_exp_le_aux:
  "a < 2 powi (k + 1) \<Longrightarrow> - 126 \<le> k \<Longrightarrow> floor_exp e0 a \<le> (if e0 \<le> k then e0 else k)"
proof (induction e0 a rule: floor_exp.induct)
  case (1 e0 a)
  show ?case
  proof (cases "e0 \<le> - 126 \<or> 2 powi e0 \<le> a")
    case True
    then have stop: "floor_exp e0 a = e0" by (simp add: floor_exp.simps)
    have "e0 \<le> k"
    proof (cases "e0 \<le> - 126")
      case True with 1(3) show ?thesis by simp
    next
      case False
      with True have "2 powi e0 \<le> a" by simp
      with 1(2) have "(2::rat) powi e0 < 2 powi (k + 1)" by simp
      then have "e0 < k + 1" by (rule powi_less_imp_less)
      then show ?thesis by simp
    qed
    with stop show ?thesis by simp
  next
    case False
    then have rec: "floor_exp e0 a = floor_exp (e0 - 1) a" by (subst floor_exp.simps) simp
    from 1(1) [OF False 1(2,3)] show ?thesis
      by (simp add: rec split: if_splits)
  qed
qed

lemma floor_exp_le:
  "a < 2 powi (k + 1) \<Longrightarrow> - 126 \<le> k \<Longrightarrow> floor_exp e0 a \<le> k"
  using floor_exp_le_aux [of a k e0] by (simp split: if_splits)

lemma round_to_even_error: "\<bar>of_int (round_to_even q) - q\<bar> \<le> 1 / 2"
proof -
  have "of_int \<lfloor>q\<rfloor> \<le> q" "q < of_int \<lfloor>q\<rfloor> + 1" by linarith+
  then show ?thesis
    by (auto simp add: round_to_even_def Let_def)
qed

lemma round_to_even_of_int: "round_to_even (of_int z) = z"
  by (simp add: round_to_even_def)

lemma round_to_even_eqI:
  assumes "\<bar>q - of_int m\<bar> < 1 / 2"
  shows "round_to_even q = m"
proof (cases "of_int m \<le> q")
  case True
  with assms have "\<lfloor>q\<rfloor> = m" by (intro floor_unique) linarith+
  with True assms show ?thesis by (simp add: round_to_even_def)
next
  case False
  from False assms have "of_int (m - 1) \<le> q" "q < of_int (m - 1) + 1"
    by (simp_all add: abs_if split: if_splits)
  then have "\<lfloor>q\<rfloor> = m - 1" by (rule floor_unique)
  with False assms show ?thesis by (simp add: round_to_even_def abs_if split: if_splits)
qed

lemma round_to_even_tie:
  assumes "q = of_int n + 1 / 2"
  shows "round_to_even q = (if even n then n else n + 1)"
proof -
  from assms have "\<lfloor>q\<rfloor> = n" by (intro floor_unique) simp_all
  with assms show ?thesis by (simp add: round_to_even_def)
qed


lemma binary32_round_eqI:
  assumes "2 powi e \<le> \<bar>q\<bar>" "\<bar>q\<bar> < 2 powi (e + 1)" "- 126 \<le> e" "e \<le> 127"
    and "round_to_even (q / 2 powi (e - 23)) = m"
  shows "binary32_round q = of_int m * 2 powi (e - 23)"
proof -
  have "(0::rat) < 2 powi e" by simp
  with assms(1) have "0 < \<bar>q\<bar>" by linarith
  then have "q \<noteq> 0" by simp
  moreover have "floor_exp 127 \<bar>q\<bar> = e"
    using assms(1-4) by (rule floor_exp_eq)
  ultimately show ?thesis
    by (simp add: binary32_round_def Let_def assms(5))
qed

lemma binary32_round_error:
  assumes "\<bar>q\<bar> \<le> 2 powi k" "- 126 \<le> k"
  shows "\<bar>binary32_round q - q\<bar> \<le> 2 powi (k - 24)"
proof (cases "q = 0")
  case True
  then show ?thesis by (simp add: binary32_round_def)
next
  case False
  define e where "e = floor_exp 127 \<bar>q\<bar>"
  define u :: rat where "u = 2 powi (e - 23)"
  have "(2::rat) powi k < 2 powi (k + 1)"
    by (rule power_int_strict_increasing) simp_all
  with assms(1) have "\<bar>q\<bar> < 2 powi (k + 1)" by simp
  then have "e \<le> k" unfolding e_def using assms(2) by (rule floor_exp_le)
  have u: "0 < u" by (simp add: u_def)
  have r: "binary32_round q = of_int (round_to_even (q / u)) * u"
    using False by (simp add: binary32_round_def Let_def e_def u_def)
  have "binary32_round q - q = (of_int (round_to_even (q / u)) - q / u) * u"
    using u by (simp add: r algebra_simps)
  then have "\<bar>binary32_round q - q\<bar> = \<bar>of_int (round_to_even (q / u)) - q / u\<bar> * u"
    using u by (simp add: abs_mult)
  also have "\<dots> \<le> 1 / 2 * u"
    using u round_to_even_error [of "q / u"] by (intro mult_right_mono) simp_all
  also have "1 / 2 * u = 2 powi (e - 24)"
  proof -
    have "(2::rat) powi (e - 23) = 2 powi (e - 24 + 1)" by simp
    also have "\<dots> = 2 powi (e - 24) * 2" by (subst power_int_add) simp_all
    finally show ?thesis by (simp add: u_def)
  qed
  also have "\<dots> \<le> 2 powi (k - 24)"
    using \<open>e \<le> k\<close> by (intro power_int_increasing) simp_all
  finally show ?thesis .
qed

lemma binary32_round_of_int:
  assumes "\<bar>z\<bar> < 16777216"
  shows "binary32_round (of_int z) = of_int z"
proof (cases "z = 0")
  case True
  then show ?thesis by (simp add: binary32_round_def)
next
  case False
  define e where "e = floor_exp 127 \<bar>of_int z\<bar>"
  from assms have "\<bar>of_int z :: rat\<bar> < of_int 16777216"
    unfolding of_int_abs [symmetric] of_int_less_iff .
  then have "\<bar>of_int z :: rat\<bar> < 2 powi (23 + 1)" by simp
  then have "e \<le> 23" unfolding e_def by (rule floor_exp_le) simp
  define d where "d = nat (23 - e)"
  have u: "(2::rat) powi (e - 23) = 1 / 2 ^ d"
    using \<open>e \<le> 23\<close> by (simp add: d_def power_int_def field_simps)
  have "of_int z / (2::rat) powi (e - 23) = of_int (z * 2 ^ d)"
    by (simp add: u)
  then have "round_to_even (of_int z / 2 powi (e - 23)) = z * 2 ^ d"
    by (simp only: round_to_even_of_int)
  then show ?thesis
    using False by (simp add: binary32_round_def Let_def e_def [symmetric]) (simp add: u)
qed

lemma binary32_round_nonneg: "0 \<le> q \<Longrightarrow> 0 \<le> binary32_round q"
proof -
  assume q: "0 \<le> q"
  have "0 \<le> round_to_even x" if "0 \<le> x" for x
  proof -
    from that have "0 \<le> \<lfloor>x\<rfloor>" by simp
    then show ?thesis by (simp add: round_to_even_def Let_def)
  qed
  with q show ?thesis
    by (simp add: binary32_round_def Let_def)
qed

lemma binary32_round_near:
  "\<bar>q\<bar> \<le> 1 \<Longrightarrow> \<bar>binary32_round q - q\<bar> \<le> 1 / 16777216"
  "\<bar>q\<bar> \<le> 2 \<Longrightarrow> \<bar>binary32_round q - q\<bar> \<le> 1 / 8388608"
  "\<bar>q\<bar> \<le> 4 \<Longrightarrow> \<bar>binary32_round q - q\<bar> \<le> 1 / 4194304"
  "\<bar>q\<bar> \<le> 16 \<Longrightarrow> \<bar>binary32_round q - q\<bar> \<le> 1 / 1048576"
  "\<bar>q\<bar> \<le> 128 \<Longrightarrow> \<bar>binary32_round q - q\<bar> \<le> 1 / 131072"
  "\<bar>q\<bar> \<le> 256 \<Longrightarrow> \<bar>binary32_round q - q\<bar> \<le> 1 / 65536"
  "\<bar>q\<bar> \<le> 512 \<Longrightarrow> \<bar>binary32_round q - q\<bar> \<le> 1 / 32768"
  using binary32_round_error [of q 0] binary32_round_error [of q 1] binary32_round_error [of q 2]
    binary32_round_error [of q 4] binary32_round_error [of q 7] binary32_round_error [of q 8]
    binary32_round_error [of q 9]
  by simp_all

section \<open>Truncation and clamps\<close>

lemma toward_zero_bounds:
  "0 \<le> a \<Longrightarrow> 0 \<le> (of_int (toward_zero a) :: rat) \<and> of_int (toward_zero a) \<le> a \<and>
      a < of_int (toward_zero a) + 1"
  "a \<le> 0 \<Longrightarrow> a \<le> of_int (toward_zero a) \<and> (of_int (toward_zero a) :: rat) \<le> 0 \<and>
      of_int (toward_zero a) - 1 < a"
proof -
  have floor: "of_int \<lfloor>a\<rfloor> \<le> a" "a < of_int \<lfloor>a\<rfloor> + 1" by linarith+
  have ceiling: "of_int \<lceil>a\<rceil> - 1 < a" "a \<le> of_int \<lceil>a\<rceil>" by linarith+
  show "0 \<le> a \<Longrightarrow> 0 \<le> (of_int (toward_zero a) :: rat) \<and> of_int (toward_zero a) \<le> a \<and>
      a < of_int (toward_zero a) + 1"
    using floor by (simp add: toward_zero_def)
  show "a \<le> 0 \<Longrightarrow> a \<le> of_int (toward_zero a) \<and> (of_int (toward_zero a) :: rat) \<le> 0 \<and>
      of_int (toward_zero a) - 1 < a"
    using ceiling floor by (cases "a = 0") (simp_all add: toward_zero_def)
qed

lemma int_less_as_rat: "m < n \<Longrightarrow> (of_int m :: rat) + 1 \<le> of_int n"
proof -
  assume "m < n"
  then have "m + 1 \<le> n" by simp
  then have "(of_int (m + 1) :: rat) \<le> of_int n" by (simp only: of_int_le_iff)
  then show ?thesis by simp
qed

lemma toward_zero_near:
  assumes "\<bar>a - b\<bar> \<le> d" "d < 1"
  shows "\<bar>toward_zero a - toward_zero b\<bar> \<le> 1"
    and "toward_zero a = toward_zero b \<or> (\<exists>n. \<bar>b - of_int n\<bar> \<le> d)"
proof -
  define ta tb where "ta = toward_zero a" and "tb = toward_zero b"
  note A = toward_zero_bounds [of a, folded ta_def]
  note B = toward_zero_bounds [of b, folded tb_def]
  have "(of_int ta :: rat) - of_int tb < 2 \<and> (of_int tb :: rat) - of_int ta < 2"
    using assms A B by (cases "0 \<le> a"; cases "0 \<le> b") (simp_all, linarith+)
  then have "(of_int (ta - tb) :: rat) < of_int 2" "(of_int (tb - ta) :: rat) < of_int 2"
    by simp_all
  then have "ta - tb < 2" "tb - ta < 2"
    by (simp_all only: of_int_less_iff)
  then show "\<bar>toward_zero a - toward_zero b\<bar> \<le> 1"
    by (simp add: ta_def tb_def)
  show "toward_zero a = toward_zero b \<or> (\<exists>n. \<bar>b - of_int n\<bar> \<le> d)"
  proof (cases "ta = tb")
    case True
    then show ?thesis by (simp add: ta_def tb_def)
  next
    case False
    have "\<exists>n. \<bar>b - of_int n\<bar> \<le> d"
    proof (cases "ta < tb")
      case True
      note less = int_less_as_rat [OF True]
      show ?thesis
      proof (cases "0 \<le> b")
        case b: True
        show ?thesis
        proof (cases "0 \<le> a")
          case True
          with b less assms A B have "\<bar>b - of_int tb\<bar> \<le> d" by (simp; linarith)
          then show ?thesis ..
        next
          case False
          with b assms have "\<bar>b - of_int 0\<bar> \<le> d" by simp
          then show ?thesis ..
        qed
      next
        case b: False
        show ?thesis
        proof (cases "0 \<le> a")
          case True
          with b assms have "\<bar>b - of_int 0\<bar> \<le> d" by simp
          then show ?thesis ..
        next
          case False
          with b less assms A B have "\<bar>b - of_int ta\<bar> \<le> d" by (simp; linarith)
          then show ?thesis ..
        qed
      qed
    next
      case ge: False
      with False have "tb < ta" by simp
      note less = int_less_as_rat [OF this]
      show ?thesis
      proof (cases "0 \<le> b")
        case b: True
        show ?thesis
        proof (cases "0 \<le> a")
          case True
          with b less assms A B have "\<bar>b - of_int ta\<bar> \<le> d" by (simp; linarith)
          then show ?thesis ..
        next
          case False
          with b assms have "\<bar>b - of_int 0\<bar> \<le> d" by simp
          then show ?thesis ..
        qed
      next
        case b: False
        show ?thesis
        proof (cases "0 \<le> a")
          case True
          with b assms have "\<bar>b - of_int 0\<bar> \<le> d" by simp
          then show ?thesis ..
        next
          case False
          with b less assms A B have "\<bar>b - of_int tb\<bar> \<le> d" by (simp; linarith)
          then show ?thesis ..
        qed
      qed
    qed
    then show ?thesis ..
  qed
qed

lemma clamp_int_near: "\<bar>clamp a lo hi - clamp b lo hi\<bar> \<le> \<bar>a - b\<bar>" for a b :: int
  by (auto simp add: clamp_def max_def min_def)

lemma clamp_near:
  fixes a :: rat
  assumes "\<bar>a - a'\<bar> \<le> d" "\<bar>lo - lo'\<bar> \<le> d" "\<bar>hi - hi'\<bar> \<le> d"
  shows "\<bar>clamp a lo hi - clamp a' lo' hi'\<bar> \<le> d"
  using assms by (auto simp add: clamp_def max_def min_def)


section \<open>The blend in single precision\<close>

lemma abs_mult_le:
  fixes a b :: rat
  assumes "\<bar>a\<bar> \<le> A" "\<bar>b\<bar> \<le> B"
  shows "\<bar>a * b\<bar> \<le> A * B"
proof -
  have "\<bar>a * b\<bar> = \<bar>a\<bar> * \<bar>b\<bar>" by (rule abs_mult)
  also have "\<dots> \<le> A * B"
    using assms by (intro mult_mono) simp_all
  finally show ?thesis .
qed

lemma abs_of_int_le:
  "\<bar>x\<bar> \<le> n \<Longrightarrow> \<bar>of_int x :: rat\<bar> \<le> of_int n"
  unfolding of_int_abs [symmetric] of_int_le_iff .

lemma single_blend_value_near:
  assumes alpha: "0 \<le> af" "af \<le> 1" "\<bar>af - ae\<bar> \<le> 1 / 262144"
    and x: "\<bar>x\<bar> \<le> 128" and l: "\<bar>l\<bar> \<le> 128"
  shows "\<bar>single_blend_value af x l - blend_value ae x l\<bar> \<le> 1 / 512"
    and "\<bar>single_blend_value af x l\<bar> \<le> 513"
proof -
  define X L :: rat where "X = of_int x" and "L = of_int l"
  have X: "\<bar>X\<bar> \<le> 128" and L: "\<bar>L\<bar> \<le> 128"
    using abs_of_int_le [OF x] abs_of_int_le [OF l] by (simp_all add: X_def L_def)
  define om where "om = binary32_round (1 - af)"
  define p1 where "p1 = binary32_round (X * af)"
  define p2 where "p2 = binary32_round (L * om)"
  define s where "s = binary32_round (p1 + p2)"
  define e2 where "e2 = om - (1 - af)"
  define e1 where "e1 = p1 - X * af"
  define e3 where "e3 = p2 - L * om"
  define e4 where "e4 = s - (p1 + p2)"
  have af: "\<bar>af\<bar> \<le> 1" "\<bar>1 - af\<bar> \<le> 1" using alpha by simp_all
  have E2: "\<bar>e2\<bar> \<le> 1 / 16777216"
    unfolding e2_def om_def using af(2) by (rule binary32_round_near)
  have "\<bar>X * af\<bar> \<le> 128 * 1" using X af(1) by (rule abs_mult_le)
  then have Xaf: "\<bar>X * af\<bar> \<le> 128" by simp
  then have E1: "\<bar>e1\<bar> \<le> 1 / 131072"
    unfolding e1_def p1_def by (rule binary32_round_near)
  have om: "\<bar>om\<bar> \<le> 2" using E2 af(2) unfolding e2_def by linarith
  have "\<bar>L * om\<bar> \<le> 128 * 2" using L om by (rule abs_mult_le)
  then have Lom: "\<bar>L * om\<bar> \<le> 256" by simp
  then have E3: "\<bar>e3\<bar> \<le> 1 / 65536"
    unfolding e3_def p2_def by (rule binary32_round_near)
  have "\<bar>p1 + p2\<bar> \<le> 512"
    using E1 E3 Xaf Lom unfolding e1_def e3_def by linarith
  then have E4: "\<bar>e4\<bar> \<le> 1 / 32768"
    unfolding e4_def s_def by (rule binary32_round_near)
  define m1 where "m1 = (X - L) * (af - ae)"
  define m2 where "m2 = L * e2"
  have "\<bar>X - L\<bar> \<le> 256" using X L by linarith
  then have "\<bar>m1\<bar> \<le> 256 * (1 / 262144)"
    unfolding m1_def using alpha(3) by (rule abs_mult_le)
  then have M1: "\<bar>m1\<bar> \<le> 1 / 1024" by simp
  have "\<bar>m2\<bar> \<le> 128 * (1 / 16777216)"
    unfolding m2_def using L E2 by (rule abs_mult_le)
  then have M2: "\<bar>m2\<bar> \<le> 1 / 131072" by simp
  have s: "single_blend_value af x l = s"
    by (simp add: single_blend_value_def s_def p1_def p2_def om_def X_def L_def)
  have "s - blend_value ae x l = e4 + e1 + e3 + m1 + m2"
    by (simp add: blend_value_def e4_def e1_def e3_def e2_def m1_def m2_def X_def L_def
        algebra_simps)
  with E1 E3 E4 M1 M2 show "\<bar>single_blend_value af x l - blend_value ae x l\<bar> \<le> 1 / 512"
    unfolding s by linarith
  have "\<bar>s\<bar> \<le> 513"
    using E4 \<open>\<bar>p1 + p2\<bar> \<le> 512\<close> unfolding e4_def by linarith
  then show "\<bar>single_blend_value af x l\<bar> \<le> 513" by (simp add: s)
qed

lemma single_blend_near:
  assumes alpha: "0 \<le> af" "af \<le> 1" "\<bar>af - ae\<bar> \<le> 1 / 262144"
    and x: "\<bar>x\<bar> \<le> 128" and l: "\<bar>l\<bar> \<le> 128"
  shows "\<bar>single_blend af x l - blend ae x l\<bar> \<le> 1"
    and "single_blend af x l = blend ae x l \<or>
         (\<exists>n. \<bar>blend_value ae x l - of_int n\<bar> \<le> 1 / 512)"
proof -
  note near = single_blend_value_near(1) [OF assms]
  have small: "(1::rat) / 512 < 1" by simp
  note tz = toward_zero_near [OF near small]
  have "\<bar>single_blend af x l - blend ae x l\<bar>
      \<le> \<bar>toward_zero (single_blend_value af x l) - toward_zero (blend_value ae x l)\<bar>"
    unfolding single_blend_def blend_def by (rule clamp_int_near)
  with tz(1) show "\<bar>single_blend af x l - blend ae x l\<bar> \<le> 1" by simp
  from tz(2) show "single_blend af x l = blend ae x l \<or>
         (\<exists>n. \<bar>blend_value ae x l - of_int n\<bar> \<le> 1 / 512)"
    by (auto simp add: single_blend_def blend_def)
qed


section \<open>The two alphas\<close>

lemma clamp_bounds:
  fixes x :: rat
  assumes "0 \<le> lo" "lo \<le> 1" "hi \<le> 1"
  shows "0 \<le> clamp x lo hi" "clamp x lo hi \<le> 1"
  using assms by (auto simp add: clamp_def max_def min_def)

lemma single_exponential_alpha_near:
  assumes "75 < sf" "sf \<le> 100"
  shows "\<bar>single_exponential_alpha sf - exponential_alpha sf\<bar> \<le> 1 / 262144"
    and "0 \<le> single_exponential_alpha sf" and "single_exponential_alpha sf \<le> 1"
proof -
  define q :: rat where "q = of_int (100 - sf) / 100"
  have "0 \<le> (of_int (100 - sf) :: rat)" "(of_int (100 - sf) :: rat) \<le> of_int 25"
    using assms by (simp_all only: of_int_0_le_iff of_int_le_iff)
  then have "\<bar>q\<bar> \<le> 1" by (simp add: q_def)
  then have "\<bar>binary32_round q - q\<bar> \<le> 1 / 16777216" by (rule binary32_round_near)
  then have a: "\<bar>binary32_round q - q\<bar> \<le> 1 / 262144" by linarith
  have "\<bar>binary32_round (1 / 100) - 1 / 100\<bar> \<le> 1 / 16777216"
    by (rule binary32_round_near) simp
  then have lo: "\<bar>binary32_round (1 / 100) - 1 / 100\<bar> \<le> 1 / 262144" by linarith
  have hi: "\<bar>(1::rat) - 1\<bar> \<le> 1 / 262144" by simp
  show "\<bar>single_exponential_alpha sf - exponential_alpha sf\<bar> \<le> 1 / 262144"
    unfolding single_exponential_alpha_def exponential_alpha_def q_def [symmetric]
    using a lo hi by (rule clamp_near)
  have "0 \<le> binary32_round (1 / 100)" by (rule binary32_round_nonneg) simp
  moreover have "binary32_round (1 / 100) \<le> 1" using lo by linarith
  ultimately show "0 \<le> single_exponential_alpha sf" "single_exponential_alpha sf \<le> 1"
    unfolding single_exponential_alpha_def by (simp_all add: clamp_bounds)
qed

lemma single_adaptive_alpha_near:
  assumes rs: "0 \<le> rs" "rs \<le> 100" and x: "\<bar>x\<bar> \<le> 128" and y: "\<bar>y\<bar> \<le> 128"
  shows "\<bar>single_adaptive_alpha rs x y - adaptive_alpha rs x y\<bar> \<le> 1 / 262144"
    and "0 \<le> single_adaptive_alpha rs x y" and "single_adaptive_alpha rs x y \<le> 1"
proof -
  define b :: rat where "b = of_int rs / 100"
  define vq :: rat where "vq = of_int (\<bar>x\<bar> + \<bar>y\<bar>) / 20"
  define bf where "bf = binary32_round b"
  define vf where "vf = clamp (binary32_round vq) 0 1"
  define ve where "ve = clamp vq 0 1"
  define omb where "omb = binary32_round (1 - bf)"
  define t where "t = binary32_round (omb * vf)"
  define a where "a = binary32_round (bf + t)"
  have "0 \<le> (of_int rs :: rat)" "(of_int rs :: rat) \<le> of_int 100"
    using rs by (simp_all only: of_int_0_le_iff of_int_le_iff)
  then have b: "0 \<le> b" "b \<le> 1" by (simp_all add: b_def)
  have "0 \<le> \<bar>x\<bar> + \<bar>y\<bar>" "\<bar>x\<bar> + \<bar>y\<bar> \<le> 256" using x y by simp_all
  then have "0 \<le> (of_int (\<bar>x\<bar> + \<bar>y\<bar>) :: rat)" "(of_int (\<bar>x\<bar> + \<bar>y\<bar>) :: rat) \<le> of_int 256"
    by (simp_all only: of_int_0_le_iff of_int_le_iff)
  then have vq: "\<bar>vq\<bar> \<le> 16" by (simp add: vq_def)
  define eb where "eb = bf - b"
  define eo where "eo = omb - (1 - bf)"
  define et where "et = t - omb * vf"
  define ea where "ea = a - (bf + t)"
  have EB: "\<bar>eb\<bar> \<le> 1 / 16777216"
    unfolding eb_def bf_def using b by (intro binary32_round_near) simp
  have "\<bar>binary32_round vq - vq\<bar> \<le> 1 / 1048576"
    using vq by (rule binary32_round_near)
  moreover have "\<bar>(0::rat) - 0\<bar> \<le> 1 / 1048576" "\<bar>(1::rat) - 1\<bar> \<le> 1 / 1048576" by simp_all
  ultimately have EV: "\<bar>vf - ve\<bar> \<le> 1 / 1048576"
    unfolding vf_def ve_def by (rule clamp_near)
  have vf: "0 \<le> vf" "vf \<le> 1" unfolding vf_def by (simp_all add: clamp_bounds)
  then have vf': "\<bar>vf\<bar> \<le> 1" by simp
  have "\<bar>1 - bf\<bar> \<le> 2" using EB b unfolding eb_def by linarith
  then have EO: "\<bar>eo\<bar> \<le> 1 / 8388608"
    unfolding eo_def omb_def by (rule binary32_round_near)
  have omb: "\<bar>omb\<bar> \<le> 2" using EO EB b unfolding eo_def eb_def by linarith
  have "\<bar>omb * vf\<bar> \<le> 2 * 1" using omb vf' by (rule abs_mult_le)
  then have ov: "\<bar>omb * vf\<bar> \<le> 2" by simp
  then have ET: "\<bar>et\<bar> \<le> 1 / 8388608"
    unfolding et_def t_def by (rule binary32_round_near)
  have "\<bar>bf + t\<bar> \<le> 4" using ET ov EB b unfolding et_def eb_def by linarith
  then have EA: "\<bar>ea\<bar> \<le> 1 / 4194304"
    unfolding ea_def a_def by (rule binary32_round_near)
  define m1 where "m1 = (omb - (1 - b)) * vf"
  define m2 where "m2 = (1 - b) * (vf - ve)"
  have "\<bar>omb - (1 - b)\<bar> \<le> 3 / 16777216"
    using EO EB unfolding eo_def eb_def by linarith
  then have "\<bar>m1\<bar> \<le> 3 / 16777216 * 1"
    unfolding m1_def using vf' by (rule abs_mult_le)
  then have M1: "\<bar>m1\<bar> \<le> 3 / 16777216" by simp
  have "\<bar>1 - b\<bar> \<le> 1" using b by simp
  then have "\<bar>m2\<bar> \<le> 1 * (1 / 1048576)"
    unfolding m2_def using EV by (rule abs_mult_le)
  then have M2: "\<bar>m2\<bar> \<le> 1 / 1048576" by simp
  have "a - (b + (1 - b) * ve) = ea + eb + et + m1 + m2"
    by (simp add: ea_def eb_def et_def m1_def m2_def algebra_simps)
  with EA EB ET M1 M2 have inner: "\<bar>a - (b + (1 - b) * ve)\<bar> \<le> 1 / 262144"
    by linarith
  have "\<bar>binary32_round (1 / 10) - 1 / 10\<bar> \<le> 1 / 16777216"
    by (rule binary32_round_near) simp
  then have lo: "\<bar>binary32_round (1 / 10) - 1 / 10\<bar> \<le> 1 / 262144" by linarith
  have "\<bar>binary32_round (9 / 10) - 9 / 10\<bar> \<le> 1 / 16777216"
    by (rule binary32_round_near) simp
  then have hi: "\<bar>binary32_round (9 / 10) - 9 / 10\<bar> \<le> 1 / 262144" by linarith
  have single: "single_adaptive_alpha rs x y =
      clamp a (binary32_round (1 / 10)) (binary32_round (9 / 10))"
    by (simp add: single_adaptive_alpha_def Let_def a_def t_def omb_def vf_def bf_def vq_def b_def)
  have exact: "adaptive_alpha rs x y = clamp (b + (1 - b) * ve) (1 / 10) (9 / 10)"
    by (simp add: adaptive_alpha_def Let_def ve_def vq_def b_def)
  show "\<bar>single_adaptive_alpha rs x y - adaptive_alpha rs x y\<bar> \<le> 1 / 262144"
    unfolding single exact using inner lo hi by (rule clamp_near)
  have "0 \<le> binary32_round (1 / 10)" by (rule binary32_round_nonneg) simp
  moreover have "binary32_round (1 / 10) \<le> 1" using lo by linarith
  moreover have "binary32_round (9 / 10) \<le> 1" using hi by linarith
  ultimately show "0 \<le> single_adaptive_alpha rs x y" "single_adaptive_alpha rs x y \<le> 1"
    unfolding single by (simp_all add: clamp_bounds)
qed


section \<open>The code in single precision\<close>

lemma sint_LONG_of_int:
  assumes "- 2147483648 \<le> z" "z < 2147483648"
  shows "sint (word_of_int z :: LONG) = z"
proof -
  have "sint (word_of_int z :: LONG) = signed_take_bit 31 z"
    by (simp add: sint_sbintrunc')
  also have "\<dots> = z"
  proof (rule signed_take_bit_int_eq_self)
    from assms show "- (2 ^ 31) \<le> z" "z < 2 ^ 31" by simp_all
  qed
  finally show ?thesis .
qed

lemma sint_CHAR_range: "- 128 \<le> sint (x :: CHAR_t)" "sint x \<le> 127"
  using sint_ge [of x] sint_lt [of x] by simp_all

lemma sint_LONG_of_CHAR: "sint (LONG_of_CHAR x) = sint x"
  unfolding LONG_of_CHAR_def by (rule sint_up_scast) (simp add: is_up)

lemma sint_abs_LONG:
  assumes "- 2147483648 < sint (n :: LONG)"
  shows "sint (abs_LONG n) = \<bar>sint n\<bar>"
proof (cases "n <s 0")
  case True
  then have neg: "sint n < 0" by (simp add: word_sless_alt)
  have "sint (- n) = signed_take_bit 31 (- sint n)"
    by (simp add: sint_word_minus)
  also have "\<dots> = - sint n"
  proof (rule signed_take_bit_int_eq_self)
    from assms neg have "- 2147483648 \<le> - sint n" "- sint n < 2147483648" by simp_all
    then show "- (2 ^ 31) \<le> - sint n" "- sint n < 2 ^ 31" by simp_all
  qed
  finally show ?thesis using True neg by (simp add: abs_LONG_def)
next
  case False
  then show ?thesis by (simp add: abs_LONG_def word_sless_alt)
qed

lemma sint_velocity:
  "sint (abs_LONG (LONG_of_CHAR x) + abs_LONG (LONG_of_CHAR y)) = \<bar>sint x\<bar> + \<bar>sint y\<bar>"
proof -
  have x: "sint (abs_LONG (LONG_of_CHAR x)) = \<bar>sint x\<bar>"
    using sint_CHAR_range [of x] by (subst sint_abs_LONG) (simp_all add: sint_LONG_of_CHAR)
  have y: "sint (abs_LONG (LONG_of_CHAR y)) = \<bar>sint y\<bar>"
    using sint_CHAR_range [of y] by (subst sint_abs_LONG) (simp_all add: sint_LONG_of_CHAR)
  have "sint (abs_LONG (LONG_of_CHAR x) + abs_LONG (LONG_of_CHAR y)) =
      signed_take_bit 31 (\<bar>sint x\<bar> + \<bar>sint y\<bar>)"
    by (simp add: sint_word_add x y)
  also have "\<dots> = \<bar>sint x\<bar> + \<bar>sint y\<bar>"
  proof (rule signed_take_bit_int_eq_self)
    from sint_CHAR_range [of x] sint_CHAR_range [of y]
    have "- 2147483648 \<le> \<bar>sint x\<bar> + \<bar>sint y\<bar>" "\<bar>sint x\<bar> + \<bar>sint y\<bar> < 2147483648"
      by simp_all
    then show "- (2 ^ 31) \<le> \<bar>sint x\<bar> + \<bar>sint y\<bar>" "\<bar>sint x\<bar> + \<bar>sint y\<bar> < 2 ^ 31"
      by simp_all
  qed
  finally show ?thesis .
qed

lemma sint_complement:
  assumes "in_range sf"
  shows "sint (100 - sf) = 100 - sint sf"
proof -
  from assms have range: "0 \<le> sint sf" "sint sf \<le> 100" by (simp_all add: in_range_def)
  have "sint (100 - sf) = signed_take_bit 31 (100 - sint sf)"
    by (simp add: sint_word_diff)
  also have "\<dots> = 100 - sint sf"
  proof (rule signed_take_bit_int_eq_self)
    from range have "- 2147483648 \<le> 100 - sint sf" "100 - sint sf < 2147483648" by simp_all
    then show "- (2 ^ 31) \<le> 100 - sint sf" "100 - sint sf < 2 ^ 31" by simp_all
  qed
  finally show ?thesis .
qed

lemma clamp_LONG:
  assumes "- 2147483648 \<le> z" "z < 2147483648"
  shows "max_LONG (- 128) (min_LONG 127 (word_of_int z)) = word_of_int (clamp z (- 128) 127)"
proof -
  have "sint (word_of_int z :: LONG) = z" using assms by (rule sint_LONG_of_int)
  then show ?thesis
    by (auto simp add: max_LONG_def min_LONG_def word_sless_alt clamp_def max_def min_def)
qed

lemma binary32_simps:
  "LONG_of_FLOAT binary32 q = word_of_int (toward_zero q)"
  "FLOAT_literal binary32 q = binary32_round q"
  "FLOAT_add binary32 a b = binary32_round (a + b)"
  "FLOAT_sub binary32 a b = binary32_round (a - b)"
  "FLOAT_mul binary32 a b = binary32_round (a * b)"
  "FLOAT_div binary32 a b = binary32_round (a / b)"
  "min_FLOAT binary32 a b = min a b"
  "max_FLOAT binary32 a b = max a b"
  by (simp_all add: binary32_def min_FLOAT_def max_FLOAT_def min_def max_def)

lemma binary32_round_numerals:
  "binary32_round 1 = 1" "binary32_round 20 = 20" "binary32_round 100 = 100"
  using binary32_round_of_int [of 1] binary32_round_of_int [of 20] binary32_round_of_int [of 100]
  by simp_all

lemma FLOAT_of_small_LONG:
  assumes "\<bar>sint n\<bar> < 16777216"
  shows "FLOAT_of_LONG binary32 n = of_int (sint n)"
  using assms by (simp add: binary32_def binary32_round_of_int del: of_int_sint)

text \<open>The blend of one axis, as both algorithms compute it.\<close>

lemma blend_binary32:
  assumes alpha: "0 \<le> alpha" "alpha \<le> 1"
    and lastOutput: "- 128 \<le> sint lastOutput" "sint lastOutput \<le> 127"
  shows "max_LONG (- 128) (min_LONG 127 (LONG_of_FLOAT binary32
           (FLOAT_add binary32
             (FLOAT_mul binary32 (FLOAT_of_LONG binary32 (LONG_of_CHAR x)) alpha)
             (FLOAT_mul binary32 (FLOAT_of_LONG binary32 lastOutput)
                (FLOAT_sub binary32 (FLOAT_literal binary32 1) alpha))))) =
         word_of_int (single_blend alpha (sint x) (sint lastOutput))"
proof -
  have x: "\<bar>sint x\<bar> \<le> 128" using sint_CHAR_range [of x] by simp
  have l: "\<bar>sint lastOutput\<bar> \<le> 128" using lastOutput by simp
  have fx: "FLOAT_of_LONG binary32 (LONG_of_CHAR x) = of_int (sint x)"
    using x by (subst FLOAT_of_small_LONG) (simp_all add: sint_LONG_of_CHAR)
  have fl: "FLOAT_of_LONG binary32 lastOutput = of_int (sint lastOutput)"
    using l by (subst FLOAT_of_small_LONG) simp_all
  have sum: "FLOAT_add binary32
             (FLOAT_mul binary32 (FLOAT_of_LONG binary32 (LONG_of_CHAR x)) alpha)
             (FLOAT_mul binary32 (FLOAT_of_LONG binary32 lastOutput)
                (FLOAT_sub binary32 (FLOAT_literal binary32 1) alpha)) =
        single_blend_value alpha (sint x) (sint lastOutput)"
    unfolding fx fl by (simp add: binary32_simps binary32_round_numerals single_blend_value_def)
  have "\<bar>alpha - alpha\<bar> \<le> 1 / 262144" by simp
  with alpha have "\<bar>single_blend_value alpha (sint x) (sint lastOutput)\<bar> \<le> 513"
    using x l by (rule single_blend_value_near)
  then have "\<bar>toward_zero (single_blend_value alpha (sint x) (sint lastOutput))\<bar> \<le> 513"
    by (simp add: toward_zero_def) linarith
  then have "- 2147483648 \<le> toward_zero (single_blend_value alpha (sint x) (sint lastOutput))"
    "toward_zero (single_blend_value alpha (sint x) (sint lastOutput)) < 2147483648"
    by simp_all
  then show ?thesis
    unfolding sum
    unfolding binary32_simps single_blend_def by (rule clamp_LONG)
qed

lemma single_blend_range:
  "- 128 \<le> single_blend alpha x l" "single_blend alpha x l \<le> 127"
  by (simp_all add: single_blend_def clamp_def)

lemma sint_CHAR_of_blend:
  "sint (CHAR_of_LONG (word_of_int (single_blend alpha x l))) = single_blend alpha x l"
proof -
  define n :: LONG where "n = word_of_int (single_blend alpha x l)"
  have n: "sint n = single_blend alpha x l"
    unfolding n_def using single_blend_range [of alpha x l] by (intro sint_LONG_of_int) simp_all
  then have "- 128 \<le> sint n" "sint n \<le> 127"
    using single_blend_range [of alpha x l] by simp_all
  then have "LONG_of_CHAR (CHAR_of_LONG n) = n" by (rule CHAR_round_trip)
  then have "sint (CHAR_of_LONG n) = sint n"
    using sint_LONG_of_CHAR [of "CHAR_of_LONG n"] by simp
  with n show ?thesis by (simp add: n_def)
qed

lemma exponential_alpha_binary32:
  assumes "in_range sf"
  shows "max_FLOAT binary32 (FLOAT_literal binary32 (1 / 100))
           (min_FLOAT binary32 (FLOAT_literal binary32 1)
              (FLOAT_div binary32 (FLOAT_of_LONG binary32 (100 - sf)) (FLOAT_literal binary32 100))) =
         single_exponential_alpha (sint sf)"
proof -
  from assms have "0 \<le> sint sf" "sint sf \<le> 100" by (simp_all add: in_range_def)
  then have "\<bar>sint (100 - sf)\<bar> < 16777216"
    using assms by (simp add: sint_complement)
  then have "FLOAT_of_LONG binary32 (100 - sf) = of_int (sint (100 - sf))"
    by (rule FLOAT_of_small_LONG)
  then have complement: "FLOAT_of_LONG binary32 (100 - sf) = of_int (100 - sint sf)"
    by (simp only: sint_complement [OF assms])
  show ?thesis
    unfolding complement
    unfolding binary32_simps binary32_round_numerals single_exponential_alpha_def clamp_def
    by (rule refl)
qed

lemma adaptive_alpha_binary32:
  assumes "in_range rs"
  shows "max_FLOAT binary32 (FLOAT_literal binary32 (1 / 10))
           (min_FLOAT binary32 (FLOAT_literal binary32 (9 / 10))
              (FLOAT_add binary32
                 (FLOAT_div binary32 (FLOAT_of_LONG binary32 rs) (FLOAT_literal binary32 100))
                 (FLOAT_mul binary32
                    (FLOAT_sub binary32 (FLOAT_literal binary32 1)
                       (FLOAT_div binary32 (FLOAT_of_LONG binary32 rs) (FLOAT_literal binary32 100)))
                    (min_FLOAT binary32 (FLOAT_literal binary32 1)
                       (FLOAT_div binary32
                          (FLOAT_of_LONG binary32 (abs_LONG (LONG_of_CHAR x) + abs_LONG (LONG_of_CHAR y)))
                          (FLOAT_literal binary32 20)))))) =
         single_adaptive_alpha (sint rs) (sint x) (sint y)"
proof -
  from assms have "\<bar>sint rs\<bar> < 16777216" by (simp add: in_range_def)
  then have rs: "FLOAT_of_LONG binary32 rs = of_int (sint rs)" by (rule FLOAT_of_small_LONG)
  define v where "v = abs_LONG (LONG_of_CHAR x) + abs_LONG (LONG_of_CHAR y)"
  have sv: "sint v = \<bar>sint x\<bar> + \<bar>sint y\<bar>" unfolding v_def by (rule sint_velocity)
  then have "\<bar>sint v\<bar> < 16777216"
    using sint_CHAR_range [of x] sint_CHAR_range [of y] by simp
  then have "FLOAT_of_LONG binary32 v = of_int (sint v)" by (rule FLOAT_of_small_LONG)
  then have v: "FLOAT_of_LONG binary32 v = of_int (\<bar>sint x\<bar> + \<bar>sint y\<bar>)" by (simp only: sv)
  have "0 \<le> (of_int (\<bar>sint x\<bar> + \<bar>sint y\<bar>) :: rat) / 20" by simp
  then have "0 \<le> binary32_round (of_int (\<bar>sint x\<bar> + \<bar>sint y\<bar>) / 20)"
    by (rule binary32_round_nonneg)
  then have factor: "min 1 (binary32_round (of_int (\<bar>sint x\<bar> + \<bar>sint y\<bar>) / 20)) =
      clamp (binary32_round (of_int (\<bar>sint x\<bar> + \<bar>sint y\<bar>) / 20)) 0 1"
    by (simp add: clamp_def)
  show ?thesis
    unfolding v_def [symmetric] rs v
    unfolding binary32_simps binary32_round_numerals single_adaptive_alpha_def Let_def
    unfolding factor
    by (simp only: clamp_def)
qed

lemma ApplyExponentialSmoothing_binary32:
  assumes "in_range (SmoothingFactor FilterExt)" "75 <s SmoothingFactor FilterExt"
    and "outputs_ok FilterExt"
  shows "ApplyExponentialSmoothing binary32 FilterExt x y =
    (let alpha = single_exponential_alpha (sint (SmoothingFactor FilterExt));
         newX = word_of_int (single_blend alpha (sint x) (sint (LastXOutput FilterExt)));
         newY = word_of_int (single_blend alpha (sint y) (sint (LastYOutput FilterExt)))
     in (FilterExt\<lparr>LastXOutput := newX, LastYOutput := newY\<rparr>,
         CHAR_of_LONG newX, CHAR_of_LONG newY))"
proof -
  from assms(1,2) have "75 < sint (SmoothingFactor FilterExt)" "sint (SmoothingFactor FilterExt) \<le> 100"
    by (simp_all add: in_range_def word_sless_alt)
  then have alpha: "0 \<le> single_exponential_alpha (sint (SmoothingFactor FilterExt))"
    "single_exponential_alpha (sint (SmoothingFactor FilterExt)) \<le> 1"
    by (rule single_exponential_alpha_near)+
  from assms(3) have last: "- 128 \<le> sint (LastXOutput FilterExt)" "sint (LastXOutput FilterExt) \<le> 127"
    "- 128 \<le> sint (LastYOutput FilterExt)" "sint (LastYOutput FilterExt) \<le> 127"
    by (simp_all add: outputs_ok_def)
  show ?thesis
    unfolding ApplyExponentialSmoothing_def Let_def exponential_alpha_binary32 [OF assms(1)]
      blend_binary32 [OF alpha last(1,2)] blend_binary32 [OF alpha last(3,4)]
    by (rule refl)
qed

lemma ApplyAdaptiveFiltering_binary32:
  assumes "in_range (ResponseSpeed FilterExt)" and "outputs_ok FilterExt"
  shows "ApplyAdaptiveFiltering binary32 FilterExt x y =
    (let alpha = single_adaptive_alpha (sint (ResponseSpeed FilterExt)) (sint x) (sint y);
         newX = word_of_int (single_blend alpha (sint x) (sint (LastXOutput FilterExt)));
         newY = word_of_int (single_blend alpha (sint y) (sint (LastYOutput FilterExt)))
     in (FilterExt\<lparr>LastXOutput := newX, LastYOutput := newY\<rparr>,
         CHAR_of_LONG newX, CHAR_of_LONG newY))"
proof -
  from assms(1) have rs: "0 \<le> sint (ResponseSpeed FilterExt)" "sint (ResponseSpeed FilterExt) \<le> 100"
    by (simp_all add: in_range_def)
  have x: "\<bar>sint x\<bar> \<le> 128" using sint_CHAR_range [of x] by simp
  have y: "\<bar>sint y\<bar> \<le> 128" using sint_CHAR_range [of y] by simp
  have alpha: "0 \<le> single_adaptive_alpha (sint (ResponseSpeed FilterExt)) (sint x) (sint y)"
    "single_adaptive_alpha (sint (ResponseSpeed FilterExt)) (sint x) (sint y) \<le> 1"
    using rs x y by (rule single_adaptive_alpha_near)+
  from assms(2) have last: "- 128 \<le> sint (LastXOutput FilterExt)" "sint (LastXOutput FilterExt) \<le> 127"
    "- 128 \<le> sint (LastYOutput FilterExt)" "sint (LastYOutput FilterExt) \<le> 127"
    by (simp_all add: outputs_ok_def)
  show ?thesis
    unfolding ApplyAdaptiveFiltering_def Let_def adaptive_alpha_binary32 [OF assms(1)]
      blend_binary32 [OF alpha last(1,2)] blend_binary32 [OF alpha last(3,4)]
    by (rule refl)
qed


section \<open>Values in single precision\<close>

lemma binary32_round_0: "binary32_round 0 = 0"
  by (simp add: binary32_round_def)

lemma binary32_literals:
  "binary32_round (1 / 100) = 5368709 / 536870912"
  "binary32_round (1 / 10) = 13421773 / 134217728"
  "binary32_round (9 / 10) = 7549747 / 8388608"
     apply (rule trans [OF binary32_round_eqI [where e = "- 7" and m = 10737418]];
       simp add: round_to_even_eqI)
    apply (rule trans [OF binary32_round_eqI [where e = "- 4" and m = 13421773]];
      simp add: round_to_even_eqI)
  apply (rule trans [OF binary32_round_eqI [where e = "- 1" and m = 15099494]];
      simp add: round_to_even_eqI)
  done

lemma binary32_exact_values:
  "binary32_round (1 / 2) = 1 / 2"
  "binary32_round (1 / 4) = 1 / 4"
  "binary32_round (3 / 4) = 3 / 4"
  "binary32_round (15 / 2) = 15 / 2"
  "binary32_round (7130317 / 16777216) = 7130317 / 16777216"
  "binary32_round (15518925 / 16777216) = 15518925 / 16777216"
  "binary32_round (838861 / 8388608) = 838861 / 8388608"
  "binary32_round (5872027 / 8388608) = 5872027 / 8388608"
         apply (rule trans [OF binary32_round_eqI [where e = "- 1" and m = 8388608]];
           simp add: round_to_even_eqI)
        apply (rule trans [OF binary32_round_eqI [where e = "- 2" and m = 8388608]];
          simp add: round_to_even_eqI)
       apply (rule trans [OF binary32_round_eqI [where e = "- 1" and m = 12582912]];
         simp add: round_to_even_eqI)
      apply (rule trans [OF binary32_round_eqI [where e = 2 and m = 15728640]];
        simp add: round_to_even_eqI)
     apply (rule trans [OF binary32_round_eqI [where e = "- 2" and m = 14260634]];
       simp add: round_to_even_eqI)
    apply (rule trans [OF binary32_round_eqI [where e = "- 1" and m = 15518925]];
      simp add: round_to_even_eqI)
   apply (rule trans [OF binary32_round_eqI [where e = "- 4" and m = 13421776]];
     simp add: round_to_even_eqI)
  apply (rule trans [OF binary32_round_eqI [where e = "- 1" and m = 11744054]];
    simp add: round_to_even_eqI)
  done

lemma binary32_rounded_values:
  "binary32_round (335544325 / 33554432) = 10"
  "binary32_round (201326595 / 67108864) = 3"
  "binary32_round (40265319 / 134217728) = 5033165 / 16777216"
  "binary32_round (120795955 / 134217728) = 7549747 / 8388608"
  "binary32_round (50331645 / 16777216) = 12582911 / 4194304"
  "binary32_round (17 / 20) = 7130317 / 8388608"
  "binary32_round (128345699 / 8388608) = 4010803 / 262144"
  "binary32_round (134217723 / 8388608) = 16777215 / 1048576"
  "binary32_round (37748735 / 2097152) = 18"
          apply (rule trans [OF binary32_round_eqI [where e = 3 and m = 10485760]];
           simp add: round_to_even_eqI)
        apply (rule trans [OF binary32_round_eqI [where e = 1 and m = 12582912]];
          simp add: round_to_even_eqI)
       apply (rule trans [OF binary32_round_eqI [where e = "- 2" and m = 10066330]];
         simp add: round_to_even_eqI)
      apply (rule trans [OF binary32_round_eqI [where e = "- 1" and m = 15099494]];
        simp add: round_to_even_eqI)
     apply (rule trans [OF binary32_round_eqI [where e = 1 and m = 12582911]];
       simp add: round_to_even_eqI)
    apply (rule trans [OF binary32_round_eqI [where e = "- 1" and m = 14260634]];
      simp add: round_to_even_eqI)
   apply (rule trans [OF binary32_round_eqI [where e = 3 and m = 16043212]];
     simp add: round_to_even_eqI)
   apply (rule trans [OF binary32_round_eqI [where e = 3 and m = 16777215]];
     simp add: round_to_even_eqI)
  apply (rule trans [OF binary32_round_eqI [where e = 4 and m = 9437184]];
    simp add: round_to_even_eqI)
  done

text \<open>A tie: \<open>3 \<sqdot> 0.9f\<close> lies halfway between two single-precision numbers and goes to
  the one with the even mantissa, below it.\<close>

lemma binary32_tie:
  "binary32_round (22649241 / 8388608) = 2831155 / 1048576"
  by (rule trans [OF binary32_round_eqI [where e = 1 and m = 11324620]])
     (simp_all add: round_to_even_tie [where n = 11324620])

lemma binary32_small_integers:
  "binary32_round 3 = 3" "binary32_round 10 = 10" "binary32_round 18 = 18"
  using binary32_round_of_int [of 3] binary32_round_of_int [of 10] binary32_round_of_int [of 18]
  by simp_all

lemmas binary32_values = binary32_round_0 binary32_literals binary32_exact_values
  binary32_rounded_values binary32_tie binary32_small_integers binary32_round_numerals

lemma single_exponential_alpha_90: "single_exponential_alpha 90 = 13421773 / 134217728"
  by (simp add: single_exponential_alpha_def clamp_def binary32_values)

lemma exponential_alpha_90: "exponential_alpha 90 = 1 / 10"
  by (simp add: exponential_alpha_def clamp_def)

lemma single_blend_exponential:
  "single_blend (13421773 / 134217728) 100 0 = 10"
  "single_blend (13421773 / 134217728) 30 0 = 3"
  "single_blend (13421773 / 134217728) 3 3 = 2"
  "single_blend (13421773 / 134217728) 0 0 = 0"
  by (simp_all add: single_blend_def single_blend_value_def toward_zero_def clamp_def
      binary32_values floor_eq_iff)

lemma blend_exponential:
  "blend (1 / 10) 100 0 = 10" "blend (1 / 10) 3 3 = 3"
  by (simp_all add: blend_def blend_value_def toward_zero_def clamp_def)

lemma single_adaptive_alpha_50:
  "single_adaptive_alpha 50 10 0 = 3 / 4"
  "single_adaptive_alpha 50 17 0 = 7549747 / 8388608"
  by (simp_all add: single_adaptive_alpha_def Let_def clamp_def binary32_values)

lemma adaptive_alpha_50: "adaptive_alpha 50 17 0 = 9 / 10"
  by (simp add: adaptive_alpha_def Let_def clamp_def)

lemma single_blend_adaptive:
  "single_blend (3 / 4) 10 0 = 7"
  "single_blend (3 / 4) 0 0 = 0"
  "single_blend (7549747 / 8388608) 17 7 = 15"
  "single_blend (7549747 / 8388608) 0 0 = 0"
  "single_blend (7549747 / 8388608) 20 0 = 18"
  by (simp_all add: single_blend_def single_blend_value_def toward_zero_def clamp_def
      binary32_values floor_eq_iff)

lemma blend_adaptive: "blend (9 / 10) 17 7 = 16" "blend (9 / 10) 20 0 = 18"
  by (simp_all add: blend_def blend_value_def toward_zero_def clamp_def)

text \<open>With \<open>ResponseSpeed\<close> 100 the base alpha is 1, the sum is 1 whatever the velocity,
  and the clamp brings it to \<open>0.9f\<close>.\<close>

lemma single_adaptive_alpha_100:
  "single_adaptive_alpha 100 x y = binary32_round (9 / 10)"
  by (simp add: single_adaptive_alpha_def Let_def clamp_def binary32_values)

lemma adaptive_alpha_100: "adaptive_alpha 100 x y = 9 / 10"
  by (simp add: adaptive_alpha_def Let_def clamp_def)


section \<open>The last outputs stay in the range of a report\<close>

lemma added_device_outputs_ok: "outputs_ok added_device"
  by (simp add: outputs_ok_def added_device_def HidFilterDriverDeviceAdd_def zeroed_context_def)

lemma ProcessMouseInput_algorithm:
  assumes "FilterActive FilterExt \<noteq> 0"
  shows "X (fst (ProcessMouseInput fl Report FilterExt)) =
           fst (snd (run_algorithm fl (selected (sint (SmoothingFactor FilterExt)))
             (store_history Report FilterExt) (X Report) (Y Report)))"
    and "Y (fst (ProcessMouseInput fl Report FilterExt)) =
           snd (snd (run_algorithm fl (selected (sint (SmoothingFactor FilterExt)))
             (store_history Report FilterExt) (X Report) (Y Report)))"
    and "LastXOutput (fst (snd (ProcessMouseInput fl Report FilterExt))) =
           LastXOutput (fst (run_algorithm fl (selected (sint (SmoothingFactor FilterExt)))
             (store_history Report FilterExt) (X Report) (Y Report)))"
    and "LastYOutput (fst (snd (ProcessMouseInput fl Report FilterExt))) =
           LastYOutput (fst (run_algorithm fl (selected (sint (SmoothingFactor FilterExt)))
             (store_history Report FilterExt) (X Report) (Y Report)))"
  using assms
  by (simp_all add: ProcessMouseInput_def apply_filter_selected store_history_keeps
      split: prod.split)

lemma ProcessMouseInput_outputs_ok:
  assumes "outputs_ok FilterExt"
  shows "outputs_ok (fst (snd (ProcessMouseInput fl Report FilterExt)))"
proof (cases "FilterActive FilterExt = 0")
  case True
  with assms show ?thesis by (simp add: ProcessMouseInput_def)
next
  case False
  obtain FilterExt' x' y' where alg:
    "run_algorithm fl (selected (sint (SmoothingFactor FilterExt)))
       (store_history Report FilterExt) (X Report) (Y Report) = (FilterExt', x', y')"
    by (rule prod_cases3)
  from algorithm_output_clamped [OF alg] show ?thesis
    by (simp add: outputs_ok_def ProcessMouseInput_algorithm [OF False] alg)
qed

lemma HidFilterDriverIoDeviceControl_outputs:
  "LastXOutput (fst (HidFilterDriverIoDeviceControl wdf filterExt Request
       OutputBufferLength InputBufferLength IoControlCode)) = LastXOutput filterExt"
  "LastYOutput (fst (HidFilterDriverIoDeviceControl wdf filterExt Request
       OutputBufferLength InputBufferLength IoControlCode)) = LastYOutput filterExt"
  by (auto simp add: HidFilterDriverIoDeviceControl_def Let_def
      split: prod.splits option.splits)

lemma deliver_outputs_ok:
  assumes "outputs_ok filterExt"
  shows "outputs_ok (fst (deliver fl filterExt d))"
proof (cases d)
  case (DeviceControl wdf Request IoControlCode)
  with assms show ?thesis
    by (simp add: outputs_ok_def HidFilterDriverIoDeviceControl_outputs)
next
  case (InternalDeviceControl wdf Request IoControlCode)
  have "outputs_ok (fst (snd (ProcessMouseInput fl
          (report_of_buffer (snd (WdfRequestRetrieveInputMemory wdf Request))) filterExt)))"
    using assms by (rule ProcessMouseInput_outputs_ok)
  with assms InternalDeviceControl show ?thesis
    by (auto simp add: HidFilterDriverIoInternalDeviceControl_def Let_def split: prod.splits)
next
  case (Other wdf Request)
  with assms show ?thesis by (simp add: HidFilterQueueDefault_def)
qed

text \<open>In every context that a run of the driver reaches from a device just added, the
  last outputs are within \<open>- 128\<close> and 127.\<close>

lemma run_outputs_ok:
  "outputs_ok filterExt \<Longrightarrow> outputs_ok (fst (run fl filterExt ds))"
proof (induction ds arbitrary: filterExt)
  case Nil
  then show ?case by simp
next
  case (Cons d ds)
  from Cons.prems have "outputs_ok (fst (deliver fl filterExt d))"
    by (rule deliver_outputs_ok)
  then have "outputs_ok (fst (run fl (fst (deliver fl filterExt d)) ds))"
    by (rule Cons.IH)
  then show ?case
    by (simp add: split_beta)
qed

lemma reachable_outputs_ok: "outputs_ok (fst (run fl added_device ds))"
  using added_device_outputs_ok by (rule run_outputs_ok)

section \<open>Exponential smoothing\<close>

lemma LONG_of_CHAR_of_blend:
  "LONG_of_CHAR (CHAR_of_LONG (word_of_int (single_blend alpha x l))) =
     word_of_int (single_blend alpha x l)"
proof (rule CHAR_round_trip)
  have "sint (word_of_int (single_blend alpha x l) :: LONG) = single_blend alpha x l"
    using single_blend_range [of alpha x l] by (intro sint_LONG_of_int) simp_all
  then show "- 128 \<le> sint (word_of_int (single_blend alpha x l) :: LONG)"
    and "sint (word_of_int (single_blend alpha x l) :: LONG) \<le> 127"
    using single_blend_range [of alpha x l] by simp_all
qed

lemma ProcessMouseInput_exponential:
  assumes "FilterActive FilterExt \<noteq> 0" and "in_range (SmoothingFactor FilterExt)"
    and "selected (sint (SmoothingFactor FilterExt)) = Exponential" and "outputs_ok FilterExt"
  shows "X (fst (ProcessMouseInput binary32 Report FilterExt)) =
           CHAR_of_LONG (word_of_int (single_blend
             (single_exponential_alpha (sint (SmoothingFactor FilterExt)))
             (sint (X Report)) (sint (LastXOutput FilterExt))))"
    and "Y (fst (ProcessMouseInput binary32 Report FilterExt)) =
           CHAR_of_LONG (word_of_int (single_blend
             (single_exponential_alpha (sint (SmoothingFactor FilterExt)))
             (sint (Y Report)) (sint (LastYOutput FilterExt))))"
    and "LastXOutput (fst (snd (ProcessMouseInput binary32 Report FilterExt))) =
           word_of_int (single_blend
             (single_exponential_alpha (sint (SmoothingFactor FilterExt)))
             (sint (X Report)) (sint (LastXOutput FilterExt)))"
    and "LastYOutput (fst (snd (ProcessMouseInput binary32 Report FilterExt))) =
           word_of_int (single_blend
             (single_exponential_alpha (sint (SmoothingFactor FilterExt)))
             (sint (Y Report)) (sint (LastYOutput FilterExt)))"
proof -
  define stored where "stored = store_history Report FilterExt"
  have keeps: "SmoothingFactor stored = SmoothingFactor FilterExt"
    "LastXOutput stored = LastXOutput FilterExt" "LastYOutput stored = LastYOutput FilterExt"
    by (simp_all add: stored_def store_history_keeps)
  have "in_range (SmoothingFactor stored)" using assms(2) by (simp add: keeps)
  moreover have "75 <s SmoothingFactor stored"
    using assms(3) by (simp add: keeps selected_def word_sless_alt split: if_splits)
  moreover have "outputs_ok stored" using assms(4) by (simp add: outputs_ok_def keeps)
  ultimately have alg: "ApplyExponentialSmoothing binary32 stored x y =
    (let alpha = single_exponential_alpha (sint (SmoothingFactor stored));
         newX = word_of_int (single_blend alpha (sint x) (sint (LastXOutput stored)));
         newY = word_of_int (single_blend alpha (sint y) (sint (LastYOutput stored)))
     in (stored\<lparr>LastXOutput := newX, LastYOutput := newY\<rparr>,
         CHAR_of_LONG newX, CHAR_of_LONG newY))" for x y
    by (rule ApplyExponentialSmoothing_binary32)
  note pmi = ProcessMouseInput_algorithm [OF assms(1), of binary32 Report, folded stored_def]
  show "X (fst (ProcessMouseInput binary32 Report FilterExt)) =
           CHAR_of_LONG (word_of_int (single_blend
             (single_exponential_alpha (sint (SmoothingFactor FilterExt)))
             (sint (X Report)) (sint (LastXOutput FilterExt))))"
    and "Y (fst (ProcessMouseInput binary32 Report FilterExt)) =
           CHAR_of_LONG (word_of_int (single_blend
             (single_exponential_alpha (sint (SmoothingFactor FilterExt)))
             (sint (Y Report)) (sint (LastYOutput FilterExt))))"
    and "LastXOutput (fst (snd (ProcessMouseInput binary32 Report FilterExt))) =
           word_of_int (single_blend
             (single_exponential_alpha (sint (SmoothingFactor FilterExt)))
             (sint (X Report)) (sint (LastXOutput FilterExt)))"
    and "LastYOutput (fst (snd (ProcessMouseInput binary32 Report FilterExt))) =
           word_of_int (single_blend
             (single_exponential_alpha (sint (SmoothingFactor FilterExt)))
             (sint (Y Report)) (sint (LastYOutput FilterExt)))"
    by (simp_all add: pmi assms(3) alg Let_def keeps)
qed

lemma ProcessMouseInput_adaptive:
  assumes "FilterActive FilterExt \<noteq> 0" and "in_range (ResponseSpeed FilterExt)"
    and "selected (sint (SmoothingFactor FilterExt)) = Adaptive" and "outputs_ok FilterExt"
  shows "X (fst (ProcessMouseInput binary32 Report FilterExt)) =
           CHAR_of_LONG (word_of_int (single_blend
             (single_adaptive_alpha (sint (ResponseSpeed FilterExt)) (sint (X Report)) (sint (Y Report)))
             (sint (X Report)) (sint (LastXOutput FilterExt))))"
    and "Y (fst (ProcessMouseInput binary32 Report FilterExt)) =
           CHAR_of_LONG (word_of_int (single_blend
             (single_adaptive_alpha (sint (ResponseSpeed FilterExt)) (sint (X Report)) (sint (Y Report)))
             (sint (Y Report)) (sint (LastYOutput FilterExt))))"
    and "LastXOutput (fst (snd (ProcessMouseInput binary32 Report FilterExt))) =
           word_of_int (single_blend
             (single_adaptive_alpha (sint (ResponseSpeed FilterExt)) (sint (X Report)) (sint (Y Report)))
             (sint (X Report)) (sint (LastXOutput FilterExt)))"
    and "LastYOutput (fst (snd (ProcessMouseInput binary32 Report FilterExt))) =
           word_of_int (single_blend
             (single_adaptive_alpha (sint (ResponseSpeed FilterExt)) (sint (X Report)) (sint (Y Report)))
             (sint (Y Report)) (sint (LastYOutput FilterExt)))"
proof -
  define stored where "stored = store_history Report FilterExt"
  have keeps: "ResponseSpeed stored = ResponseSpeed FilterExt"
    "LastXOutput stored = LastXOutput FilterExt" "LastYOutput stored = LastYOutput FilterExt"
    by (simp_all add: stored_def store_history_keeps)
  have "in_range (ResponseSpeed stored)" using assms(2) by (simp add: keeps)
  moreover have "outputs_ok stored" using assms(4) by (simp add: outputs_ok_def keeps)
  ultimately have alg: "ApplyAdaptiveFiltering binary32 stored x y =
    (let alpha = single_adaptive_alpha (sint (ResponseSpeed stored)) (sint x) (sint y);
         newX = word_of_int (single_blend alpha (sint x) (sint (LastXOutput stored)));
         newY = word_of_int (single_blend alpha (sint y) (sint (LastYOutput stored)))
     in (stored\<lparr>LastXOutput := newX, LastYOutput := newY\<rparr>,
         CHAR_of_LONG newX, CHAR_of_LONG newY))" for x y
    by (rule ApplyAdaptiveFiltering_binary32)
  note pmi = ProcessMouseInput_algorithm [OF assms(1), of binary32 Report, folded stored_def]
  show "X (fst (ProcessMouseInput binary32 Report FilterExt)) =
           CHAR_of_LONG (word_of_int (single_blend
             (single_adaptive_alpha (sint (ResponseSpeed FilterExt)) (sint (X Report)) (sint (Y Report)))
             (sint (X Report)) (sint (LastXOutput FilterExt))))"
    and "Y (fst (ProcessMouseInput binary32 Report FilterExt)) =
           CHAR_of_LONG (word_of_int (single_blend
             (single_adaptive_alpha (sint (ResponseSpeed FilterExt)) (sint (X Report)) (sint (Y Report)))
             (sint (Y Report)) (sint (LastYOutput FilterExt))))"
    and "LastXOutput (fst (snd (ProcessMouseInput binary32 Report FilterExt))) =
           word_of_int (single_blend
             (single_adaptive_alpha (sint (ResponseSpeed FilterExt)) (sint (X Report)) (sint (Y Report)))
             (sint (X Report)) (sint (LastXOutput FilterExt)))"
    and "LastYOutput (fst (snd (ProcessMouseInput binary32 Report FilterExt))) =
           word_of_int (single_blend
             (single_adaptive_alpha (sint (ResponseSpeed FilterExt)) (sint (X Report)) (sint (Y Report)))
             (sint (Y Report)) (sint (LastYOutput FilterExt)))"
    by (simp_all add: pmi assms(3) alg Let_def keeps)
qed


lemma active_device_simps:
  "FilterActive active_device = 1" "SmoothingFactor active_device = 50"
  "ResponseSpeed active_device = 50" "FilteringStrength active_device = 50"
  "LastXOutput active_device = 0" "LastYOutput active_device = 0"
  by (simp_all add: active_device_def added_device_def HidFilterDriverDeviceAdd_def
      zeroed_context_def)

lemma active_device_ok: "extension_ok active_device"
  using added_device_ok
  by (simp add: active_device_def extension_ok_def ring_ok_def)

lemma move_simps: "X (move x y) = x" "Y (move x y) = y"
  by (simp_all add: move_def)

lemma exponential_device_simps:
  "FilterActive exponential_device \<noteq> 0" "extension_ok exponential_device"
  "outputs_ok exponential_device"
  "selected (sint (SmoothingFactor exponential_device)) = Exponential"
  "SmoothingFactor exponential_device = 90"
  "LastXOutput exponential_device = 0" "LastYOutput exponential_device = 0"
  using active_device_ok
  by (simp_all add: exponential_device_def active_device_simps extension_ok_def ring_ok_def
      in_range_def outputs_ok_def selected_def)

text \<open>
  Claim C4.  When the Exponential algorithm runs (\<open>SmoothingFactor\<close> above 75) on a
  context that the driver can reach (tunables within 0 and 100, last outputs within
  \<open>- 128\<close> and 127), each axis of the report comes out as the blend computed in single
  precision: alpha is \<open>(100 - SmoothingFactor) / 100\<close> rounded, clamped between \<open>0.01f\<close>
  and 1; the output is \<open>input \<sqdot> alpha + lastOutput \<sqdot> (1 - alpha)\<close> with every operation
  rounded, then rounded toward zero and clamped to \<open>- 128\<close> .. 127; and the clamped value
  is stored as the last output of the axis.  This alpha is within \<open>1 / 262144\<close> of the
  specification's \<open>clamp ((100 - smoothingFactor) / 100) 0.01 1.0\<close>, and the output is
  within 1 of the specification's formula evaluated exactly.  With \<open>SmoothingFactor\<close> 90,
  last output 0 and input 100 the output is 10.  Equality with the exact formula does not
  hold for all inputs: the second theorem below gives an input where the two differ.
\<close>

theorem exponential_output_in_single_precision:
  assumes "FilterActive FilterExt \<noteq> 0" and "extension_ok FilterExt" and "outputs_ok FilterExt"
    and "selected (sint (SmoothingFactor FilterExt)) = Exponential"
    and "ProcessMouseInput binary32 Report FilterExt = (Report', FilterExt', calls)"
  shows
    "(let smoothingFactor = sint (SmoothingFactor FilterExt);
          alpha = single_exponential_alpha smoothingFactor;
          exact = exponential_alpha smoothingFactor;
          lastOutputX = sint (LastXOutput FilterExt);
          lastOutputY = sint (LastYOutput FilterExt)
      in sint (X Report') = single_blend alpha (sint (X Report)) lastOutputX \<and>
         sint (Y Report') = single_blend alpha (sint (Y Report)) lastOutputY \<and>
         \<bar>alpha - exact\<bar> \<le> 1 / 262144 \<and>
         \<bar>sint (X Report') - blend exact (sint (X Report)) lastOutputX\<bar> \<le> 1 \<and>
         \<bar>sint (Y Report') - blend exact (sint (Y Report)) lastOutputY\<bar> \<le> 1 \<and>
         LastXOutput FilterExt' = LONG_of_CHAR (X Report') \<and>
         LastYOutput FilterExt' = LONG_of_CHAR (Y Report') \<and>
         (smoothingFactor = 90 \<and> lastOutputX = 0 \<and> sint (X Report) = 100 \<longrightarrow>
            sint (X Report') = 10))"
proof -
  from assms(2) have range: "in_range (SmoothingFactor FilterExt)"
    by (simp add: extension_ok_def)
  note pmi = ProcessMouseInput_exponential [OF assms(1) range assms(4,3), of Report,
      unfolded assms(5), simplified]
  define sf where "sf = sint (SmoothingFactor FilterExt)"
  from assms(4) range have sf: "75 < sf" "sf \<le> 100"
    by (simp_all add: sf_def selected_def in_range_def split: if_splits)
  note alpha = single_exponential_alpha_near [OF sf]
  have x: "\<bar>sint (X Report)\<bar> \<le> 128" and y: "\<bar>sint (Y Report)\<bar> \<le> 128"
    using sint_CHAR_range [of "X Report"] sint_CHAR_range [of "Y Report"] by simp_all
  from assms(3) have lx: "\<bar>sint (LastXOutput FilterExt)\<bar> \<le> 128"
    and ly: "\<bar>sint (LastYOutput FilterExt)\<bar> \<le> 128"
    by (simp_all add: outputs_ok_def abs_le_iff)
  have outX: "sint (X Report') =
      single_blend (single_exponential_alpha sf) (sint (X Report)) (sint (LastXOutput FilterExt))"
    and outY: "sint (Y Report') =
      single_blend (single_exponential_alpha sf) (sint (Y Report)) (sint (LastYOutput FilterExt))"
    by (simp_all only: pmi sf_def sint_CHAR_of_blend)
  have storedX: "LastXOutput FilterExt' = LONG_of_CHAR (X Report')"
    and storedY: "LastYOutput FilterExt' = LONG_of_CHAR (Y Report')"
    by (simp_all only: pmi LONG_of_CHAR_of_blend)
  have nearX: "\<bar>sint (X Report') -
      blend (exponential_alpha sf) (sint (X Report)) (sint (LastXOutput FilterExt))\<bar> \<le> 1"
    unfolding outX using alpha(2,3,1) x lx by (rule single_blend_near(1))
  have nearY: "\<bar>sint (Y Report') -
      blend (exponential_alpha sf) (sint (Y Report)) (sint (LastYOutput FilterExt))\<bar> \<le> 1"
    unfolding outY using alpha(2,3,1) y ly by (rule single_blend_near(1))
  have example: "sf = 90 \<and> sint (LastXOutput FilterExt) = 0 \<and> sint (X Report) = 100 \<longrightarrow>
      sint (X Report') = 10"
    by (simp add: outX single_exponential_alpha_90 single_blend_exponential)
  show ?thesis
    unfolding Let_def sf_def [symmetric]
    using outX outY alpha(1) nearX nearY storedX storedY example by (intro conjI)
qed

theorem exponential_output_in_single_precision_witness:
  "FilterActive exponential_device \<noteq> 0 \<and> extension_ok exponential_device \<and>
   outputs_ok exponential_device \<and>
   selected (sint (SmoothingFactor exponential_device)) = Exponential \<and>
   sint (X (fst (ProcessMouseInput binary32 (move 100 0) exponential_device))) = 10 \<and>
   sint (LastXOutput (fst (snd (ProcessMouseInput binary32 (move 100 0) exponential_device)))) = 10 \<and>
   blend (exponential_alpha 90) 100 0 = 10"
proof -
  have result: "ProcessMouseInput binary32 (move 100 0) exponential_device =
      (fst (ProcessMouseInput binary32 (move 100 0) exponential_device),
       fst (snd (ProcessMouseInput binary32 (move 100 0) exponential_device)),
       snd (snd (ProcessMouseInput binary32 (move 100 0) exponential_device)))"
    by simp
  from exponential_output_in_single_precision [OF exponential_device_simps(1-4) result]
  show ?thesis
    by (simp add: exponential_device_simps move_simps Let_def sint_LONG_of_CHAR
        exponential_alpha_90 blend_exponential selected_def)
qed

text \<open>The output is not always the exact formula of the specification.  On a device with
  \<open>SmoothingFactor\<close> 90, a first report with \<open>X = 30\<close> leaves the last output 3; a second
  report with \<open>X = 3\<close> comes out with \<open>X = 2\<close>, where \<open>0.1 \<sqdot> 3 + 0.9 \<sqdot> 3 = 3\<close>.  In
  single precision \<open>1 - 0.1f\<close> rounds to \<open>0.9f\<close>, which is below \<open>9 / 10\<close>;
  \<open>3 \<sqdot> 0.9f\<close> is a tie and rounds down; the sum rounds to \<open>3 - 1 / 4194304\<close>, which
  \<open>(LONG)\<close> cuts to 2.\<close>

theorem exponential_output_below_the_formula:
  "SmoothingFactor (process_reports binary32 exponential_device [move 30 0]) = 90 \<and>
   LastXOutput (process_reports binary32 exponential_device [move 30 0]) = 3 \<and>
   sint (X (fst (ProcessMouseInput binary32 (move 3 0)
     (process_reports binary32 exponential_device [move 30 0])))) = 2 \<and>
   blend (exponential_alpha 90) 3 3 = 3"
proof -
  define before where "before = process_reports binary32 exponential_device [move 30 0]"
  have before: "before = fst (snd (ProcessMouseInput binary32 (move 30 0) exponential_device))"
    by (simp add: before_def)
  note dev = exponential_device_simps
  from dev(2) have range: "in_range (SmoothingFactor exponential_device)"
    by (simp add: extension_ok_def)
  note first = ProcessMouseInput_exponential [OF dev(1) range dev(4,3), of "move 30 0",
      folded before]
  note ctx = ProcessMouseInput_context [OF dev(1), of binary32 "move 30 0", folded before]
  have lastX: "LastXOutput before = 3" and lastY: "LastYOutput before = 0"
    by (simp_all add: first dev move_simps single_exponential_alpha_90 single_blend_exponential)
  have sf: "SmoothingFactor before = 90" by (simp add: ctx dev)
  have active: "FilterActive before \<noteq> 0" using dev(1) by (simp add: ctx)
  have range': "in_range (SmoothingFactor before)" by (simp add: sf in_range_def)
  have selected: "selected (sint (SmoothingFactor before)) = Exponential"
    by (simp add: sf selected_def)
  have outputs: "outputs_ok before" by (simp add: outputs_ok_def lastX lastY)
  note second = ProcessMouseInput_exponential [OF active range' selected outputs, of "move 3 0"]
  have "sint (X (fst (ProcessMouseInput binary32 (move 3 0) before))) =
      single_blend (single_exponential_alpha (sint (SmoothingFactor before)))
        (sint (X (move 3 0))) (sint (LastXOutput before))"
    by (simp only: second(1) sint_CHAR_of_blend)
  then have "sint (X (fst (ProcessMouseInput binary32 (move 3 0) before))) = 2"
    by (simp add: sf lastX move_simps single_exponential_alpha_90 single_blend_exponential)
  then show ?thesis
    unfolding before_def [symmetric]
    by (simp add: sf lastX exponential_alpha_90 blend_exponential)
qed

section \<open>Adaptive filtering\<close>

lemma adaptive_device_simps:
  "FilterActive adaptive_device \<noteq> 0" "extension_ok adaptive_device"
  "outputs_ok adaptive_device"
  "selected (sint (SmoothingFactor adaptive_device)) = Adaptive"
  "ResponseSpeed adaptive_device = 50"
  "LastXOutput adaptive_device = 0" "LastYOutput adaptive_device = 0"
  using active_device_ok
  by (simp_all add: adaptive_device_def active_device_simps extension_ok_def ring_ok_def
      in_range_def outputs_ok_def selected_def)

lemma fastest_adaptive_device_simps:
  "FilterActive fastest_adaptive_device \<noteq> 0" "extension_ok fastest_adaptive_device"
  "outputs_ok fastest_adaptive_device"
  "selected (sint (SmoothingFactor fastest_adaptive_device)) = Adaptive"
  "ResponseSpeed fastest_adaptive_device = 100"
  "LastXOutput fastest_adaptive_device = 0" "LastYOutput fastest_adaptive_device = 0"
  using active_device_ok
  by (simp_all add: fastest_adaptive_device_def active_device_simps extension_ok_def ring_ok_def
      in_range_def outputs_ok_def selected_def)

text \<open>
  Claim C6.  When the Adaptive algorithm runs (\<open>SmoothingFactor\<close> at most 25) on a
  context that the driver can reach, each axis of the report comes out as the blend
  computed in single precision with the alpha computed in single precision from
  \<open>ResponseSpeed\<close> and the raw \<open>X\<close> and \<open>Y\<close> of the report:
  \<open>baseAlpha = ResponseSpeed / 100\<close>, \<open>velocityFactor = min 1 ((\<bar>X\<bar> + \<bar>Y\<bar>) / 20)\<close>,
  \<open>alpha = baseAlpha + (1 - baseAlpha) \<sqdot> velocityFactor\<close> clamped between \<open>0.1f\<close> and
  \<open>0.9f\<close>, every operation rounded; the output is rounded toward zero, clamped to
  \<open>- 128\<close> .. 127 and stored as the last output of the axis.  This alpha is within
  \<open>1 / 262144\<close> of the specification's alpha, and the output is within 1 of the
  specification's formula evaluated exactly.  With \<open>ResponseSpeed\<close> 100 the alpha is
  \<open>0.9f\<close>, the single-precision number nearest to \<open>9 / 10\<close>, for every report, where the
  specification's alpha is \<open>9 / 10\<close>.  Equality of the output with the exact formula
  does not hold for all inputs: the second theorem below gives an input where the two
  differ.
\<close>

theorem adaptive_output_in_single_precision:
  assumes "FilterActive FilterExt \<noteq> 0" and "extension_ok FilterExt" and "outputs_ok FilterExt"
    and "selected (sint (SmoothingFactor FilterExt)) = Adaptive"
    and "ProcessMouseInput binary32 Report FilterExt = (Report', FilterExt', calls)"
  shows
    "(let responseSpeed = sint (ResponseSpeed FilterExt);
          rawX = sint (X Report);
          rawY = sint (Y Report);
          alpha = single_adaptive_alpha responseSpeed rawX rawY;
          exact = adaptive_alpha responseSpeed rawX rawY;
          lastOutputX = sint (LastXOutput FilterExt);
          lastOutputY = sint (LastYOutput FilterExt)
      in sint (X Report') = single_blend alpha rawX lastOutputX \<and>
         sint (Y Report') = single_blend alpha rawY lastOutputY \<and>
         \<bar>alpha - exact\<bar> \<le> 1 / 262144 \<and>
         \<bar>sint (X Report') - blend exact rawX lastOutputX\<bar> \<le> 1 \<and>
         \<bar>sint (Y Report') - blend exact rawY lastOutputY\<bar> \<le> 1 \<and>
         LastXOutput FilterExt' = LONG_of_CHAR (X Report') \<and>
         LastYOutput FilterExt' = LONG_of_CHAR (Y Report') \<and>
         (responseSpeed = 100 \<longrightarrow> alpha = binary32_round (9 / 10) \<and> exact = 9 / 10))"
proof -
  from assms(2) have range: "in_range (ResponseSpeed FilterExt)"
    by (simp add: extension_ok_def)
  note pmi = ProcessMouseInput_adaptive [OF assms(1) range assms(4,3), of Report,
      unfolded assms(5), simplified]
  define rs where "rs = sint (ResponseSpeed FilterExt)"
  from range have rs: "0 \<le> rs" "rs \<le> 100"
    by (simp_all add: rs_def in_range_def)
  have x: "\<bar>sint (X Report)\<bar> \<le> 128" and y: "\<bar>sint (Y Report)\<bar> \<le> 128"
    using sint_CHAR_range [of "X Report"] sint_CHAR_range [of "Y Report"] by simp_all
  note alpha = single_adaptive_alpha_near [OF rs x y]
  from assms(3) have lx: "\<bar>sint (LastXOutput FilterExt)\<bar> \<le> 128"
    and ly: "\<bar>sint (LastYOutput FilterExt)\<bar> \<le> 128"
    by (simp_all add: outputs_ok_def abs_le_iff)
  have outX: "sint (X Report') =
      single_blend (single_adaptive_alpha rs (sint (X Report)) (sint (Y Report)))
        (sint (X Report)) (sint (LastXOutput FilterExt))"
    and outY: "sint (Y Report') =
      single_blend (single_adaptive_alpha rs (sint (X Report)) (sint (Y Report)))
        (sint (Y Report)) (sint (LastYOutput FilterExt))"
    by (simp_all only: pmi rs_def sint_CHAR_of_blend)
  have storedX: "LastXOutput FilterExt' = LONG_of_CHAR (X Report')"
    and storedY: "LastYOutput FilterExt' = LONG_of_CHAR (Y Report')"
    by (simp_all only: pmi LONG_of_CHAR_of_blend)
  have nearX: "\<bar>sint (X Report') -
      blend (adaptive_alpha rs (sint (X Report)) (sint (Y Report)))
        (sint (X Report)) (sint (LastXOutput FilterExt))\<bar> \<le> 1"
    unfolding outX using alpha(2,3,1) x lx by (rule single_blend_near(1))
  have nearY: "\<bar>sint (Y Report') -
      blend (adaptive_alpha rs (sint (X Report)) (sint (Y Report)))
        (sint (Y Report)) (sint (LastYOutput FilterExt))\<bar> \<le> 1"
    unfolding outY using alpha(2,3,1) y ly by (rule single_blend_near(1))
  have example: "rs = 100 \<longrightarrow>
      single_adaptive_alpha rs (sint (X Report)) (sint (Y Report)) = binary32_round (9 / 10) \<and>
      adaptive_alpha rs (sint (X Report)) (sint (Y Report)) = 9 / 10"
    by (simp add: single_adaptive_alpha_100 adaptive_alpha_100)
  show ?thesis
    unfolding Let_def rs_def [symmetric]
    using outX outY alpha(1) nearX nearY storedX storedY example by (intro conjI)
qed

theorem adaptive_output_in_single_precision_witness:
  "FilterActive fastest_adaptive_device \<noteq> 0 \<and> extension_ok fastest_adaptive_device \<and>
   outputs_ok fastest_adaptive_device \<and>
   selected (sint (SmoothingFactor fastest_adaptive_device)) = Adaptive \<and>
   sint (ResponseSpeed fastest_adaptive_device) = 100 \<and>
   single_adaptive_alpha 100 20 0 = 7549747 / 8388608 \<and>
   sint (X (fst (ProcessMouseInput binary32 (move 20 0) fastest_adaptive_device))) = 18 \<and>
   blend (adaptive_alpha 100 20 0) 20 0 = 18"
proof -
  have result: "ProcessMouseInput binary32 (move 20 0) fastest_adaptive_device =
      (fst (ProcessMouseInput binary32 (move 20 0) fastest_adaptive_device),
       fst (snd (ProcessMouseInput binary32 (move 20 0) fastest_adaptive_device)),
       snd (snd (ProcessMouseInput binary32 (move 20 0) fastest_adaptive_device)))"
    by simp
  from adaptive_output_in_single_precision [OF fastest_adaptive_device_simps(1-4) result]
  show ?thesis
    by (simp add: fastest_adaptive_device_simps move_simps Let_def single_adaptive_alpha_100
        adaptive_alpha_100 binary32_literals single_blend_adaptive blend_adaptive)
qed

text \<open>The output is not always the exact formula of the specification.  On a device with
  \<open>SmoothingFactor\<close> 10 and the default \<open>ResponseSpeed\<close> 50, a first report with
  \<open>X = 10\<close> (alpha \<open>3 / 4\<close>) leaves the last output 7; a second report with \<open>X = 17\<close>
  has velocity 17, so alpha \<open>0.925\<close> clamped to \<open>0.9\<close>, and comes out with \<open>X = 15\<close>,
  where \<open>0.9 \<sqdot> 17 + 0.1 \<sqdot> 7 = 16\<close>.  In single precision \<open>0.9f\<close> is below
  \<open>9 / 10\<close> and the sum rounds to \<open>16 - 1 / 1048576\<close>, which \<open>(LONG)\<close> cuts to 15.\<close>

theorem adaptive_output_below_the_formula:
  "ResponseSpeed (process_reports binary32 adaptive_device [move 10 0]) = 50 \<and>
   LastXOutput (process_reports binary32 adaptive_device [move 10 0]) = 7 \<and>
   sint (X (fst (ProcessMouseInput binary32 (move 17 0)
     (process_reports binary32 adaptive_device [move 10 0])))) = 15 \<and>
   blend (adaptive_alpha 50 17 0) 17 7 = 16"
proof -
  define before where "before = process_reports binary32 adaptive_device [move 10 0]"
  have before: "before = fst (snd (ProcessMouseInput binary32 (move 10 0) adaptive_device))"
    by (simp add: before_def)
  note dev = adaptive_device_simps
  from dev(2) have range: "in_range (ResponseSpeed adaptive_device)"
    by (simp add: extension_ok_def)
  note first = ProcessMouseInput_adaptive [OF dev(1) range dev(4,3), of "move 10 0",
      folded before]
  note ctx = ProcessMouseInput_context [OF dev(1), of binary32 "move 10 0", folded before]
  have lastX: "LastXOutput before = 7" and lastY: "LastYOutput before = 0"
    by (simp_all add: first dev move_simps single_adaptive_alpha_50 single_blend_adaptive)
  have rs: "ResponseSpeed before = 50" by (simp add: ctx dev)
  have active: "FilterActive before \<noteq> 0" using dev(1) by (simp add: ctx)
  have range': "in_range (ResponseSpeed before)" by (simp add: rs in_range_def)
  have selected: "selected (sint (SmoothingFactor before)) = Adaptive"
    using dev(4) by (simp add: ctx)
  have outputs: "outputs_ok before" by (simp add: outputs_ok_def lastX lastY)
  note second = ProcessMouseInput_adaptive [OF active range' selected outputs, of "move 17 0"]
  have "sint (X (fst (ProcessMouseInput binary32 (move 17 0) before))) =
      single_blend
        (single_adaptive_alpha (sint (ResponseSpeed before)) (sint (X (move 17 0)))
           (sint (Y (move 17 0))))
        (sint (X (move 17 0))) (sint (LastXOutput before))"
    by (simp only: second(1) sint_CHAR_of_blend)
  then have "sint (X (fst (ProcessMouseInput binary32 (move 17 0) before))) = 15"
    by (simp add: rs lastX move_simps single_adaptive_alpha_50 single_blend_adaptive)
  then show ?thesis
    unfolding before_def [symmetric]
    by (simp add: rs lastX adaptive_alpha_50 blend_adaptive)
qed


end
